(* ===== verification/Errors.thy ===== *)
theory Errors
  imports Prelude
begin

text \<open>
  The exceptions of the program: \<open>serialization/errors.py\<close>, \<open>cdc/errors.py\<close>, the built-in
  exception classes the code raises or catches, and the exceptions of the two client libraries
  (\<open>confluent_kafka.KafkaException\<close>, \<open>fdb.FDBError\<close>). One constructor per class, carrying the
  attributes the code reads; message texts are dropped except for \<open>RuntimeError\<close>, whose text
  the code inspects. The \<open>is_\<close> predicates are the \<open>isinstance\<close> and \<open>except\<close> tests over the
  class hierarchy.
\<close>

section \<open>Why bytes are not a decodable record\<close>

datatype decode_failure =
    MALFORMED_WIRE
  | NO_RECORD_ARM
  | NO_MUTATION_ARM
  | MISSING_VERSION_INDEX
  | TYPE_CODE_OUT_OF_RANGE
  | VERSION_OUT_OF_RANGE
  | EMPTY_BATCH
  | INCONSISTENT_BATCH

section \<open>Exceptions\<close>

text \<open>
  A librdkafka error object, through the three methods the code probes. A flag is \<open>None\<close> when
  the object has no such callable attribute, and otherwise says whether the call returned
  \<open>True\<close> (the only result the code distinguishes).
\<close>

record kafka_error =
  ke_fatal :: "bool option"
  ke_retriable :: "bool option"
  ke_txn_requires_abort :: "bool option"

text \<open>
  \<open>KafkaException None\<close> is one raised without arguments. \<open>OtherError c\<close> is any other
  \<open>Exception\<close>; \<open>c\<close> is its integer \<open>code\<close> attribute, if it has one. \<open>KeyboardInterrupt\<close> stands
  for the exceptions that are not an \<open>Exception\<close>. \<open>Diverges\<close> is no exception of Python: it marks a
  run in which a loop did not end within the model's fuel.
\<close>

datatype exn =
    InputTypeError string "nat option"
  | InputValueError string "nat option"
  | RecordTooLargeError "nat option" nat int
  | RecordDecodeError decode_failure "nat option"
  | CDCError
  | CDCNotSupportedError
  | CDCConsumerClosedError
  | CDCInvalidCursorError
  | CDCInvalidRangeError
  | CDCConsumeError "int option"
  | CDCRetryableError "int option"
  | CDCTerminalError "int option"
  | KafkaException "kafka_error option"
  | FDBError int
  | BufferError
  | TimeoutError
  | RuntimeError string
  | TypeError
  | ValueError
  | AttributeError
  | OSError int
  | AssertionError
  | OtherError "int option"
  | KeyboardInterrupt
  | Diverges

abbreviation OverflowError :: exn where
  "OverflowError \<equiv> OtherError None"

section \<open>Class membership\<close>

fun is_SerializationError :: "exn \<Rightarrow> bool" where
  "is_SerializationError (InputTypeError f i) = True"
| "is_SerializationError (InputValueError f i) = True"
| "is_SerializationError (RecordTooLargeError i n m) = True"
| "is_SerializationError (RecordDecodeError r i) = True"
| "is_SerializationError _ = False"

fun is_ValueError :: "exn \<Rightarrow> bool" where
  "is_ValueError ValueError = True"
| "is_ValueError (InputValueError f i) = True"
| "is_ValueError (RecordTooLargeError i n m) = True"
| "is_ValueError (RecordDecodeError r i) = True"
| "is_ValueError _ = False"

fun is_CDCError :: "exn \<Rightarrow> bool" where
  "is_CDCError CDCError = True"
| "is_CDCError CDCNotSupportedError = True"
| "is_CDCError CDCConsumerClosedError = True"
| "is_CDCError CDCInvalidCursorError = True"
| "is_CDCError CDCInvalidRangeError = True"
| "is_CDCError (CDCConsumeError c) = True"
| "is_CDCError (CDCRetryableError c) = True"
| "is_CDCError (CDCTerminalError c) = True"
| "is_CDCError _ = False"

fun is_CDCRetryableError :: "exn \<Rightarrow> bool" where
  "is_CDCRetryableError (CDCRetryableError c) = True"
| "is_CDCRetryableError _ = False"

fun is_CDCTerminalError :: "exn \<Rightarrow> bool" where
  "is_CDCTerminalError (CDCTerminalError c) = True"
| "is_CDCTerminalError _ = False"

fun is_KafkaException :: "exn \<Rightarrow> bool" where
  "is_KafkaException (KafkaException a) = True"
| "is_KafkaException _ = False"

fun is_RuntimeError :: "exn \<Rightarrow> bool" where
  "is_RuntimeError (RuntimeError m) = True"
| "is_RuntimeError _ = False"

fun is_OSError :: "exn \<Rightarrow> bool" where
  "is_OSError (OSError n) = True"
| "is_OSError TimeoutError = True"
| "is_OSError _ = False"

fun is_Exception :: "exn \<Rightarrow> bool" where
  "is_Exception KeyboardInterrupt = False"
| "is_Exception Diverges = False"
| "is_Exception _ = True"

text \<open>The two roots of the package hierarchies meet only in \<open>ValueError\<close>.\<close>

lemma serialization_error_not_cdc: "is_SerializationError e \<Longrightarrow> \<not> is_CDCError e"
  by (cases e) auto

lemma kafka_exception_not_value_error: "is_KafkaException e \<Longrightarrow> \<not> is_ValueError e"
  by (cases e) auto

lemma is_KafkaException_iff: "is_KafkaException e \<longleftrightarrow> (\<exists>a. e = KafkaException a)"
  by (cases e) auto

lemma is_CDCRetryableError_iff: "is_CDCRetryableError e \<longleftrightarrow> (\<exists>c. e = CDCRetryableError c)"
  by (cases e) auto

lemma is_RuntimeError_iff: "is_RuntimeError e \<longleftrightarrow> (\<exists>m. e = RuntimeError m)"
  by (cases e) auto

end
