(* ===== verification/Utf8.thy ===== *)
theory Utf8
  imports Prelude
begin

text \<open>
  The UTF-8 codec of the Python standard library, as far as the code uses it:
  \<open>str.encode("utf-8")\<close> (strict, so it fails on surrogates), \<open>bytes.decode("utf-8")\<close> and
  \<open>bytes.decode("utf-8", errors="replace")\<close>, which substitutes U+FFFD for every maximal
  ill-formed prefix. The lemmas show that both decoders invert the encoder and that the
  strict decoder yields encodable text only.
\<close>

section \<open>Encoding\<close>

definition utf8_char :: "nat \<Rightarrow> bytes option" where
  "utf8_char c =
     (if c < 128 then Some [of_nat c]
      else if c < 2048 then Some [of_nat (192 + c div 64), of_nat (128 + c mod 64)]
      else if 55296 \<le> c \<and> c \<le> 57343 then None
      else if c < 65536 then
        Some [of_nat (224 + c div 4096), of_nat (128 + c div 64 mod 64),
              of_nat (128 + c mod 64)]
      else if c < 1114112 then
        Some [of_nat (240 + c div 262144), of_nat (128 + c div 4096 mod 64),
              of_nat (128 + c div 64 mod 64), of_nat (128 + c mod 64)]
      else None)"

fun utf8_encode :: "pystr \<Rightarrow> bytes option" where
  "utf8_encode [] = Some []"
| "utf8_encode (c # cs) =
     (case utf8_char c of None \<Rightarrow> None
      | Some bs \<Rightarrow> map_option (\<lambda>rest. bs @ rest) (utf8_encode cs))"

section \<open>Decoding\<close>

text \<open>
  A lead byte determines the bits read so far and the range each continuation byte must lie
  in. \<open>utf8_step\<close> reads one unit: a code point, or \<open>None\<close> for one maximal ill-formed prefix,
  together with the unread bytes.
\<close>

definition utf8_lead :: "nat \<Rightarrow> (nat \<times> (nat \<times> nat) list) option" where
  "utf8_lead x =
     (if x < 128 then Some (x, [])
      else if 194 \<le> x \<and> x \<le> 223 then Some (x - 192, [(128, 191)])
      else if x = 224 then Some (0, [(160, 191), (128, 191)])
      else if x = 237 then Some (13, [(128, 159), (128, 191)])
      else if 225 \<le> x \<and> x \<le> 239 then Some (x - 224, [(128, 191), (128, 191)])
      else if x = 240 then Some (0, [(144, 191), (128, 191), (128, 191)])
      else if 241 \<le> x \<and> x \<le> 243 then Some (x - 240, [(128, 191), (128, 191), (128, 191)])
      else if x = 244 then Some (4, [(128, 143), (128, 191), (128, 191)])
      else None)"

fun utf8_cont :: "nat \<Rightarrow> (nat \<times> nat) list \<Rightarrow> bytes \<Rightarrow> nat option \<times> bytes" where
  "utf8_cont acc [] bs = (Some acc, bs)"
| "utf8_cont acc ((lo, hi) # rs) [] = (None, [])"
| "utf8_cont acc ((lo, hi) # rs) (b # bs) =
     (if lo \<le> unat b \<and> unat b \<le> hi then utf8_cont (64 * acc + (unat b - 128)) rs bs
      else (None, b # bs))"

definition utf8_step :: "byte \<Rightarrow> bytes \<Rightarrow> nat option \<times> bytes" where
  "utf8_step b bs =
     (case utf8_lead (unat b) of None \<Rightarrow> (None, bs) | Some (acc, rs) \<Rightarrow> utf8_cont acc rs bs)"

lemma utf8_cont_length: "length (snd (utf8_cont acc rs bs)) \<le> length bs"
  by (induction acc rs bs rule: utf8_cont.induct) auto

lemma utf8_step_shorter: "(r, rest) = utf8_step b bs \<Longrightarrow> length rest < Suc (length bs)"
  using utf8_cont_length [of _ _ bs]
  by (auto simp: utf8_step_def less_Suc_eq_le split: option.splits dest: arg_cong [where f = snd])

function utf8_decode :: "bytes \<Rightarrow> pystr option" where
  "utf8_decode [] = Some []"
| "utf8_decode (b # bs) =
     (case utf8_step b bs of
        (None, rest) \<Rightarrow> None
      | (Some c, rest) \<Rightarrow> map_option (\<lambda>cs. c # cs) (utf8_decode rest))"
  by pat_completeness auto
termination
  by (relation "measure length") (auto dest: utf8_step_shorter)

function utf8_decode_replace :: "bytes \<Rightarrow> pystr" where
  "utf8_decode_replace [] = []"
| "utf8_decode_replace (b # bs) =
     (case utf8_step b bs of
        (None, rest) \<Rightarrow> 65533 # utf8_decode_replace rest
      | (Some c, rest) \<Rightarrow> c # utf8_decode_replace rest)"
  by pat_completeness auto
termination
  by (relation "measure length") (auto dest: utf8_step_shorter)

section \<open>The decoders invert the encoder\<close>

lemma utf8_char_nonempty: "utf8_char c = Some bs \<Longrightarrow> bs \<noteq> []"
  by (auto simp: utf8_char_def split: if_splits)

lemma div_64_64: "(c :: nat) div 4096 = c div 64 div 64" "(c :: nat) div 262144 = c div 64 div 64 div 64"
  by (simp_all add: div_mult2_eq [symmetric])

lemma utf8_step_char:
  assumes "utf8_char c = Some (b # bs)"
  shows "utf8_step b (bs @ rest) = (Some c, rest)"
proof -
  consider (one) "c < 128" | (two) "128 \<le> c" "c < 2048"
    | (three) "2048 \<le> c" "c < 65536" "\<not> (55296 \<le> c \<and> c \<le> 57343)"
    | (four) "65536 \<le> c" "c < 1114112"
    using assms by (fastforce simp: utf8_char_def split: if_splits)
  then show ?thesis
  proof cases
    case one
    with assms show ?thesis
      by (auto simp: utf8_char_def utf8_step_def utf8_lead_def)
  next
    case two
    define y z where "y = c div 64" and "z = c mod 64"
    have c: "c = 64 * y + z" and z: "z < 64"
      by (simp_all add: y_def z_def)
    have enc: "[of_nat (192 + y), of_nat (128 + z)] = b # bs"
      using assms two by (auto simp: utf8_char_def y_def z_def)
    have y: "2 \<le> y" "y < 32"
      using two c z by auto
    from enc obtain b1 where bs: "bs = [b1]" and b: "of_nat (192 + y) = b" "of_nat (128 + z) = b1"
      by blast
    have "unat b = 192 + y" "unat b1 = 128 + z"
      using b y z by (auto intro!: unat_eq_if_byte_of_nat simp del: of_nat_add)
    then show ?thesis using y z c bs
      by (simp add: utf8_step_def utf8_lead_def)
  next
    case three
    define x y z where "x = c div 64 div 64" and "y = c div 64 mod 64" and "z = c mod 64"
    have c: "c = 64 * (64 * x + y) + z" and yz: "y < 64" "z < 64"
      by (simp_all add: x_def y_def z_def)
    have enc: "[of_nat (224 + x), of_nat (128 + y), of_nat (128 + z)] = b # bs"
      using assms three by (auto simp: utf8_char_def div_64_64 x_def y_def z_def)
    have x: "x < 16" "x = 0 \<Longrightarrow> 32 \<le> y" "x = 13 \<Longrightarrow> y < 32"
      using three c yz by auto
    from enc obtain b1 b2 where bs: "bs = [b1, b2]"
      and b: "of_nat (224 + x) = b" "of_nat (128 + y) = b1" "of_nat (128 + z) = b2"
      by blast
    have "unat b = 224 + x" "unat b1 = 128 + y" "unat b2 = 128 + z"
      using b x yz by (auto intro!: unat_eq_if_byte_of_nat simp del: of_nat_add)
    then show ?thesis using x yz c bs
      by (auto simp: utf8_step_def utf8_lead_def)
  next
    case four
    define w x y z where "w = c div 64 div 64 div 64" and "x = c div 64 div 64 mod 64"
      and "y = c div 64 mod 64" and "z = c mod 64"
    have c: "c = 64 * (64 * (64 * w + x) + y) + z" and xyz: "x < 64" "y < 64" "z < 64"
      by (simp_all add: w_def x_def y_def z_def)
    have enc: "[of_nat (240 + w), of_nat (128 + x), of_nat (128 + y), of_nat (128 + z)] = b # bs"
      using assms four by (auto simp: utf8_char_def div_64_64 w_def x_def y_def z_def)
    have w: "w < 5" "w = 0 \<Longrightarrow> 16 \<le> x" "w = 4 \<Longrightarrow> x < 16"
      using four c xyz by auto
    from enc obtain b1 b2 b3 where bs: "bs = [b1, b2, b3]"
      and b: "of_nat (240 + w) = b" "of_nat (128 + x) = b1" "of_nat (128 + y) = b2"
        "of_nat (128 + z) = b3"
      by blast
    have "unat b = 240 + w" "unat b1 = 128 + x" "unat b2 = 128 + y" "unat b3 = 128 + z"
      using b w xyz by (auto intro!: unat_eq_if_byte_of_nat simp del: of_nat_add)
    moreover have "w \<le> 3 \<or> w = 4"
      using w by linarith
    ultimately show ?thesis using w xyz c bs
      by (auto simp: utf8_step_def utf8_lead_def)
  qed
qed

lemma utf8_cont_Cons:
  "utf8_cont acc ((lo, hi) # rs) bs = (Some c, rest) \<longleftrightarrow>
     (\<exists>b bs'. bs = b # bs' \<and> lo \<le> unat b \<and> unat b \<le> hi \<and>
        utf8_cont (64 * acc + (unat b - 128)) rs bs' = (Some c, rest))"
  by (cases bs) auto

lemma utf8_char_defined:
  "utf8_char c \<noteq> None \<longleftrightarrow> c < 55296 \<or> 57343 < c \<and> c < 1114112"
  by (auto simp: utf8_char_def)

lemma utf8_step_valid:
  assumes "utf8_step b bs = (Some c, rest)"
  shows "utf8_char c \<noteq> None"
  using assms unfolding utf8_char_defined
  by (auto simp: utf8_step_def utf8_lead_def utf8_cont_Cons split: option.splits if_splits)
    linarith+

theorem utf8_decode_encode: "utf8_encode cs = Some bs \<Longrightarrow> utf8_decode bs = Some cs"
proof (induction cs arbitrary: bs)
  case (Cons c cs)
  then obtain b bs' tail where "utf8_char c = Some (b # bs')" "utf8_encode cs = Some tail"
      "bs = b # bs' @ tail"
    by (auto split: option.splits) (metis append_Cons list.exhaust utf8_char_nonempty)
  with Cons.IH show ?case
    by (simp add: utf8_step_char)
qed simp

theorem utf8_decode_replace_encode: "utf8_encode cs = Some bs \<Longrightarrow> utf8_decode_replace bs = cs"
proof (induction cs arbitrary: bs)
  case (Cons c cs)
  then obtain b bs' tail where "utf8_char c = Some (b # bs')" "utf8_encode cs = Some tail"
      "bs = b # bs' @ tail"
    by (auto split: option.splits) (metis append_Cons list.exhaust utf8_char_nonempty)
  with Cons.IH show ?case
    by (simp add: utf8_step_char)
qed simp

lemma utf8_decode_encodable: "utf8_decode bs = Some cs \<Longrightarrow> utf8_encode cs \<noteq> None"
proof (induction bs arbitrary: cs rule: utf8_decode.induct)
  case (2 b bs)
  then show ?case
    by (auto split: prod.splits option.splits dest: utf8_step_valid)
qed simp

lemma utf8_encode_Nil_iff: "utf8_encode cs = Some [] \<longleftrightarrow> cs = []"
  by (cases cs) (auto split: option.splits dest: utf8_char_nonempty)

end
