(* ===== verification/Py_Values.thy ===== *)
theory Py_Values
  imports Errors Utf8
begin

text \<open>
  The dynamically typed values that cross the program's boundaries: arguments of the
  serialize functions, native mutations delivered by the FoundationDB binding, configuration
  dictionaries and decoded cursor files. The constructors keep apart exactly the classes the
  code's \<open>type(x) is int\<close> and \<open>isinstance\<close> tests keep apart.
\<close>

datatype pyfloat = Finite rat | PosInf | NegInf | NaN

text \<open>
  \<open>PIntSub\<close> is an instance of a proper subclass of \<open>int\<close> other than \<open>bool\<close> (an \<open>IntEnum\<close>
  member, say); \<open>PObj\<close> an object with the given attributes; \<open>POther\<close> any value of another
  class, with none of the attributes the code reads.
\<close>

datatype pyval =
    PNone
  | PBool bool
  | PInt int
  | PIntSub int
  | PFloat pyfloat
  | PStr pystr
  | PBytes bytes
  | PByteArray bytes
  | PList "pyval list"
  | PDict "(pyval \<times> pyval) list"
  | PObj "(string \<times> pyval) list"
  | POther

text \<open>Float arithmetic as the code uses it, without rounding: \<open>NaN\<close> compares false.\<close>

fun py_float :: "pyval \<Rightarrow> pyfloat option" where
  "py_float (PInt n) = Some (Finite (of_int n))"
| "py_float (PIntSub n) = Some (Finite (of_int n))"
| "py_float (PFloat x) = Some x"
| "py_float _ = None"

fun py_le :: "pyfloat \<Rightarrow> pyfloat \<Rightarrow> bool" where
  "py_le NaN y = False"
| "py_le x NaN = False"
| "py_le (Finite x) (Finite y) = (x \<le> y)"
| "py_le NegInf y = True"
| "py_le x PosInf = True"
| "py_le x y = False"

fun py_less :: "pyfloat \<Rightarrow> pyfloat \<Rightarrow> bool" where
  "py_less (Finite x) (Finite y) = (x < y)"
| "py_less NegInf (Finite y) = True"
| "py_less NegInf PosInf = True"
| "py_less (Finite x) PosInf = True"
| "py_less x y = False"

text \<open>\<open>now + timeout\<close> and \<open>deadline - now\<close> for a finite clock reading.\<close>

fun py_plus :: "rat \<Rightarrow> pyfloat \<Rightarrow> pyfloat" where
  "py_plus a (Finite x) = Finite (a + x)"
| "py_plus a x = x"

fun py_minus :: "pyfloat \<Rightarrow> rat \<Rightarrow> pyfloat" where
  "py_minus (Finite x) a = Finite (x - a)"
| "py_minus x a = x"

text \<open>\<open>x * c\<close> for a positive constant \<open>c\<close>.\<close>

fun py_scale :: "rat \<Rightarrow> pyfloat \<Rightarrow> pyfloat" where
  "py_scale c (Finite x) = Finite (x * c)"
| "py_scale c x = x"

text \<open>\<open>min(a, b)\<close> keeps \<open>a\<close> unless \<open>b < a\<close>.\<close>

definition py_min :: "pyfloat \<Rightarrow> pyfloat \<Rightarrow> pyfloat" where
  "py_min a b = (if py_less b a then b else a)"

definition py_zero :: pyfloat where
  "py_zero = Finite 0"

text \<open>
  \<open>float(n)\<close>: an integer that rounds to no finite double raises \<open>OverflowError\<close>. Rounding itself is
  left out.
\<close>

definition double_limit :: rat where
  "double_limit = of_int (2 ^ 1024 - 2 ^ 970)"

fun to_double :: "pyfloat \<Rightarrow> exn + pyfloat" where
  "to_double (Finite x) = (if \<bar>x\<bar> < double_limit then Inr (Finite x) else Inl OverflowError)"
| "to_double x = Inr x"

lemma to_double_Inr [result_simps]: "to_double x = Inr y \<longleftrightarrow> y = x \<and> (\<forall>r. x = Finite r \<longrightarrow> \<bar>r\<bar> < double_limit)"
  by (cases x) (auto simp: to_double.simps)

lemma to_double_Inl [result_simps]: "to_double x = Inl e \<longleftrightarrow> e = OverflowError \<and> (\<exists>r. x = Finite r \<and> double_limit \<le> \<bar>r\<bar>)"
  by (cases x) (auto simp: to_double.simps)

lemma below_double_limit: "\<bar>r\<bar> \<le> 1000000 \<Longrightarrow> \<bar>r\<bar> < double_limit"
  by (simp add: double_limit_def)

declare to_double.simps(1) [simp del]

lemma to_double_small [simp]: "\<bar>r\<bar> \<le> 1000000 \<Longrightarrow> to_double (Finite r) = Inr (Finite r)"
  by (simp add: to_double.simps below_double_limit)

text \<open>\<open>getattr(value, name)\<close>: \<open>None\<close> is an \<open>AttributeError\<close>.\<close>

fun py_getattr :: "pyval \<Rightarrow> string \<Rightarrow> pyval option" where
  "py_getattr (PObj attrs) a = map_of attrs a"
| "py_getattr _ a = None"

text \<open>\<open>d.get(key)\<close> for a string key.\<close>

definition py_get :: "(pyval \<times> pyval) list \<Rightarrow> string \<Rightarrow> pyval option" where
  "py_get d k = map_of d (PStr (ascii k))"

text \<open>
  An argument passed where an iterable is expected: \<open>iter()\<close> fails on it, or it yields the
  listed items in order and then stops, raising the given exception if the caller's
  generator fails.
\<close>

datatype py_iterable = NotIterable | Yields "pyval list" "exn option"

text \<open>\<open>int.bit_length()\<close> of a non-negative integer.\<close>

fun bit_length :: "nat \<Rightarrow> nat" where
  "bit_length n = (if n = 0 then 0 else Suc (bit_length (n div 2)))"

declare bit_length.simps [simp del]

lemma bit_length_0 [simp]: "bit_length 0 = 0"
  by (simp add: bit_length.simps)

lemma bit_length_pos: "0 < n \<Longrightarrow> bit_length n = Suc (bit_length (n div 2))"
  by (simp add: bit_length.simps)

lemma bit_length_bounds: "0 < n \<Longrightarrow> 2 ^ (bit_length n - 1) \<le> n \<and> n < 2 ^ bit_length n"
proof (induction n rule: bit_length.induct)
  case (1 n)
  show ?case
  proof (cases "n = 1")
    case True
    then show ?thesis by (simp add: bit_length_pos)
  next
    case False
    with 1 have "2 ^ (bit_length (n div 2) - 1) \<le> n div 2" "n div 2 < 2 ^ bit_length (n div 2)"
      by simp_all
    moreover from False 1 have "0 < bit_length (n div 2)"
      by (simp add: bit_length_pos)
    ultimately show ?thesis
      using 1 by (cases "bit_length (n div 2)") (auto simp: bit_length_pos [of n])
  qed
qed

end
