(* ===== verification/Model.thy ===== *)
theory Model
  imports Py_Values
begin

text \<open>
  \<open>serialization/model.py\<close>: the declared type codes, the range limits of the wire fields, and
  the immutable output values (\<open>VersionIndex\<close>, \<open>Mutation\<close>, \<open>MutationBatch\<close>, \<open>VersionEnd\<close>,
  \<open>Record\<close>). The input protocol \<open>NativeMutation\<close> is any value with the attributes \<open>type\<close>,
  \<open>param1\<close> and \<open>param2\<close>, see \<open>py_getattr\<close>.
\<close>

section \<open>Type codes\<close>

datatype mutation_type =
    SET_VALUE | CLEAR_RANGE | ADD | AND_OP | OR_OP | XOR_OP | APPEND_IF_FITS | MAX_OP | MIN_OP
  | SET_VERSIONSTAMPED_KEY | SET_VERSIONSTAMPED_VALUE | BYTE_MIN | BYTE_MAX | MIN_V2 | AND_V2
  | COMPARE_AND_CLEAR

fun type_code_of :: "mutation_type \<Rightarrow> int" where
  "type_code_of SET_VALUE = 0"
| "type_code_of CLEAR_RANGE = 1"
| "type_code_of ADD = 2"
| "type_code_of AND_OP = 6"
| "type_code_of OR_OP = 7"
| "type_code_of XOR_OP = 8"
| "type_code_of APPEND_IF_FITS = 9"
| "type_code_of MAX_OP = 12"
| "type_code_of MIN_OP = 13"
| "type_code_of SET_VERSIONSTAMPED_KEY = 14"
| "type_code_of SET_VERSIONSTAMPED_VALUE = 15"
| "type_code_of BYTE_MIN = 16"
| "type_code_of BYTE_MAX = 17"
| "type_code_of MIN_V2 = 18"
| "type_code_of AND_V2 = 19"
| "type_code_of COMPARE_AND_CLEAR = 20"

section \<open>Range limits\<close>

definition max_type_code :: int where
  "max_type_code = 255"

definition max_version :: int where
  "max_version = 2 ^ 63 - 1"

definition max_sequence_no :: int where
  "max_sequence_no = 2 ^ 32 - 1"

definition max_total_mutations :: int where
  "max_total_mutations = 2 ^ 32 - 1"

definition max_bridge_timestamp_ns :: int where
  "max_bridge_timestamp_ns = 253402300799999999999"

lemmas limit_defs = max_type_code_def max_version_def max_sequence_no_def
  max_total_mutations_def max_bridge_timestamp_ns_def

section \<open>Output values\<close>

text \<open>A named tuple: comparison is lexicographic, which is stream order.\<close>

datatype version_index = VersionIndex (vi_fdb_version: int) (vi_sequence_no: int)

instantiation version_index :: linorder
begin

definition less_eq_version_index :: "version_index \<Rightarrow> version_index \<Rightarrow> bool" where
  "less_eq_version_index a b \<longleftrightarrow>
     vi_fdb_version a < vi_fdb_version b \<or>
     vi_fdb_version a = vi_fdb_version b \<and> vi_sequence_no a \<le> vi_sequence_no b"

definition less_version_index :: "version_index \<Rightarrow> version_index \<Rightarrow> bool" where
  "less_version_index a b \<longleftrightarrow>
     vi_fdb_version a < vi_fdb_version b \<or>
     vi_fdb_version a = vi_fdb_version b \<and> vi_sequence_no a < vi_sequence_no b"

instance
  by intro_classes
    (auto simp: less_eq_version_index_def less_version_index_def version_index.expand)

end

record mutation =
  mu_type :: int
  mu_param1 :: bytes
  mu_param2 :: bytes
  mu_version_index :: version_index

record version_end =
  ve_fdb_version :: int
  ve_total_mutations :: int
  ve_bridge_timestamp_ns :: "int option"

datatype record_body =
    BodyMutation mutation
  | BodyBatch "mutation list"
  | BodyVersionEnd version_end

record out_record =
  rec_stream_name :: pystr
  rec_bridge_timestamp_ns :: "int option"
  rec_body :: record_body

text \<open>
  A returned mutation satisfies the input protocol: \<open>as_native\<close> is the object a caller hands
  back to the serializer.
\<close>

definition as_native :: "mutation \<Rightarrow> pyval" where
  "as_native m = PObj [(''type'', PInt (mu_type m)), (''param1'', PBytes (mu_param1 m)),
     (''param2'', PBytes (mu_param2 m))]"

end
