(* ===== verification/Proto.thy ===== *)
theory Proto
  imports Model
begin

text \<open>
  The Protobuf messages of \<open>mutations.proto\<close> as values, and the Protobuf runtime as a
  parameter. A \<open>protobuf\<close> record holds the three runtime calls the code makes
  (\<open>SerializeToString\<close>, \<open>ParseFromString\<close>, \<open>ByteSize\<close>); the locale \<open>protobuf_runtime\<close> states
  the documented behaviour the code relies on. Theory \<open>Proto3\<close> interprets it with an encoder
  and a decoder that follow the published wire format.
\<close>

section \<open>Messages\<close>

record pb_timestamp =
  ts_seconds :: int
  ts_nanos :: int

record pb_version_index =
  pvi_fdb_version :: int
  pvi_sequence_no :: int

record pb_single_key_mutation =
  sk_key :: bytes
  sk_value :: bytes
  sk_mutation_type :: int

record pb_clear_range =
  cr_begin_key :: bytes
  cr_end_key :: bytes

datatype pb_mutation_arm =
    SingleKeyArm pb_single_key_mutation
  | ClearRangeArm pb_clear_range

record pb_mutation =
  pm_version_index :: "pb_version_index option"
  pm_mutation :: "pb_mutation_arm option"

record pb_version_end =
  pve_fdb_version :: int
  pve_total_mutations :: int
  pve_bridge_timestamp :: "pb_timestamp option"

datatype pb_record_arm =
    MutationArm pb_mutation
  | VersionEndArm pb_version_end
  | BatchArm "pb_mutation list"

record pb_record =
  pr_stream_name :: pystr
  pr_bridge_timestamp :: "pb_timestamp option"
  pr_record :: "pb_record_arm option"

section \<open>Field ranges\<close>

text \<open>
  What a message object can hold: assigning outside a field's range, or a string that does
  not encode as UTF-8, raises inside the runtime.
\<close>

named_theorems wf_defs \<open>field ranges of the messages\<close>

definition wf_timestamp :: "pb_timestamp \<Rightarrow> bool" where
  [wf_defs]: "wf_timestamp t \<longleftrightarrow> - (2 ^ 63) \<le> ts_seconds t \<and> ts_seconds t < 2 ^ 63 \<and>
     - (2 ^ 31) \<le> ts_nanos t \<and> ts_nanos t < 2 ^ 31"

definition wf_version_index :: "pb_version_index \<Rightarrow> bool" where
  [wf_defs]: "wf_version_index v \<longleftrightarrow> 0 \<le> pvi_fdb_version v \<and> pvi_fdb_version v < 2 ^ 64 \<and>
     0 \<le> pvi_sequence_no v \<and> pvi_sequence_no v < 2 ^ 32"

fun wf_mutation_arm :: "pb_mutation_arm \<Rightarrow> bool" where
  "wf_mutation_arm (SingleKeyArm s) \<longleftrightarrow>
     - (2 ^ 31) \<le> sk_mutation_type s \<and> sk_mutation_type s < 2 ^ 31"
| "wf_mutation_arm (ClearRangeArm c) \<longleftrightarrow> True"

definition wf_mutation :: "pb_mutation \<Rightarrow> bool" where
  [wf_defs]: "wf_mutation m \<longleftrightarrow> pred_option wf_version_index (pm_version_index m) \<and>
     pred_option wf_mutation_arm (pm_mutation m)"

definition wf_version_end :: "pb_version_end \<Rightarrow> bool" where
  [wf_defs]: "wf_version_end e \<longleftrightarrow> 0 \<le> pve_fdb_version e \<and> pve_fdb_version e < 2 ^ 64 \<and>
     0 \<le> pve_total_mutations e \<and> pve_total_mutations e < 2 ^ 32 \<and>
     pred_option wf_timestamp (pve_bridge_timestamp e)"

fun wf_record_arm :: "pb_record_arm \<Rightarrow> bool" where
  "wf_record_arm (MutationArm m) \<longleftrightarrow> wf_mutation m"
| "wf_record_arm (VersionEndArm e) \<longleftrightarrow> wf_version_end e"
| "wf_record_arm (BatchArm ms) \<longleftrightarrow> list_all wf_mutation ms"

definition wf_record :: "pb_record \<Rightarrow> bool" where
  [wf_defs]: "wf_record r \<longleftrightarrow> utf8_encode (pr_stream_name r) \<noteq> None \<and>
     pred_option wf_timestamp (pr_bridge_timestamp r) \<and> pred_option wf_record_arm (pr_record r)"

section \<open>The runtime\<close>

text \<open>\<open>ParseFromString\<close> is \<open>None\<close> where the runtime raises \<open>DecodeError\<close> or \<open>ValueError\<close>.\<close>

record protobuf =
  SerializeToString :: "pb_record \<Rightarrow> bytes"
  ParseFromString :: "bytes \<Rightarrow> pb_record option"
  ByteSize :: "pb_mutation \<Rightarrow> nat"

text \<open>
  Base-128 varints, least significant group first, as the encoding guide defines them, and
  the length of a length-delimited field: tag, length prefix, payload.
\<close>

fun varint :: "nat \<Rightarrow> bytes" where
  "varint n = (if n < 128 then [of_nat n] else of_nat (128 + n mod 128) # varint (n div 128))"

declare varint.simps [simp del]

definition field_length :: "nat \<Rightarrow> nat \<Rightarrow> nat" where
  "field_length number payload =
     length (varint (8 * number + 2)) + length (varint payload) + payload"

text \<open>
  The documented behaviour: parsing inverts serialization below the 2 GiB message limit, a
  parsed message holds values in range, and the size of a record with a batch is that of the
  record without a body plus one length-delimited field 5 whose payload is a sequence of
  length-delimited fields 1, one per mutation.
\<close>

locale protobuf_runtime =
  fixes pb :: protobuf
  assumes parse_serialize:
      "wf_record r \<Longrightarrow> length (SerializeToString pb r) < 2 ^ 31 \<Longrightarrow>
         ParseFromString pb (SerializeToString pb r) = Some r"
    and parse_wf: "ParseFromString pb data = Some r \<Longrightarrow> wf_record r"
    and batch_length:
      "wf_record (r\<lparr>pr_record := Some (BatchArm ms)\<rparr>) \<Longrightarrow>
         length (SerializeToString pb (r\<lparr>pr_record := Some (BatchArm ms)\<rparr>)) =
           length (SerializeToString pb (r\<lparr>pr_record := None\<rparr>)) +
           field_length 5 (\<Sum>m\<leftarrow>ms. field_length 1 (ByteSize pb m))"

end
