(* ===== verification/Wire.thy ===== *)
theory Wire
  imports Proto
begin

text \<open>
  \<open>serialization/_wire.py\<close>: Protobuf messages built from checked inputs. \<open>record_message\<close> is the
  message \<open>record\<close> constructs and \<open>wire_record\<close> its bytes. The lemmas show that checked inputs
  give messages whose fields are in range, so that the runtime never rejects an assignment,
  and that the timestamp conversion loses nothing.
\<close>

definition timestamp :: "int \<Rightarrow> pb_timestamp" where
  "timestamp bridge_timestamp_ns =
     \<lparr>ts_seconds = bridge_timestamp_ns div 10 ^ 9, ts_nanos = bridge_timestamp_ns mod 10 ^ 9\<rparr>"

definition record_message :: "pystr \<Rightarrow> int \<Rightarrow> pb_record_arm option \<Rightarrow> pb_record" where
  "record_message stream_name bridge_timestamp_ns body =
     \<lparr>pr_stream_name = stream_name, pr_bridge_timestamp = Some (timestamp bridge_timestamp_ns),
      pr_record = body\<rparr>"

definition wire_record ::
  "protobuf \<Rightarrow> pystr \<Rightarrow> int \<Rightarrow> pb_record_arm option \<Rightarrow> bytes" where
  "wire_record pb stream_name bridge_timestamp_ns body =
     SerializeToString pb (record_message stream_name bridge_timestamp_ns body)"

definition mutation_message :: "int \<Rightarrow> bytes \<Rightarrow> bytes \<Rightarrow> int \<Rightarrow> int \<Rightarrow> pb_mutation" where
  "mutation_message type_code param1 param2 fdb_version sequence_no =
     (let version_index =
        \<lparr>pvi_fdb_version = fdb_version, pvi_sequence_no = sequence_no\<rparr>
      in if type_code = type_code_of CLEAR_RANGE then
           \<lparr>pm_version_index = Some version_index,
            pm_mutation = Some (ClearRangeArm \<lparr>cr_begin_key = param1, cr_end_key = param2\<rparr>)\<rparr>
         else
           \<lparr>pm_version_index = Some version_index,
            pm_mutation = Some (SingleKeyArm
              \<lparr>sk_key = param1, sk_value = param2, sk_mutation_type = type_code\<rparr>)\<rparr>)"

fun mutation_messages ::
  "int \<Rightarrow> int \<Rightarrow> (int \<times> bytes \<times> bytes) list \<Rightarrow> pb_mutation list" where
  "mutation_messages fdb_version first_sequence_no [] = []"
| "mutation_messages fdb_version first_sequence_no ((c, p1, p2) # natives) =
     mutation_message c p1 p2 fdb_version first_sequence_no
       # mutation_messages fdb_version (first_sequence_no + 1) natives"

section \<open>Shape\<close>

lemma length_mutation_messages [simp]: "length (mutation_messages v s ns) = length ns"
  by (induction v s ns rule: mutation_messages.induct) auto

lemma nth_mutation_messages:
  "i < length ns \<Longrightarrow> mutation_messages v s ns ! i =
     (case ns ! i of (c, p1, p2) \<Rightarrow> mutation_message c p1 p2 v (s + int i))"
  by (induction v s ns arbitrary: i rule: mutation_messages.induct)
    (auto simp: nth_Cons algebra_simps split: nat.split)

lemma mutation_messages_append:
  "mutation_messages v s (xs @ ys) =
     mutation_messages v s xs @ mutation_messages v (s + int (length xs)) ys"
  by (induction v s xs rule: mutation_messages.induct) (auto simp: algebra_simps)

lemma mutation_messages_take:
  "take n (mutation_messages v s ns) = mutation_messages v s (take n ns)"
  by (induction v s ns arbitrary: n rule: mutation_messages.induct) (auto simp: take_Cons split: nat.split)

lemma mutation_messages_drop:
  "n \<le> length ns \<Longrightarrow>
     drop n (mutation_messages v s ns) = mutation_messages v (s + int n) (drop n ns)"
  by (induction v s ns arbitrary: n rule: mutation_messages.induct)
    (auto simp: drop_Cons algebra_simps split: nat.split)

lemma mutation_messages_eq_Nil [simp]: "mutation_messages v s ns = [] \<longleftrightarrow> ns = []"
  by (cases ns) auto

section \<open>Checked inputs give messages in range\<close>

lemma timestamp_inverse: "ts_seconds (timestamp n) * 10 ^ 9 + ts_nanos (timestamp n) = n"
  by (simp add: timestamp_def)

lemma wf_timestamp_timestamp:
  assumes "0 \<le> n" "n \<le> max_bridge_timestamp_ns"
  shows "wf_timestamp (timestamp n)"
proof -
  have "0 \<le> n div 10 ^ 9" "n div 10 ^ 9 \<le> max_bridge_timestamp_ns div 10 ^ 9"
    using assms by (auto intro: zdiv_mono1)
  moreover have "0 \<le> n mod 10 ^ 9" "n mod 10 ^ 9 < 10 ^ 9"
    by simp_all
  ultimately show ?thesis
    by (auto simp: wf_timestamp_def timestamp_def limit_defs)
qed

lemma wf_mutation_message:
  assumes "0 \<le> c" "c \<le> max_type_code" "0 \<le> v" "v \<le> max_version"
    "0 \<le> s" "s \<le> max_sequence_no"
  shows "wf_mutation (mutation_message c p1 p2 v s)"
  using assms by (auto simp: mutation_message_def wf_defs limit_defs Let_def)

lemma wf_mutation_messages:
  assumes "\<forall>(c, p1, p2) \<in> set ns. 0 \<le> c \<and> c \<le> max_type_code" "0 \<le> v" "v \<le> max_version"
    "0 \<le> s" "ns \<noteq> [] \<Longrightarrow> s + int (length ns) \<le> max_sequence_no + 1"
  shows "list_all wf_mutation (mutation_messages v s ns)"
  using assms
  by (induction v s ns rule: mutation_messages.induct) (auto intro!: wf_mutation_message)

lemma wf_record_message:
  assumes "utf8_encode n \<noteq> None" "0 \<le> t" "t \<le> max_bridge_timestamp_ns"
    "pred_option wf_record_arm body"
  shows "wf_record (record_message n t body)"
  using assms by (simp add: wf_record_def record_message_def wf_timestamp_timestamp)

lemma record_message_update:
  "record_message n t body = (record_message n t None)\<lparr>pr_record := body\<rparr>"
  by (simp add: record_message_def)

end
