(* ===== verification/Checks.thy ===== *)
theory Checks
  imports Model
begin

text \<open>
  \<open>serialization/_checks.py\<close>: the input checks of the serialize functions. \<open>chk_f\<close> models the
  function \<open>f\<close> of that file. A Python check returns nothing and its caller goes on with the
  value it passed in; here a check returns that value at its checked type. The lemmas give
  the exact domain of every check and the error each rejected value gets.
\<close>

section \<open>Integers\<close>

fun chk_integer :: "string \<Rightarrow> int option \<Rightarrow> int \<Rightarrow> nat option \<Rightarrow> pyval \<Rightarrow> exn + int" where
  "chk_integer field maximum minimum index (PInt value) =
     (if value < minimum \<or> (case maximum of None \<Rightarrow> False | Some m \<Rightarrow> m < value)
      then Inl (InputValueError field index) else Inr value)"
| "chk_integer field maximum minimum index value = Inl (InputTypeError field index)"

definition chk_fdb_version :: "pyval \<Rightarrow> exn + int" where
  "chk_fdb_version value = chk_integer ''fdb_version'' (Some max_version) 0 None value"

definition chk_sequence_no :: "string \<Rightarrow> pyval \<Rightarrow> exn + int" where
  "chk_sequence_no field value = chk_integer field (Some max_sequence_no) 0 None value"

definition chk_assigned_sequence_no :: "nat \<Rightarrow> int \<Rightarrow> exn + int" where
  "chk_assigned_sequence_no index value =
     chk_integer ''sequence_no'' (Some max_sequence_no) 0 (Some index) (PInt value)"

definition chk_total_mutations :: "pyval \<Rightarrow> exn + int" where
  "chk_total_mutations value =
     chk_integer ''total_mutations'' (Some max_total_mutations) 0 None value"

definition chk_max_record_bytes :: "pyval \<Rightarrow> exn + int" where
  "chk_max_record_bytes value = chk_integer ''max_record_bytes'' None 1 None value"

definition chk_bridge_timestamp_ns :: "pyval \<Rightarrow> exn + int" where
  "chk_bridge_timestamp_ns value =
     chk_integer ''bridge_timestamp_ns'' (Some max_bridge_timestamp_ns) 0 None value"

section \<open>Envelope\<close>

fun chk_stream_name :: "pyval \<Rightarrow> exn + pystr" where
  "chk_stream_name (PStr value) =
     (if value = [] then Inl (InputValueError ''stream_name'' None)
      else case utf8_encode value of
        None \<Rightarrow> Inl (InputValueError ''stream_name'' None)
      | Some _ \<Rightarrow> Inr value)"
| "chk_stream_name value = Inl (InputTypeError ''stream_name'' None)"

definition chk_envelope :: "pyval \<Rightarrow> pyval \<Rightarrow> exn + pystr \<times> int" where
  "chk_envelope name timestamp_ns =
     bindE (chk_stream_name name) (\<lambda>n.
     bindE (chk_bridge_timestamp_ns timestamp_ns) (\<lambda>t. Inr (n, t)))"

section \<open>Native mutations\<close>

fun chk_mutations :: "py_iterable \<Rightarrow> exn + pyval list \<times> exn option" where
  "chk_mutations (Yields items stop) = Inr (items, stop)"
| "chk_mutations NotIterable = Inl (InputTypeError ''mutations'' None)"

fun chk_param :: "string \<Rightarrow> nat option \<Rightarrow> pyval \<Rightarrow> exn + bytes" where
  "chk_param field index (PBytes value) = Inr value"
| "chk_param field index value = Inl (InputTypeError field index)"

definition type_code_range :: "nat option \<Rightarrow> int \<Rightarrow> exn + int" where
  "type_code_range index code =
     (if \<not> (0 \<le> code \<and> code \<le> max_type_code) then Inl (InputValueError ''type'' index)
      else Inr code)"

fun chk_type_code :: "nat option \<Rightarrow> pyval \<Rightarrow> exn + int" where
  "chk_type_code index (PInt value) = type_code_range index value"
| "chk_type_code index (PIntSub value) = type_code_range index value"
| "chk_type_code index value = Inl (InputTypeError ''type'' index)"

definition native_attribute :: "pyval \<Rightarrow> string \<Rightarrow> nat option \<Rightarrow> exn + pyval" where
  "native_attribute mutation field index =
     (case py_getattr mutation field of
        None \<Rightarrow> Inl (InputTypeError field index)
      | Some v \<Rightarrow> Inr v)"

definition chk_native :: "nat option \<Rightarrow> pyval \<Rightarrow> exn + int \<times> bytes \<times> bytes" where
  "chk_native index mutation =
     bindE (native_attribute mutation ''type'' index) (\<lambda>t.
     bindE (chk_type_code index t) (\<lambda>code.
     bindE (native_attribute mutation ''param1'' index) (\<lambda>p1.
     bindE (chk_param ''param1'' index p1) (\<lambda>param1.
     bindE (native_attribute mutation ''param2'' index) (\<lambda>p2.
     bindE (chk_param ''param2'' index p2) (\<lambda>param2.
     Inr (code, param1, param2)))))))"

text \<open>The loop of \<open>natives\<close>: \<open>index\<close> counts the items already read from the iterator.\<close>

fun natives_loop ::
  "int \<Rightarrow> nat \<Rightarrow> exn option \<Rightarrow> pyval list \<Rightarrow> exn + (int \<times> bytes \<times> bytes) list" where
  "natives_loop first index stop [] =
     (case stop of None \<Rightarrow> Inr [] | Some e \<Rightarrow> Inl e)"
| "natives_loop first index stop (mutation # rest) =
     bindE (chk_assigned_sequence_no index (first + int index)) (\<lambda>_.
     bindE (chk_native (Some index) mutation) (\<lambda>native.
     bindE (natives_loop first (Suc index) stop rest) (\<lambda>checked.
     Inr (native # checked))))"

definition chk_natives :: "int \<Rightarrow> py_iterable \<Rightarrow> exn + (int \<times> bytes \<times> bytes) list" where
  "chk_natives first_sequence_no value =
     bindE (chk_mutations value) (\<lambda>(items, stop). natives_loop first_sequence_no 0 stop items)"

section \<open>The domain of every check\<close>

named_theorems check_iff \<open>when a check accepts, and what it returns\<close>

lemma chk_integer_Inr:
  "chk_integer f mx mn i v = Inr n \<longleftrightarrow>
     v = PInt n \<and> mn \<le> n \<and> (case mx of None \<Rightarrow> True | Some m \<Rightarrow> n \<le> m)"
  by (cases v) (auto split: option.splits)

lemma chk_fdb_version_Inr [check_iff]:
  "chk_fdb_version v = Inr n \<longleftrightarrow> v = PInt n \<and> 0 \<le> n \<and> n \<le> max_version"
  by (simp add: chk_fdb_version_def chk_integer_Inr)

lemma chk_sequence_no_Inr [check_iff]:
  "chk_sequence_no f v = Inr n \<longleftrightarrow> v = PInt n \<and> 0 \<le> n \<and> n \<le> max_sequence_no"
  by (simp add: chk_sequence_no_def chk_integer_Inr)

lemma chk_assigned_sequence_no_Inr [check_iff]:
  "chk_assigned_sequence_no i v = Inr n \<longleftrightarrow> v = n \<and> 0 \<le> n \<and> n \<le> max_sequence_no"
  by (simp add: chk_assigned_sequence_no_def chk_integer_Inr del: chk_integer.simps)

lemma chk_total_mutations_Inr [check_iff]:
  "chk_total_mutations v = Inr n \<longleftrightarrow> v = PInt n \<and> 0 \<le> n \<and> n \<le> max_total_mutations"
  by (simp add: chk_total_mutations_def chk_integer_Inr)

lemma chk_max_record_bytes_Inr [check_iff]:
  "chk_max_record_bytes v = Inr n \<longleftrightarrow> v = PInt n \<and> 1 \<le> n"
  by (simp add: chk_max_record_bytes_def chk_integer_Inr)

lemma chk_bridge_timestamp_ns_Inr [check_iff]:
  "chk_bridge_timestamp_ns v = Inr n \<longleftrightarrow> v = PInt n \<and> 0 \<le> n \<and> n \<le> max_bridge_timestamp_ns"
  by (simp add: chk_bridge_timestamp_ns_def chk_integer_Inr)

lemma chk_stream_name_Inr [check_iff]:
  "chk_stream_name v = Inr s \<longleftrightarrow> v = PStr s \<and> s \<noteq> [] \<and> utf8_encode s \<noteq> None"
  by (cases v) (auto split: option.splits)

lemma chk_envelope_Inr [check_iff]:
  "chk_envelope n t = Inr r \<longleftrightarrow>
     chk_stream_name n = Inr (fst r) \<and> chk_bridge_timestamp_ns t = Inr (snd r)"
  by (cases r) (auto simp: chk_envelope_def result_simps)

lemma chk_param_Inr [check_iff]: "chk_param f i v = Inr b \<longleftrightarrow> v = PBytes b"
  by (cases v) auto

lemma chk_type_code_Inr [check_iff]:
  "chk_type_code i v = Inr c \<longleftrightarrow> (v = PInt c \<or> v = PIntSub c) \<and> 0 \<le> c \<and> c \<le> max_type_code"
  by (cases v) (auto simp: type_code_range_def)

text \<open>\<open>native_of m t\<close>: the value \<open>m\<close> is a native mutation with checked attributes \<open>t\<close>.\<close>

definition native_of :: "pyval \<Rightarrow> int \<times> bytes \<times> bytes \<Rightarrow> bool" where
  "native_of m t \<longleftrightarrow> (case t of (c, p1, p2) \<Rightarrow>
     (py_getattr m ''type'' = Some (PInt c) \<or> py_getattr m ''type'' = Some (PIntSub c)) \<and>
     0 \<le> c \<and> c \<le> max_type_code \<and>
     py_getattr m ''param1'' = Some (PBytes p1) \<and> py_getattr m ''param2'' = Some (PBytes p2))"

lemma chk_native_Inr [check_iff]: "chk_native i m = Inr t \<longleftrightarrow> native_of m t"
  by (cases t) (auto simp: chk_native_def native_attribute_def native_of_def result_simps
      check_iff split: option.splits)

lemma natives_loop_Inr:
  "natives_loop first index stop items = Inr ns \<longleftrightarrow>
     stop = None \<and> list_all2 native_of items ns \<and>
     (items \<noteq> [] \<longrightarrow> 0 \<le> first + int index \<and>
        first + int index + int (length items) \<le> max_sequence_no + 1)"
proof (induction items arbitrary: index ns)
  case Nil
  then show ?case by (auto split: option.splits)
next
  case (Cons m items)
  show ?case
    by (cases "items = []")
      (auto simp: result_simps check_iff Cons.IH list_all2_Cons1 limit_defs split: option.splits)
qed

lemma chk_natives_Inr [check_iff]:
  "chk_natives first value = Inr ns \<longleftrightarrow>
     (\<exists>items. value = Yields items None \<and> list_all2 native_of items ns \<and>
        (items \<noteq> [] \<longrightarrow> 0 \<le> first \<and> first + int (length items) \<le> max_sequence_no + 1))"
  by (cases "value") (auto simp: chk_natives_def result_simps natives_loop_Inr)

lemma native_of_code: "native_of m (c, p1, p2) \<Longrightarrow> 0 \<le> c \<and> c \<le> max_type_code"
  by (simp add: native_of_def)

lemma native_of_unique: "native_of m t \<Longrightarrow> native_of m u \<Longrightarrow> t = u"
  by (auto simp: native_of_def split: prod.splits)

section \<open>Only input errors\<close>

text \<open>A check raises \<open>InputTypeError\<close> or \<open>InputValueError\<close>, or passes on the caller's failure.\<close>

fun is_input_error :: "exn \<Rightarrow> bool" where
  "is_input_error (InputTypeError f i) = True"
| "is_input_error (InputValueError f i) = True"
| "is_input_error _ = False"

named_theorems check_errors \<open>the exceptions a check can raise\<close>

lemma chk_integer_Inl [check_errors]: "chk_integer f mx mn i v = Inl e \<Longrightarrow> is_input_error e"
  by (cases v) (auto split: if_splits)

lemma chk_simple_Inl [check_errors]:
  "chk_fdb_version v = Inl e \<Longrightarrow> is_input_error e"
  "chk_sequence_no f v = Inl e \<Longrightarrow> is_input_error e"
  "chk_assigned_sequence_no k n = Inl e \<Longrightarrow> is_input_error e"
  "chk_total_mutations v = Inl e \<Longrightarrow> is_input_error e"
  "chk_max_record_bytes v = Inl e \<Longrightarrow> is_input_error e"
  "chk_bridge_timestamp_ns v = Inl e \<Longrightarrow> is_input_error e"
  by (auto simp: chk_fdb_version_def chk_sequence_no_def chk_assigned_sequence_no_def
      chk_total_mutations_def chk_max_record_bytes_def chk_bridge_timestamp_ns_def
      simp del: chk_integer.simps dest: chk_integer_Inl)

lemma chk_stream_name_Inl [check_errors]: "chk_stream_name v = Inl e \<Longrightarrow> is_input_error e"
  by (cases v) (auto split: if_splits option.splits)

lemma chk_envelope_Inl [check_errors]: "chk_envelope n t = Inl e \<Longrightarrow> is_input_error e"
  by (auto simp: chk_envelope_def result_simps dest: check_errors)

lemma chk_param_Inl [check_errors]: "chk_param f i v = Inl e \<Longrightarrow> is_input_error e"
  by (cases v) auto

lemma chk_type_code_Inl [check_errors]: "chk_type_code i v = Inl e \<Longrightarrow> is_input_error e"
  by (cases v) (auto simp: type_code_range_def split: if_splits)

lemma native_attribute_Inl [check_errors]: "native_attribute m f i = Inl e \<Longrightarrow> is_input_error e"
  by (auto simp: native_attribute_def split: option.splits)

lemma chk_native_Inl [check_errors]: "chk_native i m = Inl e \<Longrightarrow> is_input_error e"
  by (auto simp: chk_native_def result_simps dest: check_errors)

lemma natives_loop_Inl:
  "natives_loop first index stop items = Inl e \<Longrightarrow> is_input_error e \<or> stop = Some e"
  by (induction items arbitrary: index)
    (auto simp: result_simps dest: check_errors split: option.splits)

lemma chk_natives_Inl:
  "chk_natives first value = Inl e \<Longrightarrow>
     is_input_error e \<or> (\<exists>items. value = Yields items (Some e))"
  by (cases "value") (auto simp: chk_natives_def result_simps dest: natives_loop_Inl)

end
