(* ===== verification/Serializer.thy ===== *)
theory Serializer
  imports Wire Checks
begin

text \<open>
  \<open>serialization/serializer.py\<close>: the three primitive serialize functions. Every keyword is a
  Python value, so the checks of \<open>Checks\<close> run in the source's order. The lemmas characterise
  success exactly: which arguments are accepted and which message is serialized.
\<close>

definition serialize_mutation ::
  "protobuf \<Rightarrow> pyval \<Rightarrow> pyval \<Rightarrow> pyval \<Rightarrow> pyval \<Rightarrow> pyval \<Rightarrow> exn + bytes" where
  "serialize_mutation pb mutation fdb_version sequence_no stream_name bridge_timestamp_ns =
     bindE (chk_fdb_version fdb_version) (\<lambda>version.
     bindE (chk_sequence_no ''sequence_no'' sequence_no) (\<lambda>seq.
     bindE (chk_envelope stream_name bridge_timestamp_ns) (\<lambda>(name, ts).
     bindE (chk_native None mutation) (\<lambda>(code, param1, param2).
     Inr (wire_record pb name ts
       (Some (MutationArm (mutation_message code param1 param2 version seq))))))))"

definition serialize_batch ::
  "protobuf \<Rightarrow> py_iterable \<Rightarrow> pyval \<Rightarrow> pyval \<Rightarrow> pyval \<Rightarrow> pyval \<Rightarrow> exn + bytes" where
  "serialize_batch pb mutations fdb_version first_sequence_no stream_name bridge_timestamp_ns =
     bindE (chk_fdb_version fdb_version) (\<lambda>version.
     bindE (chk_sequence_no ''first_sequence_no'' first_sequence_no) (\<lambda>first.
     bindE (chk_envelope stream_name bridge_timestamp_ns) (\<lambda>(name, ts).
     bindE (chk_natives first mutations) (\<lambda>natives.
     if natives = [] then Inl (InputValueError ''mutations'' None)
     else Inr (wire_record pb name ts
       (Some (BatchArm (mutation_messages version first natives))))))))"

definition version_end_message :: "pystr \<Rightarrow> int \<Rightarrow> int \<Rightarrow> int \<Rightarrow> pb_record" where
  "version_end_message name ts version count =
     \<lparr>pr_stream_name = name, pr_bridge_timestamp = Some (timestamp ts),
      pr_record = Some (VersionEndArm
        \<lparr>pve_fdb_version = version, pve_total_mutations = count,
         pve_bridge_timestamp = Some (timestamp ts)\<rparr>)\<rparr>"

definition serialize_version_end ::
  "protobuf \<Rightarrow> pyval \<Rightarrow> pyval \<Rightarrow> pyval \<Rightarrow> pyval \<Rightarrow> exn + bytes" where
  "serialize_version_end pb fdb_version total_mutations stream_name bridge_timestamp_ns =
     bindE (chk_fdb_version fdb_version) (\<lambda>version.
     bindE (chk_total_mutations total_mutations) (\<lambda>count.
     bindE (chk_envelope stream_name bridge_timestamp_ns) (\<lambda>(name, ts).
     Inr (SerializeToString pb (version_end_message name ts version count)))))"

section \<open>Success, exactly\<close>

text \<open>The envelope both checks accept.\<close>

definition valid_envelope :: "pystr \<Rightarrow> int \<Rightarrow> bool" where
  "valid_envelope name ts \<longleftrightarrow> name \<noteq> [] \<and> utf8_encode name \<noteq> None \<and>
     0 \<le> ts \<and> ts \<le> max_bridge_timestamp_ns"

definition valid_version :: "int \<Rightarrow> bool" where
  "valid_version v \<longleftrightarrow> 0 \<le> v \<and> v \<le> max_version"

lemma chk_envelope_valid:
  "chk_envelope n t = Inr (name, ts) \<longleftrightarrow> n = PStr name \<and> t = PInt ts \<and> valid_envelope name ts"
  by (auto simp: check_iff valid_envelope_def)

lemma serialize_mutation_Inr:
  "serialize_mutation pb m v s n t = Inr data \<longleftrightarrow>
     (\<exists>version seq name ts c p1 p2.
        v = PInt version \<and> s = PInt seq \<and> n = PStr name \<and> t = PInt ts \<and>
        valid_version version \<and> 0 \<le> seq \<and> seq \<le> max_sequence_no \<and> valid_envelope name ts \<and>
        native_of m (c, p1, p2) \<and>
        data = wire_record pb name ts (Some (MutationArm (mutation_message c p1 p2 version seq))))"
  by (auto simp: serialize_mutation_def result_simps chk_envelope_valid valid_version_def
      chk_fdb_version_Inr chk_sequence_no_Inr chk_native_Inr) blast+

lemma serialize_batch_Inr:
  "serialize_batch pb ms v s n t = Inr data \<longleftrightarrow>
     (\<exists>version first name ts items natives.
        v = PInt version \<and> s = PInt first \<and> n = PStr name \<and> t = PInt ts \<and>
        valid_version version \<and> 0 \<le> first \<and> valid_envelope name ts \<and>
        ms = Yields items None \<and> items \<noteq> [] \<and> list_all2 native_of items natives \<and>
        first + int (length items) \<le> max_sequence_no + 1 \<and>
        data = wire_record pb name ts (Some (BatchArm (mutation_messages version first natives))))"
  (is "?L \<longleftrightarrow> ?R")
proof
  assume ?L
  then show ?R
    by (auto simp: serialize_batch_def result_simps chk_envelope_valid valid_version_def
        chk_fdb_version_Inr chk_sequence_no_Inr chk_natives_Inr split: if_splits)
next
  assume ?R
  then obtain version first name ts items natives where
    args: "v = PInt version" "s = PInt first" "n = PStr name" "t = PInt ts" "ms = Yields items None"
    and ok: "valid_version version" "0 \<le> first" "valid_envelope name ts" "items \<noteq> []"
      "list_all2 native_of items natives" "first + int (length items) \<le> max_sequence_no + 1"
    and data: "data = wire_record pb name ts
      (Some (BatchArm (mutation_messages version first natives)))"
    by blast
  have "chk_fdb_version v = Inr version" "chk_envelope n t = Inr (name, ts)"
    using args ok by (simp_all add: chk_fdb_version_Inr chk_envelope_valid valid_version_def)
  moreover have "chk_sequence_no ''first_sequence_no'' s = Inr first"
    using args ok by (cases items) (auto simp: chk_sequence_no_Inr)
  moreover have "chk_natives first ms = Inr natives"
    using args ok by (simp add: chk_natives_Inr)
  moreover have "natives \<noteq> []"
    using ok by auto
  ultimately show ?L
    by (simp add: serialize_batch_def data)
qed

lemma serialize_batch_ok:
  assumes "valid_version version" "0 \<le> first" "valid_envelope name ts" "items \<noteq> []"
    "list_all2 native_of items natives" "first + int (length items) \<le> max_sequence_no + 1"
  shows "serialize_batch pb (Yields items None) (PInt version) (PInt first) (PStr name) (PInt ts) =
    Inr (wire_record pb name ts (Some (BatchArm (mutation_messages version first natives))))"
  unfolding serialize_batch_Inr using assms by blast

lemma serialize_version_end_Inr:
  "serialize_version_end pb v k' n t = Inr data \<longleftrightarrow>
     (\<exists>version k name ts.
        v = PInt version \<and> k' = PInt k \<and> n = PStr name \<and> t = PInt ts \<and>
        valid_version version \<and> 0 \<le> k \<and> k \<le> max_total_mutations \<and> valid_envelope name ts \<and>
        data = SerializeToString pb (version_end_message name ts version k))"
  by (auto simp: serialize_version_end_def result_simps chk_envelope_valid valid_version_def
      chk_fdb_version_Inr chk_total_mutations_Inr)

section \<open>The messages are in range\<close>

lemma natives_codes:
  "list_all2 native_of items ns \<Longrightarrow> \<forall>(c, p1, p2) \<in> set ns. 0 \<le> c \<and> c \<le> max_type_code"
  by (auto simp: list_all2_conv_all_nth in_set_conv_nth dest!: native_of_code split: prod.split)
    (metis native_of_code prod.collapse)+

lemma wf_mutation_record:
  assumes "valid_envelope name ts" "valid_version v" "0 \<le> s" "s \<le> max_sequence_no"
    "native_of m (c, p1, p2)"
  shows "wf_record (record_message name ts (Some (MutationArm (mutation_message c p1 p2 v s))))"
  using assms
  by (intro wf_record_message)
    (auto simp: valid_envelope_def valid_version_def dest: native_of_code intro: wf_mutation_message)

lemma wf_batch_record:
  assumes "valid_envelope name ts" "valid_version v" "0 \<le> s" "list_all2 native_of items ns"
    "s + int (length items) \<le> max_sequence_no + 1"
  shows "wf_record (record_message name ts (Some (BatchArm (mutation_messages v s ns))))"
  using assms
  by (intro wf_record_message)
    (auto simp: valid_envelope_def valid_version_def list_all2_lengthD
      intro!: wf_mutation_messages natives_codes)

lemma wf_version_end_record:
  assumes "valid_envelope name ts" "valid_version v" "0 \<le> k" "k \<le> max_total_mutations"
  shows "wf_record (version_end_message name ts v k)"
  using assms
  by (auto simp: version_end_message_def valid_envelope_def valid_version_def wf_defs limit_defs
      intro: wf_timestamp_timestamp [unfolded wf_timestamp_def limit_defs]
      dest: wf_timestamp_timestamp [unfolded wf_timestamp_def limit_defs])

end
