(* ===== verification/Deserializer.thy ===== *)
theory Deserializer
  imports Serializer
begin

text \<open>
  \<open>serialization/deserializer.py\<close>: record bytes to output values. Each \<open>des_f\<close> models the
  private function \<open>_f\<close> of that file. The lemmas give the exact set of accepted messages, the
  guarantees on every returned value, and, inside the \<open>protobuf_runtime\<close> interface, the round
  trips with the serializer.
\<close>

section \<open>The reader\<close>

definition des_check_version :: "int \<Rightarrow> nat option \<Rightarrow> exn + unit" where
  "des_check_version fdb_version index =
     ensure (\<not> fdb_version > max_version) (RecordDecodeError VERSION_OUT_OF_RANGE index)"

definition des_mutation :: "nat option \<Rightarrow> pb_mutation \<Rightarrow> exn + mutation" where
  "des_mutation index message =
     (case pm_version_index message of
        None \<Rightarrow> Inl (RecordDecodeError MISSING_VERSION_INDEX index)
      | Some v \<Rightarrow>
          let vi = VersionIndex (pvi_fdb_version v) (pvi_sequence_no v) in
          bindE (des_check_version (vi_fdb_version vi) index) (\<lambda>_.
          case pm_mutation message of
            None \<Rightarrow> Inl (RecordDecodeError NO_MUTATION_ARM index)
          | Some (ClearRangeArm clear) \<Rightarrow>
              Inr \<lparr>mu_type = type_code_of CLEAR_RANGE, mu_param1 = cr_begin_key clear,
                   mu_param2 = cr_end_key clear, mu_version_index = vi\<rparr>
          | Some (SingleKeyArm single) \<Rightarrow>
              let type_code = sk_mutation_type single in
              if \<not> (0 \<le> type_code \<and> type_code \<le> max_type_code)
              then Inl (RecordDecodeError TYPE_CODE_OUT_OF_RANGE index)
              else Inr \<lparr>mu_type = type_code, mu_param1 = sk_key single,
                   mu_param2 = sk_value single, mu_version_index = vi\<rparr>))"

fun des_mutations :: "nat \<Rightarrow> pb_mutation list \<Rightarrow> exn + mutation list" where
  "des_mutations i [] = Inr []"
| "des_mutations i (m # ms) =
     bindE (des_mutation (Some i) m) (\<lambda>u. bindE (des_mutations (Suc i) ms) (\<lambda>us. Inr (u # us)))"

fun des_contiguous :: "version_index \<Rightarrow> nat \<Rightarrow> mutation list \<Rightarrow> exn + unit" where
  "des_contiguous first i [] = Inr ()"
| "des_contiguous first i (u # us) =
     (if mu_version_index u \<noteq> VersionIndex (vi_fdb_version first) (vi_sequence_no first + int i)
      then Inl (RecordDecodeError INCONSISTENT_BATCH (Some i))
      else des_contiguous first (Suc i) us)"

definition des_batch :: "pb_mutation list \<Rightarrow> exn + mutation list" where
  "des_batch message =
     bindE (des_mutations 0 message) (\<lambda>mutations.
     case mutations of
       [] \<Rightarrow> Inl (RecordDecodeError EMPTY_BATCH None)
     | u # _ \<Rightarrow>
         bindE (des_contiguous (mu_version_index u) 0 mutations) (\<lambda>_. Inr mutations))"

definition des_timestamp_ns :: "pb_timestamp option \<Rightarrow> int option" where
  "des_timestamp_ns field =
     (case field of None \<Rightarrow> None | Some t \<Rightarrow> Some (ts_seconds t * 10 ^ 9 + ts_nanos t))"

definition des_body :: "pb_record \<Rightarrow> exn + record_body" where
  "des_body message =
     (case pr_record message of
        None \<Rightarrow> Inl (RecordDecodeError NO_RECORD_ARM None)
      | Some (BatchArm b) \<Rightarrow> bindE (des_batch b) (\<lambda>us. Inr (BodyBatch us))
      | Some (VersionEndArm e) \<Rightarrow>
          bindE (des_check_version (pve_fdb_version e) None) (\<lambda>_.
          Inr (BodyVersionEnd \<lparr>ve_fdb_version = pve_fdb_version e,
             ve_total_mutations = pve_total_mutations e,
             ve_bridge_timestamp_ns = des_timestamp_ns (pve_bridge_timestamp e)\<rparr>))
      | Some (MutationArm m) \<Rightarrow> bindE (des_mutation None m) (\<lambda>u. Inr (BodyMutation u)))"

fun deserialize_record :: "protobuf \<Rightarrow> pyval \<Rightarrow> exn + out_record" where
  "deserialize_record pb (PBytes data) =
     (case ParseFromString pb data of
        None \<Rightarrow> Inl (RecordDecodeError MALFORMED_WIRE None)
      | Some message \<Rightarrow>
          bindE (des_body message) (\<lambda>body.
          Inr \<lparr>rec_stream_name = pr_stream_name message,
               rec_bridge_timestamp_ns = des_timestamp_ns (pr_bridge_timestamp message),
               rec_body = body\<rparr>))"
| "deserialize_record pb data = Inl (InputTypeError ''data'' None)"

section \<open>Reading one mutation\<close>

text \<open>The wire form of an output value, and the messages the reader accepts.\<close>

fun reads_as :: "pb_mutation \<Rightarrow> mutation \<Rightarrow> bool" where
  "reads_as m u \<longleftrightarrow>
     (\<exists>v. pm_version_index m = Some v \<and> pvi_fdb_version v \<le> max_version \<and>
        mu_version_index u = VersionIndex (pvi_fdb_version v) (pvi_sequence_no v)) \<and>
     (case pm_mutation m of
        None \<Rightarrow> False
      | Some (ClearRangeArm c) \<Rightarrow>
          mu_type u = 1 \<and> mu_param1 u = cr_begin_key c \<and> mu_param2 u = cr_end_key c
      | Some (SingleKeyArm s) \<Rightarrow>
          mu_type u = sk_mutation_type s \<and> 0 \<le> mu_type u \<and> mu_type u \<le> max_type_code \<and>
          mu_param1 u = sk_key s \<and> mu_param2 u = sk_value s)"

declare reads_as.simps [simp del] deserialize_record.simps [simp del]

lemma des_mutation_Inr: "des_mutation index m = Inr u \<longleftrightarrow> reads_as m u"
  by (auto simp: des_mutation_def des_check_version_def result_simps Let_def reads_as.simps
      split: option.splits pb_mutation_arm.splits if_splits intro!: mutation.equality)

lemma des_mutations_Inr: "des_mutations i ms = Inr us \<longleftrightarrow> list_all2 reads_as ms us"
  by (induction ms arbitrary: i us)
    (auto simp: result_simps des_mutation_Inr list_all2_Cons1)

lemma reads_as_mutation_message:
  assumes "0 \<le> c" "c \<le> max_type_code" "v \<le> max_version"
  shows "reads_as (mutation_message c p1 p2 v s)
    \<lparr>mu_type = c, mu_param1 = p1, mu_param2 = p2, mu_version_index = VersionIndex v s\<rparr>"
  using assms by (auto simp: mutation_message_def Let_def reads_as.simps)

section \<open>Reading a batch\<close>

definition contiguous :: "version_index \<Rightarrow> mutation list \<Rightarrow> bool" where
  "contiguous first us \<longleftrightarrow> (\<forall>i < length us. mu_version_index (us ! i) =
     VersionIndex (vi_fdb_version first) (vi_sequence_no first + int i))"

lemma des_contiguous_from:
  "des_contiguous first k us = Inr () \<longleftrightarrow> (\<forall>i < length us. mu_version_index (us ! i) =
     VersionIndex (vi_fdb_version first) (vi_sequence_no first + int (k + i)))"
  by (induction first k us rule: des_contiguous.induct)
    (auto simp: nth_Cons All_less_Suc2)

lemma des_contiguous_Inr: "des_contiguous first 0 us = Inr () \<longleftrightarrow> contiguous first us"
  by (simp add: des_contiguous_from contiguous_def)

lemma des_contiguous_Inl:
  "des_contiguous first k us = Inl e \<Longrightarrow>
     \<exists>i < length us. e = RecordDecodeError INCONSISTENT_BATCH (Some (k + i)) \<and>
       (\<forall>j < i. mu_version_index (us ! j) =
          VersionIndex (vi_fdb_version first) (vi_sequence_no first + int (k + j))) \<and>
       mu_version_index (us ! i) \<noteq>
          VersionIndex (vi_fdb_version first) (vi_sequence_no first + int (k + i))"
proof (induction first k us rule: des_contiguous.induct)
  case (2 first k u us)
  show ?case
  proof (cases "mu_version_index u =
      VersionIndex (vi_fdb_version first) (vi_sequence_no first + int k)")
    case True
    with 2 obtain i where "i < length us"
      "e = RecordDecodeError INCONSISTENT_BATCH (Some (Suc k + i))"
      "\<forall>j < i. mu_version_index (us ! j) =
         VersionIndex (vi_fdb_version first) (vi_sequence_no first + int (Suc k + j))"
      "mu_version_index (us ! i) \<noteq>
         VersionIndex (vi_fdb_version first) (vi_sequence_no first + int (Suc k + i))"
      by auto
    with True show ?thesis
      by (intro exI [of _ "Suc i"]) (auto simp: nth_Cons algebra_simps split: nat.split)
  next
    case False
    with 2 show ?thesis
      by (intro exI [of _ 0]) auto
  qed
qed simp

lemma des_batch_eq:
  "des_batch ms = bindE (des_mutations 0 ms) (\<lambda>us.
     if us = [] then Inl (RecordDecodeError EMPTY_BATCH None)
     else bindE (des_contiguous (mu_version_index (hd us)) 0 us) (\<lambda>_. Inr us))"
  unfolding des_batch_def by (rule arg_cong [where f = "bindE _"]) (auto split: list.split)

lemma des_batch_Inr:
  "des_batch ms = Inr us \<longleftrightarrow>
     us \<noteq> [] \<and> list_all2 reads_as ms us \<and> contiguous (mu_version_index (hd us)) us"
  by (auto simp: des_batch_eq result_simps des_mutations_Inr des_contiguous_Inr 
      simp del: des_contiguous.simps split: if_splits)

section \<open>Only decode errors\<close>

fun is_decode_error :: "exn \<Rightarrow> bool" where
  "is_decode_error (RecordDecodeError r i) = True"
| "is_decode_error _ = False"

lemma des_mutation_Inl: "des_mutation i m = Inl e \<Longrightarrow> is_decode_error e"
  by (auto simp: des_mutation_def des_check_version_def result_simps Let_def
      split: option.splits pb_mutation_arm.splits if_splits)

lemma des_mutations_Inl: "des_mutations i ms = Inl e \<Longrightarrow> is_decode_error e"
  by (induction ms arbitrary: i) (auto simp: result_simps dest: des_mutation_Inl)

lemma des_batch_Inl: "des_batch ms = Inl e \<Longrightarrow> is_decode_error e"
  by (auto simp: des_batch_eq result_simps simp del: des_contiguous.simps split: if_splits
      dest: des_mutations_Inl des_contiguous_Inl)

lemma des_body_Inl: "des_body r = Inl e \<Longrightarrow> is_decode_error e"
  by (auto simp: des_body_def des_check_version_def result_simps
      split: option.splits pb_record_arm.splits dest: des_batch_Inl des_mutation_Inl)

section \<open>Guarantees on every returned value\<close>

definition good_mutation :: "mutation \<Rightarrow> bool" where
  "good_mutation u \<longleftrightarrow> 0 \<le> mu_type u \<and> mu_type u \<le> max_type_code \<and>
     valid_version (vi_fdb_version (mu_version_index u)) \<and>
     0 \<le> vi_sequence_no (mu_version_index u) \<and>
     vi_sequence_no (mu_version_index u) \<le> max_sequence_no"

fun good_body :: "record_body \<Rightarrow> bool" where
  "good_body (BodyMutation u) \<longleftrightarrow> good_mutation u"
| "good_body (BodyBatch us) \<longleftrightarrow>
     us \<noteq> [] \<and> list_all good_mutation us \<and> contiguous (mu_version_index (hd us)) us"
| "good_body (BodyVersionEnd e) \<longleftrightarrow>
     valid_version (ve_fdb_version e) \<and> 0 \<le> ve_total_mutations e \<and>
     ve_total_mutations e \<le> max_total_mutations"

lemma reads_as_good: "reads_as m u \<Longrightarrow> wf_mutation m \<Longrightarrow> good_mutation u"
  by (auto simp: good_mutation_def wf_defs valid_version_def limit_defs reads_as.simps
      split: option.splits pb_mutation_arm.splits)

lemma reads_all_good:
  "list_all2 reads_as ms us \<Longrightarrow> list_all wf_mutation ms \<Longrightarrow> list_all good_mutation us"
  by (induction rule: list_all2_induct) (auto intro: reads_as_good)

lemma des_batch_good:
  assumes "des_batch ms = Inr us" "list_all wf_mutation ms"
  shows "good_body (BodyBatch us)"
  using assms by (auto simp: des_batch_Inr dest: reads_all_good)

lemma des_body_good:
  assumes "des_body r = Inr b" "wf_record r"
  shows "good_body b"
  using assms
  by (auto simp: des_body_def des_check_version_def result_simps wf_record_def wf_version_end_def
      des_mutation_Inr valid_version_def max_total_mutations_def
      simp del: good_body.simps(2)
      split: option.splits pb_record_arm.splits dest: des_batch_good reads_as_good)

section \<open>The round trips, over the runtime's interface\<close>

context protobuf_runtime
begin

lemma deserialize_good:
  assumes "deserialize_record pb d = Inr r"
  shows "good_body (rec_body r)" and "utf8_encode (rec_stream_name r) \<noteq> None"
  using assms
  by (cases d; force simp: result_simps deserialize_record.simps wf_record_def split: option.splits
      dest: parse_wf intro: des_body_good)+

lemma deserialize_message:
  assumes "wf_record msg" "length (SerializeToString pb msg) < 2 ^ 31"
  shows "deserialize_record pb (PBytes (SerializeToString pb msg)) =
    bindE (des_body msg) (\<lambda>body. Inr \<lparr>rec_stream_name = pr_stream_name msg,
      rec_bridge_timestamp_ns = des_timestamp_ns (pr_bridge_timestamp msg), rec_body = body\<rparr>)"
  using assms by (simp add: parse_serialize deserialize_record.simps)

lemma des_timestamp [simp]: "des_timestamp_ns (Some (timestamp n)) = Some n"
  using timestamp_inverse [of n] by (simp add: des_timestamp_ns_def)

lemma mutation_roundtrip:
  assumes "serialize_mutation pb m (PInt v) (PInt s) (PStr n) (PInt t) = Inr data"
    and "native_of m (c, p1, p2)" and "length data < 2 ^ 31"
  shows "deserialize_record pb (PBytes data) = Inr
    \<lparr>rec_stream_name = n, rec_bridge_timestamp_ns = Some t, rec_body = BodyMutation
       \<lparr>mu_type = c, mu_param1 = p1, mu_param2 = p2, mu_version_index = VersionIndex v s\<rparr>\<rparr>"
proof -
  let ?arm = "Some (MutationArm (mutation_message c p1 p2 v s))"
  have ok: "valid_version v" "0 \<le> s" "s \<le> max_sequence_no" "valid_envelope n t"
    and data: "data = wire_record pb n t ?arm"
    using assms(1,2) by (auto simp: serialize_mutation_Inr dest: native_of_unique)
  have "wf_record (record_message n t ?arm)"
    using ok assms(2) by (intro wf_mutation_record)
  moreover have "des_mutation None (mutation_message c p1 p2 v s) = Inr
      \<lparr>mu_type = c, mu_param1 = p1, mu_param2 = p2, mu_version_index = VersionIndex v s\<rparr>"
    using ok native_of_code [OF assms(2)]
    by (simp add: des_mutation_Inr reads_as_mutation_message valid_version_def)
  ultimately show ?thesis
    using assms(3) data
    by (simp add: wire_record_def deserialize_message des_body_def record_message_def)
qed

end

text \<open>What the reader returns for the natives of a slice that starts at sequence number \<open>s\<close>.\<close>

fun tagged :: "int \<Rightarrow> int \<Rightarrow> (int \<times> bytes \<times> bytes) list \<Rightarrow> mutation list" where
  "tagged v s [] = []"
| "tagged v s ((c, p1, p2) # ns) =
     \<lparr>mu_type = c, mu_param1 = p1, mu_param2 = p2, mu_version_index = VersionIndex v s\<rparr>
       # tagged v (s + 1) ns"

lemma length_tagged [simp]: "length (tagged v s ns) = length ns"
  by (induction v s ns rule: tagged.induct) auto

lemma tagged_append: "tagged v s (xs @ ys) = tagged v s xs @ tagged v (s + int (length xs)) ys"
  by (induction v s xs rule: tagged.induct) (auto simp: algebra_simps)

lemma tagged_version_index:
  "i < length ns \<Longrightarrow> mu_version_index (tagged v s ns ! i) = VersionIndex v (s + int i)"
  by (induction v s ns arbitrary: i rule: tagged.induct) (auto simp: nth_Cons algebra_simps split: nat.split)

lemma contiguous_tagged: "contiguous (VersionIndex v s) (tagged v s ns)"
  by (simp add: contiguous_def tagged_version_index)

lemma hd_tagged: "ns \<noteq> [] \<Longrightarrow> mu_version_index (hd (tagged v s ns)) = VersionIndex v s"
  by (cases ns) auto

lemma reads_as_tagged:
  assumes "\<forall>(c, p1, p2) \<in> set ns. 0 \<le> c \<and> c \<le> max_type_code" "v \<le> max_version"
  shows "list_all2 reads_as (mutation_messages v s ns) (tagged v s ns)"
  using assms
  by (induction v s ns rule: tagged.induct)
    (auto intro: reads_as_mutation_message)

lemma des_batch_tagged:
  assumes "\<forall>(c, p1, p2) \<in> set ns. 0 \<le> c \<and> c \<le> max_type_code" "v \<le> max_version" "ns \<noteq> []"
  shows "des_batch (mutation_messages v s ns) = Inr (tagged v s ns)"
proof -
  have "tagged v s ns \<noteq> []"
    using assms(3) by (metis length_0_conv length_tagged)
  then show ?thesis
    using assms by (simp add: des_batch_Inr reads_as_tagged hd_tagged contiguous_tagged)
qed

lemma native_lists_unique:
  assumes "list_all2 native_of items xs" "list_all2 native_of items ys"
  shows "xs = ys"
proof (rule nth_equalityI)
  show "length xs = length ys"
    using assms by (simp add: list_all2_lengthD [symmetric])
  show "xs ! i = ys ! i" if "i < length xs" for i
    using assms that by (metis list_all2_lengthD list_all2_nthD2 native_of_unique)
qed

context protobuf_runtime
begin

lemma batch_bytes_roundtrip:
  assumes "valid_envelope n t" "valid_version v" "0 \<le> s" "list_all2 native_of items ns"
    and "s + int (length items) \<le> max_sequence_no + 1" "ns \<noteq> []"
    and "length (wire_record pb n t (Some (BatchArm (mutation_messages v s ns)))) < 2 ^ 31"
  shows "deserialize_record pb
      (PBytes (wire_record pb n t (Some (BatchArm (mutation_messages v s ns))))) = Inr
    \<lparr>rec_stream_name = n, rec_bridge_timestamp_ns = Some t, rec_body = BodyBatch (tagged v s ns)\<rparr>"
proof -
  have "wf_record (record_message n t (Some (BatchArm (mutation_messages v s ns))))"
    using assms by (intro wf_batch_record)
  moreover have "des_batch (mutation_messages v s ns) = Inr (tagged v s ns)"
    using assms by (intro des_batch_tagged natives_codes) (auto simp: valid_version_def)
  ultimately show ?thesis
    using assms(7)
    by (simp add: wire_record_def deserialize_message des_body_def record_message_def)
qed

lemma batch_roundtrip:
  assumes "serialize_batch pb (Yields items None) (PInt v) (PInt s) (PStr n) (PInt t) = Inr data"
    and "list_all2 native_of items ns" and "length data < 2 ^ 31"
  shows "deserialize_record pb (PBytes data) = Inr
    \<lparr>rec_stream_name = n, rec_bridge_timestamp_ns = Some t, rec_body = BodyBatch (tagged v s ns)\<rparr>"
proof -
  obtain ns' where ok: "valid_version v" "0 \<le> s" "valid_envelope n t" "items \<noteq> []"
      "list_all2 native_of items ns'" "s + int (length items) \<le> max_sequence_no + 1"
    and data: "data = wire_record pb n t (Some (BatchArm (mutation_messages v s ns')))"
    using assms(1) by (auto simp: serialize_batch_Inr)
  have "ns' = ns"
    using ok(5) assms(2)
    by (rule native_lists_unique)
  moreover have "ns' \<noteq> []"
    using ok by auto
  ultimately show ?thesis
    using ok data assms(3) by (auto intro!: batch_bytes_roundtrip)
qed

lemma version_end_roundtrip:
  assumes "serialize_version_end pb (PInt v) (PInt k) (PStr n) (PInt t) = Inr data"
    and "length data < 2 ^ 31"
  shows "deserialize_record pb (PBytes data) = Inr
    \<lparr>rec_stream_name = n, rec_bridge_timestamp_ns = Some t, rec_body = BodyVersionEnd
       \<lparr>ve_fdb_version = v, ve_total_mutations = k, ve_bridge_timestamp_ns = Some t\<rparr>\<rparr>"
proof -
  have ok: "valid_version v" "0 \<le> k" "k \<le> max_total_mutations" "valid_envelope n t"
    and data: "data = SerializeToString pb (version_end_message n t v k)"
    using assms(1) by (auto simp: serialize_version_end_Inr)
  have "wf_record (version_end_message n t v k)"
    using ok by (intro wf_version_end_record)
  then show ?thesis
    using ok(1) assms(2) data
    by (simp add: deserialize_message des_body_def version_end_message_def des_check_version_def
        valid_version_def)
qed

end

section \<open>Returned mutations serialize again\<close>

lemma native_of_as_native:
  "good_mutation u \<Longrightarrow> native_of (as_native u) (mu_type u, mu_param1 u, mu_param2 u)"
  by (simp add: native_of_def as_native_def good_mutation_def)

lemma natives_of_as_native:
  "list_all good_mutation us \<Longrightarrow>
     list_all2 native_of (map as_native us)
       (map (\<lambda>u. (mu_type u, mu_param1 u, mu_param2 u)) us)"
  by (induction us) (auto simp: native_of_as_native)

lemma tagged_contiguous:
  assumes "contiguous (VersionIndex v s) us"
  shows "tagged v s (map (\<lambda>u. (mu_type u, mu_param1 u, mu_param2 u)) us) = us"
  using assms
proof (induction us arbitrary: s)
  case (Cons u us)
  have "mu_version_index u = VersionIndex v s"
    using Cons.prems by (auto simp: contiguous_def All_less_Suc2)
  moreover have "contiguous (VersionIndex v (s + 1)) us"
    using Cons.prems by (auto simp: contiguous_def All_less_Suc2 algebra_simps)
  ultimately show ?case
    using Cons.IH by (auto intro: mutation.equality)
qed simp

lemma contiguous_last:
  assumes "contiguous first us" "list_all good_mutation us" "us \<noteq> []"
  shows "vi_sequence_no first + int (length us) \<le> max_sequence_no + 1"
proof -
  have "mu_version_index (us ! (length us - 1)) =
      VersionIndex (vi_fdb_version first) (vi_sequence_no first + int (length us - 1))"
    using assms by (simp add: contiguous_def)
  moreover have "good_mutation (us ! (length us - 1))"
    using assms by (simp add: list_all_length)
  ultimately show ?thesis
    using assms(3) by (cases us) (auto simp: good_mutation_def)
qed

end
