(* ===== verification/Version_Group.thy ===== *)
theory Version_Group
  imports Deserializer
begin

text \<open>
  \<open>serialization/version_group.py\<close>: a whole version group as bounded batch records plus its
  version end. Record sizes are computed, not measured; the lemmas show that the computed
  sizes are those of the runtime, that the slices partition the group, fit the budget and are
  greedy, and that the loop fails exactly at the first mutation that cannot fit alone.
\<close>

section \<open>Size arithmetic\<close>

definition varint_bytes :: "nat \<Rightarrow> nat" where
  "varint_bytes value = max 1 ((bit_length value + 6) div 7)"

definition tag_bytes :: "nat \<Rightarrow> nat" where
  "tag_bytes field_number = varint_bytes (push_bit 3 field_number)"

definition batch_tag_bytes :: nat where
  "batch_tag_bytes = tag_bytes 5"

definition mutations_tag_bytes :: nat where
  "mutations_tag_bytes = tag_bytes 1"

definition framed_bytes :: "nat \<Rightarrow> nat \<Rightarrow> nat" where
  "framed_bytes tag payload = tag + varint_bytes payload + payload"

section \<open>The operation\<close>

definition py_slice :: "nat \<Rightarrow> nat \<Rightarrow> 'a list \<Rightarrow> 'a list" where
  "py_slice a b xs = take (b - a) (drop a xs)"

fun slice_loop ::
  "protobuf \<Rightarrow> nat \<Rightarrow> int \<Rightarrow> nat \<Rightarrow> (nat \<times> nat) list \<Rightarrow> nat \<Rightarrow> nat \<Rightarrow> pb_mutation list \<Rightarrow>
     exn + (nat \<times> nat) list \<times> nat" where
  "slice_loop pb envelope_bytes max_bytes i slices start batch_bytes [] = Inr (slices, start)"
| "slice_loop pb envelope_bytes max_bytes i slices start batch_bytes (message # messages) =
     (let mutation_bytes = framed_bytes mutations_tag_bytes (ByteSize pb message);
          grown = envelope_bytes + framed_bytes batch_tag_bytes (batch_bytes + mutation_bytes);
          closes = batch_bytes \<noteq> 0 \<and> int grown > max_bytes;
          slices' = (if closes then slices @ [(start, i)] else slices);
          start' = (if closes then i else start);
          batch_bytes' = (if closes then 0 else batch_bytes);
          alone = envelope_bytes + framed_bytes batch_tag_bytes mutation_bytes
      in if batch_bytes' = 0 \<and> int alone > max_bytes
         then Inl (RecordTooLargeError (Some i) alone max_bytes)
         else slice_loop pb envelope_bytes max_bytes (Suc i) slices' start'
                (batch_bytes' + mutation_bytes) messages)"

definition serialize_version_group ::
  "protobuf \<Rightarrow> py_iterable \<Rightarrow> pyval \<Rightarrow> pyval \<Rightarrow> pyval \<Rightarrow> pyval \<Rightarrow> exn + bytes list" where
  "serialize_version_group pb mutations fdb_version max_record_bytes stream_name
       bridge_timestamp_ns =
     bindE (chk_fdb_version fdb_version) (\<lambda>version.
     bindE (chk_max_record_bytes max_record_bytes) (\<lambda>max_bytes.
     bindE (chk_envelope stream_name bridge_timestamp_ns) (\<lambda>(name, ts).
     bindE (chk_natives 0 mutations) (\<lambda>natives.
     let messages = mutation_messages version 0 natives;
         envelope_bytes = length (wire_record pb name ts None)
     in bindE (slice_loop pb envelope_bytes max_bytes 0 [] 0 0 messages) (\<lambda>(done_slices, start).
        let slices = (if messages = [] then done_slices else done_slices @ [(start, length messages)])
        in bindE (serialize_version_end pb fdb_version (PInt (int (length messages)))
                    stream_name bridge_timestamp_ns) (\<lambda>version_end.
           if int (length version_end) > max_bytes
           then Inl (RecordTooLargeError None (length version_end) max_bytes)
           else Inr (map (\<lambda>(a, b). wire_record pb name ts
                       (Some (BatchArm (py_slice a b messages)))) slices
                     @ [version_end])))))))"

section \<open>The size arithmetic agrees with the wire format\<close>

lemma bit_length_mono: "m \<le> n \<Longrightarrow> bit_length m \<le> bit_length n"
proof (induction n arbitrary: m rule: bit_length.induct)
  case (1 n)
  show ?case
  proof (cases "m = 0")
    case False
    with "1.prems" have "bit_length (m div 2) \<le> bit_length (n div 2)"
      by (intro "1.IH") (auto intro: div_le_mono)
    with False "1.prems" show ?thesis
      by (simp add: bit_length_pos)
  qed simp
qed

lemma varint_bytes_mono: "m \<le> n \<Longrightarrow> varint_bytes m \<le> varint_bytes n"
  unfolding varint_bytes_def by (intro max.mono div_le_mono add_right_mono bit_length_mono) auto

lemma framed_bytes_mono: "m \<le> n \<Longrightarrow> framed_bytes t m \<le> framed_bytes t n"
  by (simp add: framed_bytes_def add_mono varint_bytes_mono)

lemma framed_bytes_pos: "0 < framed_bytes t n"
  by (simp add: framed_bytes_def varint_bytes_def less_max_iff_disj)

lemma bit_length_div_128: "128 \<le> n \<Longrightarrow> bit_length n = 7 + bit_length (n div 128)"
proof -
  assume n: "128 \<le> n"
  have *: "bit_length n = k + bit_length (n div 2 ^ k)" if "k \<le> 7" for k
    using that
  proof (induction k)
    case (Suc k)
    have "2 ^ Suc k \<le> (2 :: nat) ^ 7"
      using Suc.prems by (intro power_increasing) auto
    with n have "2 ^ Suc k \<le> n" by simp
    then have "0 < n div 2 ^ k"
      by (simp add: div_greater_zero_iff)
    then show ?case
      using Suc by (simp add: bit_length_pos div_mult2_eq mult.commute [of 2])
  qed simp
  from * [of 7] show ?thesis by simp
qed

lemma bit_length_small: "0 < n \<Longrightarrow> n < 128 \<Longrightarrow> 1 \<le> bit_length n \<and> bit_length n \<le> 7"
proof -
  assume "0 < n" "n < 128"
  then have "bit_length n \<le> bit_length 127"
    by (intro bit_length_mono) simp
  also have "bit_length 127 = 7"
    by (simp add: bit_length_pos)
  finally show ?thesis
    using \<open>0 < n\<close> by (simp add: bit_length_pos)
qed

lemma varint_bytes_varint: "varint_bytes n = length (varint n)"
proof (induction n rule: varint.induct)
  case (1 n)
  consider "n = 0" | "0 < n" "n < 128" | "128 \<le> n" by linarith
  then show ?case
  proof cases
    case 1
    then show ?thesis by (simp add: varint_bytes_def varint.simps)
  next
    case 2
    then have "(bit_length n + 6) div 7 = 1"
      using bit_length_small [of n] by (intro div_nat_eqI) auto
    with 2 show ?thesis
      by (simp add: varint_bytes_def varint.simps)
  next
    case 3
    then have pos: "0 < n div 128" by (simp add: div_greater_zero_iff)
    then have "1 \<le> bit_length (n div 128)"
      by (simp add: bit_length_pos)
    then have "varint_bytes n = Suc (varint_bytes (n div 128))"
      using 3 by (simp add: varint_bytes_def bit_length_div_128)
    with 3 1 show ?thesis
      by (simp add: varint.simps [of n])
  qed
qed

lemma batch_tag_bytes_eq: "batch_tag_bytes = 1"
  by (simp add: batch_tag_bytes_def tag_bytes_def varint_bytes_def bit_length_pos push_bit_eq_mult)

lemma mutations_tag_bytes_eq: "mutations_tag_bytes = 1"
  by (simp add: mutations_tag_bytes_def tag_bytes_def varint_bytes_def bit_length_pos push_bit_eq_mult)

lemma framed_is_field_length:
  "framed_bytes batch_tag_bytes n = field_length 5 n"
  "framed_bytes mutations_tag_bytes n = field_length 1 n"
  by (simp_all add: framed_bytes_def field_length_def batch_tag_bytes_eq mutations_tag_bytes_eq
      varint_bytes_varint varint.simps [of 42] varint.simps [of 10])

section \<open>Slices\<close>

text \<open>\<open>chain a ss b\<close>: the slices \<open>ss\<close> are non-empty and run from \<open>a\<close> to \<open>b\<close> without gaps.\<close>

fun chain :: "nat \<Rightarrow> (nat \<times> nat) list \<Rightarrow> nat \<Rightarrow> bool" where
  "chain a [] b \<longleftrightarrow> a = b"
| "chain a ((x, y) # ss) b \<longleftrightarrow> x = a \<and> x < y \<and> chain y ss b"

lemma chain_snoc: "chain a (ss @ [(x, y)]) b \<longleftrightarrow> chain a ss x \<and> x < y \<and> y = b"
  by (induction a ss b rule: chain.induct) auto

lemma chain_le: "chain a ss b \<Longrightarrow> a \<le> b"
  by (induction a ss b rule: chain.induct) auto

lemma chain_bounds: "chain a ss b \<Longrightarrow> (x, y) \<in> set ss \<Longrightarrow> a \<le> x \<and> x < y \<and> y \<le> b"
  by (induction a ss b rule: chain.induct) (auto dest: chain_le)

lemma py_slice_append:
  assumes "a \<le> b" "b \<le> c"
  shows "py_slice a b xs @ py_slice b c xs = py_slice a c xs"
proof -
  have "drop b xs = drop (b - a) (drop a xs)" "c - a = (b - a) + (c - b)"
    using assms by simp_all
  then show ?thesis
    unfolding py_slice_def by (simp only: take_add)
qed

lemma py_slice_length: "b \<le> length xs \<Longrightarrow> length (py_slice a b xs) = b - a"
  by (simp add: py_slice_def)

lemma py_slice_Suc: "i < length xs \<Longrightarrow> py_slice i (Suc i) xs = [xs ! i]"
  by (simp add: py_slice_def take_Suc hd_drop_conv_nth)

lemma py_slice_snoc:
  "a \<le> i \<Longrightarrow> i < length xs \<Longrightarrow> py_slice a (Suc i) xs = py_slice a i xs @ [xs ! i]"
  using py_slice_append [of a i "Suc i" xs] by (simp add: py_slice_Suc)

lemma py_slice_empty [simp]: "py_slice a a xs = []"
  by (simp add: py_slice_def)

lemma py_slice_all [simp]: "py_slice 0 (length xs) xs = xs"
  by (simp add: py_slice_def)

lemma concat_chain:
  "chain a ss b \<Longrightarrow> concat (map (\<lambda>(x, y). py_slice x y xs) ss) = py_slice a b xs"
proof (induction a ss b rule: chain.induct)
  case (2 a x y ss b)
  then have "a \<le> y" "y \<le> b"
    by (auto dest: chain_le)
  with 2 show ?case
    by (simp add: py_slice_append)
qed simp

lemma py_slice_mutation_messages:
  "a \<le> b \<Longrightarrow> b \<le> length ns \<Longrightarrow>
     py_slice a b (mutation_messages v s ns) = mutation_messages v (s + int a) (py_slice a b ns)"
  by (simp add: py_slice_def mutation_messages_drop mutation_messages_take)

section \<open>The slicing loop\<close>

text \<open>
  \<open>slice_payload\<close> is the payload of the batch that holds positions \<open>a\<close> to \<open>b\<close> and \<open>slice_size\<close>
  the size of its record.
\<close>

definition slice_payload :: "protobuf \<Rightarrow> pb_mutation list \<Rightarrow> nat \<Rightarrow> nat \<Rightarrow> nat" where
  "slice_payload pb ms a b =
     (\<Sum>m\<leftarrow>py_slice a b ms. framed_bytes mutations_tag_bytes (ByteSize pb m))"

definition slice_size :: "protobuf \<Rightarrow> nat \<Rightarrow> pb_mutation list \<Rightarrow> nat \<Rightarrow> nat \<Rightarrow> nat" where
  "slice_size pb envelope ms a b =
     envelope + framed_bytes batch_tag_bytes (slice_payload pb ms a b)"

lemma slice_payload_empty [simp]: "slice_payload pb ms a a = 0"
  by (simp add: slice_payload_def)

lemma slice_payload_snoc:
  "a \<le> i \<Longrightarrow> i < length ms \<Longrightarrow> slice_payload pb ms a (Suc i) =
     slice_payload pb ms a i + framed_bytes mutations_tag_bytes (ByteSize pb (ms ! i))"
  by (simp add: slice_payload_def py_slice_snoc)

lemma slice_payload_pos: "a < b \<Longrightarrow> b \<le> length ms \<Longrightarrow> 0 < slice_payload pb ms a b"
  by (cases b) (auto simp: slice_payload_snoc less_Suc_eq_le framed_bytes_pos Suc_le_eq)

text \<open>What holds of the loop's variables before position \<open>i\<close> is read.\<close>

definition sliced ::
  "protobuf \<Rightarrow> nat \<Rightarrow> int \<Rightarrow> pb_mutation list \<Rightarrow> nat \<Rightarrow> (nat \<times> nat) list \<Rightarrow> nat \<Rightarrow> bool" where
  "sliced pb envelope mx ms i slices start \<longleftrightarrow>
     chain 0 slices start \<and> start \<le> i \<and> i \<le> length ms \<and> (0 < i \<longrightarrow> start < i) \<and>
     (\<forall>(a, b) \<in> set slices. int (slice_size pb envelope ms a b) \<le> mx \<and>
        mx < int (slice_size pb envelope ms a (Suc b))) \<and>
     (0 < i \<longrightarrow> int (slice_size pb envelope ms start i) \<le> mx) \<and>
     (\<forall>j < i. int (slice_size pb envelope ms j (Suc j)) \<le> mx)"

lemma sliced_0: "sliced pb envelope mx ms 0 [] 0"
  by (simp add: sliced_def)

lemma slice_loop_step:
  assumes "sliced pb env mx ms i slices start" "i < length ms"
    and "closes \<longleftrightarrow> slice_payload pb ms start i \<noteq> 0 \<and>
       int (slice_size pb env ms start (Suc i)) > mx"
    and "closes \<or> i = 0 \<Longrightarrow> int (slice_size pb env ms i (Suc i)) \<le> mx"
  shows "sliced pb env mx ms (Suc i)
    (if closes then slices @ [(start, i)] else slices) (if closes then i else start)"
proof (cases closes)
  case True
  with assms(3) have "start \<noteq> i" by (metis slice_payload_empty)
  with True assms show ?thesis
    by (auto simp: sliced_def chain_snoc less_Suc_eq)
next
  case False
  show ?thesis
  proof (cases "i = 0")
    case True
    with False assms show ?thesis by (auto simp: sliced_def Suc_le_eq)
  next
    case i: False
    then have si: "start < i" using assms(1) by (simp add: sliced_def)
    with assms(2) have "slice_payload pb ms start i \<noteq> 0"
      using slice_payload_pos [of start i ms pb] by simp
    with False assms(3) have fits: "int (slice_size pb env ms start (Suc i)) \<le> mx"
      by simp
    have "slice_size pb env ms i (Suc i) \<le> slice_size pb env ms start (Suc i)"
      using si assms(2) by (simp add: slice_size_def slice_payload_snoc framed_bytes_mono)
    with fits have "int (slice_size pb env ms i (Suc i)) \<le> mx" by linarith
    with False assms(1,2) fits si show ?thesis
      by (auto simp: sliced_def less_Suc_eq)
  qed
qed

definition too_large ::
  "protobuf \<Rightarrow> nat \<Rightarrow> int \<Rightarrow> pb_mutation list \<Rightarrow> nat \<Rightarrow> exn" where
  "too_large pb envelope mx ms k =
     RecordTooLargeError (Some k) (slice_size pb envelope ms k (Suc k)) mx"

lemma slice_loop_result:
  assumes "sliced pb env mx ms i slices start"
  shows "case slice_loop pb env mx i slices start (slice_payload pb ms start i) (drop i ms) of
      Inr (slices', start') \<Rightarrow> sliced pb env mx ms (length ms) slices' start'
    | Inl e \<Rightarrow> \<exists>k < length ms. e = too_large pb env mx ms k \<and>
        mx < int (slice_size pb env ms k (Suc k)) \<and>
        (\<forall>j < k. int (slice_size pb env ms j (Suc j)) \<le> mx)"
  using assms
proof (induction "length ms - i" arbitrary: i slices start)
  case 0
  then have "i = length ms" by (simp add: sliced_def)
  with 0 show ?case by simp
next
  case (Suc n)
  then have i: "i < length ms" "start \<le> i" by (simp_all add: sliced_def)
  define w where "w = framed_bytes mutations_tag_bytes (ByteSize pb (ms ! i))"
  define closes where "closes \<longleftrightarrow> slice_payload pb ms start i \<noteq> 0 \<and>
    mx < int (slice_size pb env ms start (Suc i))"
  define alone where "alone = slice_size pb env ms i (Suc i)"
  let ?slices = "if closes then slices @ [(start, i)] else slices"
  let ?start = "if closes then i else start"
  have grown: "env + framed_bytes batch_tag_bytes (slice_payload pb ms start i + w) =
      slice_size pb env ms start (Suc i)"
    using i by (simp add: slice_size_def slice_payload_snoc w_def)
  have alone_eq: "env + framed_bytes batch_tag_bytes w = alone"
    using i by (simp add: slice_size_def slice_payload_snoc w_def alone_def)
  have payload': "(if closes then 0 else slice_payload pb ms start i) = slice_payload pb ms ?start i"
    by simp
  have payload_w: "slice_payload pb ms ?start i + w = slice_payload pb ms ?start (Suc i)"
    using i by (simp add: slice_payload_snoc w_def)
  have step: "slice_loop pb env mx i slices start (slice_payload pb ms start i) (drop i ms) =
      (if slice_payload pb ms ?start i = 0 \<and> mx < int alone
       then Inl (RecordTooLargeError (Some i) alone mx)
       else slice_loop pb env mx (Suc i) ?slices ?start (slice_payload pb ms ?start (Suc i))
              (drop (Suc i) ms))"
    unfolding Cons_nth_drop_Suc [OF i(1), symmetric] slice_loop.simps Let_def w_def [symmetric]
      grown closes_def [symmetric] alone_eq payload' payload_w by simp
  have fits: "\<forall>j < i. int (slice_size pb env ms j (Suc j)) \<le> mx"
    using Suc.prems by (simp add: sliced_def)
  have zero: "slice_payload pb ms ?start i = 0 \<longleftrightarrow> closes \<or> i = 0"
    using Suc.prems i slice_payload_pos [of start i ms pb] by (auto simp: sliced_def)
  show ?case
  proof (cases "slice_payload pb ms ?start i = 0 \<and> mx < int alone")
    case True
    with fits i show ?thesis
      unfolding step by (auto simp: too_large_def alone_def)
  next
    case False
    have "sliced pb env mx ms (Suc i) ?slices ?start"
      using Suc.prems i(1) closes_def False zero
      by (intro slice_loop_step) (auto simp: alone_def)
    moreover have "n = length ms - Suc i"
      using Suc.hyps(2) by simp
    ultimately show ?thesis
      unfolding step using False by (simp only: if_False) (rule Suc.hyps(1))
  qed
qed

lemma slice_loop_start:
  "case slice_loop pb env mx 0 [] 0 0 ms of
      Inr (slices, start) \<Rightarrow> sliced pb env mx ms (length ms) slices start
    | Inl e \<Rightarrow> \<exists>k < length ms. e = too_large pb env mx ms k \<and>
        mx < int (slice_size pb env ms k (Suc k)) \<and>
        (\<forall>j < k. int (slice_size pb env ms j (Suc j)) \<le> mx)"
  using slice_loop_result [OF sliced_0 [of pb env mx ms]] by simp

text \<open>The first mutation that does not fit alone decides.\<close>

lemma slice_loop_Inl:
  "slice_loop pb env mx 0 [] 0 0 ms = Inl e \<longleftrightarrow>
     (\<exists>k < length ms. e = too_large pb env mx ms k \<and>
        mx < int (slice_size pb env ms k (Suc k)) \<and>
        (\<forall>j < k. int (slice_size pb env ms j (Suc j)) \<le> mx))"
  (is "?L \<longleftrightarrow> ?R")
proof
  show ?R if ?L
    using that slice_loop_start [where pb = pb and env = env and mx = mx and ms = ms] by simp
next
  assume ?R
  then obtain k where k: "k < length ms" "e = too_large pb env mx ms k"
    "mx < int (slice_size pb env ms k (Suc k))" "\<forall>j < k. int (slice_size pb env ms j (Suc j)) \<le> mx"
    by blast
  show ?L
  proof (cases "slice_loop pb env mx 0 [] 0 0 ms")
    case (Inl e')
    with slice_loop_start [where pb = pb and env = env and mx = mx and ms = ms] obtain k' where
      "e' = too_large pb env mx ms k'" "mx < int (slice_size pb env ms k' (Suc k'))"
      "\<forall>j < k'. int (slice_size pb env ms j (Suc j)) \<le> mx"
      by auto
    with k have "k' = k"
      by (metis linorder_neqE_nat not_less)
    with Inl k \<open>e' = _\<close> show ?thesis by simp
  next
    case (Inr r)
    with slice_loop_start [where pb = pb and env = env and mx = mx and ms = ms] k(1,3) show ?thesis
      by (cases r) (auto simp: sliced_def)
  qed
qed

text \<open>The slices the function goes on with, the last open one included.\<close>

definition all_slices :: "pb_mutation list \<Rightarrow> (nat \<times> nat) list \<Rightarrow> nat \<Rightarrow> (nat \<times> nat) list" where
  "all_slices ms done_slices start = (if ms = [] then done_slices else done_slices @ [(start, length ms)])"

lemma slice_loop_Inr:
  assumes "slice_loop pb env mx 0 [] 0 0 ms = Inr (done_slices, start)"
  shows "chain 0 (all_slices ms done_slices start) (length ms)"
    and "(a, b) \<in> set (all_slices ms done_slices start) \<Longrightarrow> int (slice_size pb env ms a b) \<le> mx"
    and "(a, b) \<in> set (all_slices ms done_slices start) \<Longrightarrow> b < length ms \<Longrightarrow>
      mx < int (slice_size pb env ms a (Suc b))"
  using slice_loop_start [where pb = pb and env = env and mx = mx and ms = ms] assms
  by (auto simp: sliced_def all_slices_def chain_snoc split: if_splits)

section \<open>Success, exactly\<close>

lemma serialize_version_group_Inr:
  "serialize_version_group pb ms v mx n t = Inr records \<longleftrightarrow>
     (\<exists>version max_bytes name ts items natives done_slices start.
        v = PInt version \<and> mx = PInt max_bytes \<and> n = PStr name \<and> t = PInt ts \<and>
        valid_version version \<and> 1 \<le> max_bytes \<and> valid_envelope name ts \<and>
        ms = Yields items None \<and> list_all2 native_of items natives \<and>
        int (length items) \<le> max_total_mutations \<and>
        slice_loop pb (length (wire_record pb name ts None)) max_bytes 0 [] 0 0
          (mutation_messages version 0 natives) = Inr (done_slices, start) \<and>
        int (length (SerializeToString pb
          (version_end_message name ts version (int (length items))))) \<le> max_bytes \<and>
        records = map (\<lambda>(a, b). wire_record pb name ts
            (Some (BatchArm (py_slice a b (mutation_messages version 0 natives)))))
          (all_slices (mutation_messages version 0 natives) done_slices start)
          @ [SerializeToString pb (version_end_message name ts version (int (length items)))])"
  (is "?L \<longleftrightarrow> ?R")
proof
  assume ?L
  then obtain version max_bytes name ts natives done_slices start version_end where
    checks: "chk_fdb_version v = Inr version" "chk_max_record_bytes mx = Inr max_bytes"
      "chk_envelope n t = Inr (name, ts)" "chk_natives 0 ms = Inr natives"
    and loop: "slice_loop pb (length (wire_record pb name ts None)) max_bytes 0 [] 0 0
      (mutation_messages version 0 natives) = Inr (done_slices, start)"
    and fin: "serialize_version_end pb v (PInt (int (length natives))) n t = Inr version_end"
    and fits: "int (length version_end) \<le> max_bytes"
    and records: "records = map (\<lambda>(a, b). wire_record pb name ts
        (Some (BatchArm (py_slice a b (mutation_messages version 0 natives)))))
      (all_slices (mutation_messages version 0 natives) done_slices start) @ [version_end]"
    by (auto simp: serialize_version_group_def result_simps all_slices_def Let_def
        simp del: mutation_messages_eq_Nil split: if_splits)
  from checks(4) obtain items where "ms = Yields items None" "list_all2 native_of items natives"
    by (auto simp: chk_natives_Inr)
  with checks(1-3) loop fin fits records show ?R
    by (auto simp: chk_fdb_version_Inr chk_max_record_bytes_Inr chk_envelope_valid
        valid_version_def serialize_version_end_Inr list_all2_lengthD)
next
  assume ?R
  then obtain version max_bytes name ts items natives done_slices start where
    args: "v = PInt version" "mx = PInt max_bytes" "n = PStr name" "t = PInt ts"
      "ms = Yields items None"
    and ok: "valid_version version" "1 \<le> max_bytes" "valid_envelope name ts"
      "list_all2 native_of items natives" "int (length items) \<le> max_total_mutations"
    and loop: "slice_loop pb (length (wire_record pb name ts None)) max_bytes 0 [] 0 0
      (mutation_messages version 0 natives) = Inr (done_slices, start)"
    and fits: "int (length (SerializeToString pb
      (version_end_message name ts version (int (length items))))) \<le> max_bytes"
    and records: "records = map (\<lambda>(a, b). wire_record pb name ts
        (Some (BatchArm (py_slice a b (mutation_messages version 0 natives)))))
      (all_slices (mutation_messages version 0 natives) done_slices start)
      @ [SerializeToString pb (version_end_message name ts version (int (length items)))]"
    by blast
  have "chk_fdb_version v = Inr version" "chk_max_record_bytes mx = Inr max_bytes"
    "chk_envelope n t = Inr (name, ts)" "chk_natives 0 ms = Inr natives"
    using args ok by (auto simp: chk_fdb_version_Inr chk_max_record_bytes_Inr chk_envelope_valid
        chk_natives_Inr valid_version_def limit_defs)
  moreover have "serialize_version_end pb v (PInt (int (length items))) n t =
      Inr (SerializeToString pb (version_end_message name ts version (int (length items))))"
    using args ok by (auto simp: serialize_version_end_Inr)
  moreover have "length natives = length items"
    using ok(4) by (simp add: list_all2_lengthD)
  ultimately show ?L
    using loop fits records
    by (simp add: serialize_version_group_def Let_def all_slices_def del: mutation_messages_eq_Nil)
qed

lemma serialize_version_group_ok:
  assumes "valid_version version" "1 \<le> max_bytes" "valid_envelope name ts"
    "list_all2 native_of items natives" "int (length items) \<le> max_total_mutations"
    "slice_loop pb (length (wire_record pb name ts None)) max_bytes 0 [] 0 0
      (mutation_messages version 0 natives) = Inr (done_slices, start)"
    "int (length (SerializeToString pb
      (version_end_message name ts version (int (length items))))) \<le> max_bytes"
  shows "serialize_version_group pb (Yields items None) (PInt version) (PInt max_bytes)
      (PStr name) (PInt ts) =
    Inr (map (\<lambda>(a, b). wire_record pb name ts
        (Some (BatchArm (py_slice a b (mutation_messages version 0 natives)))))
      (all_slices (mutation_messages version 0 natives) done_slices start)
      @ [SerializeToString pb (version_end_message name ts version (int (length items)))])"
  unfolding serialize_version_group_Inr using assms by blast

lemma serialize_version_group_too_large:
  assumes "valid_version version" "1 \<le> max_bytes" "valid_envelope name ts"
    "list_all2 native_of items natives" "int (length items) \<le> max_sequence_no + 1"
    "slice_loop pb (length (wire_record pb name ts None)) max_bytes 0 [] 0 0
      (mutation_messages version 0 natives) = Inl e"
  shows "serialize_version_group pb (Yields items None) (PInt version) (PInt max_bytes)
    (PStr name) (PInt ts) = Inl e"
proof -
  have "chk_fdb_version (PInt version) = Inr version"
    "chk_max_record_bytes (PInt max_bytes) = Inr max_bytes"
    "chk_envelope (PStr name) (PInt ts) = Inr (name, ts)"
    "chk_natives 0 (Yields items None) = Inr natives"
    using assms by (auto simp: chk_fdb_version_Inr chk_max_record_bytes_Inr chk_envelope_valid
        chk_natives_Inr valid_version_def)
  then show ?thesis
    using assms(6) by (simp add: serialize_version_group_def Let_def)
qed

section \<open>Every returned record\<close>

lemma list_all2_py_slice:
  "list_all2 R xs ys \<Longrightarrow> list_all2 R (py_slice a b xs) (py_slice a b ys)"
  by (simp add: py_slice_def)

lemma set_py_slice: "set (py_slice a b xs) \<subseteq> set xs"
  unfolding py_slice_def by (meson set_drop_subset set_take_subset subset_trans)

text \<open>A record of the group is the \<open>serialize_batch\<close> of its slice of the input.\<close>

lemma slice_is_batch:
  assumes "valid_version v" "valid_envelope n t" "list_all2 native_of items ns"
    and "int (length items) \<le> max_total_mutations" "a < b" "b \<le> length items"
  shows "serialize_batch pb (Yields (py_slice a b items) None) (PInt v) (PInt (int a)) (PStr n)
      (PInt t) =
    Inr (wire_record pb n t (Some (BatchArm (py_slice a b (mutation_messages v 0 ns)))))"
proof -
  have len: "length ns = length items"
    using assms(3) by (simp add: list_all2_lengthD)
  have "length (py_slice a b items) = b - a"
    using assms(6) by (rule py_slice_length)
  moreover have "py_slice a b (mutation_messages v 0 ns) =
      mutation_messages v (int a) (py_slice a b ns)"
    using assms(5,6) len by (simp add: py_slice_mutation_messages)
  ultimately show ?thesis
    using assms unfolding serialize_batch_Inr
    by (intro exI [of _ v] exI [of _ "int a"] exI [of _ n] exI [of _ t]
        exI [of _ "py_slice a b items"] exI [of _ "py_slice a b ns"])
      (auto simp: list_all2_py_slice limit_defs)
qed

text \<open>The mutations of the batches of a list of decoded records, in order.\<close>

fun body_mutations :: "record_body \<Rightarrow> mutation list" where
  "body_mutations (BodyMutation u) = [u]"
| "body_mutations (BodyBatch us) = us"
| "body_mutations (BodyVersionEnd e) = []"

definition records_mutations :: "out_record list \<Rightarrow> mutation list" where
  "records_mutations rs = concat (map (\<lambda>r. body_mutations (rec_body r)) rs)"

lemma tagged_take: "take k (tagged v s ns) = tagged v s (take k ns)"
  by (induction v s ns arbitrary: k rule: tagged.induct) (auto simp: take_Cons split: nat.split)

lemma tagged_drop:
  "k \<le> length ns \<Longrightarrow> drop k (tagged v s ns) = tagged v (s + int k) (drop k ns)"
  by (induction v s ns arbitrary: k rule: tagged.induct)
    (auto simp: drop_Cons algebra_simps split: nat.split)

lemma py_slice_tagged:
  "a \<le> b \<Longrightarrow> b \<le> length ns \<Longrightarrow>
     py_slice a b (tagged v s ns) = tagged v (s + int a) (py_slice a b ns)"
  by (simp add: py_slice_def tagged_take tagged_drop)

context protobuf_runtime
begin

lemma slice_record_length:
  assumes "valid_envelope n t" "list_all wf_mutation ms"
  shows "length (wire_record pb n t (Some (BatchArm (py_slice a b ms)))) =
    slice_size pb (length (wire_record pb n t None)) ms a b"
proof -
  have "list_all wf_mutation (py_slice a b ms)"
    using assms(2) set_py_slice [of a b ms] by (auto simp: list_all_iff)
  then have "wf_record ((record_message n t None)\<lparr>pr_record := Some (BatchArm (py_slice a b ms))\<rparr>)"
    using assms(1) unfolding record_message_update [symmetric]
    by (intro wf_record_message) (auto simp: valid_envelope_def)
  from batch_length [OF this] show ?thesis
    by (simp add: wire_record_def slice_size_def slice_payload_def framed_is_field_length
        record_message_def)
qed

lemma group_record_fits:
  assumes "serialize_version_group pb ms v (PInt mx) n t = Inr records" "r \<in> set records"
  shows "int (length r) \<le> mx"
proof -
  obtain version name ts items natives done_slices start where
    ok: "valid_version version" "valid_envelope name ts" "list_all2 native_of items natives"
      "int (length items) \<le> max_total_mutations"
    and loop: "slice_loop pb (length (wire_record pb name ts None)) mx 0 [] 0 0
      (mutation_messages version 0 natives) = Inr (done_slices, start)"
    and fits: "int (length (SerializeToString pb
      (version_end_message name ts version (int (length items))))) \<le> mx"
    and records: "records = map (\<lambda>(a, b). wire_record pb name ts
        (Some (BatchArm (py_slice a b (mutation_messages version 0 natives)))))
      (all_slices (mutation_messages version 0 natives) done_slices start)
      @ [SerializeToString pb (version_end_message name ts version (int (length items)))]"
    using assms(1) by (auto simp: serialize_version_group_Inr)
  have "list_all wf_mutation (mutation_messages version 0 natives)"
    using ok by (intro wf_mutation_messages natives_codes)
      (auto simp: valid_version_def list_all2_lengthD limit_defs)
  then have "length (wire_record pb name ts
      (Some (BatchArm (py_slice a b (mutation_messages version 0 natives))))) =
      slice_size pb (length (wire_record pb name ts None)) (mutation_messages version 0 natives) a b"
    for a b using ok(2) by (rule slice_record_length [rotated])
  with assms(2) fits records slice_loop_Inr(2) [OF loop] show ?thesis
    by auto
qed

lemma group_roundtrip:
  assumes "serialize_version_group pb (Yields items None) (PInt v) (PInt mx) (PStr n) (PInt t) =
      Inr records"
    and "list_all2 native_of items ns" and "mx < 2 ^ 31"
  shows "\<exists>outs ve. mapE (\<lambda>data. deserialize_record pb (PBytes data)) records = Inr (outs @ [ve]) \<and>
    records_mutations outs = tagged v 0 ns \<and>
    (\<forall>r \<in> set outs. \<exists>us. rec_body r = BodyBatch us) \<and>
    (\<forall>r \<in> set (outs @ [ve]). rec_stream_name r = n \<and> rec_bridge_timestamp_ns r = Some t) \<and>
    rec_body ve = BodyVersionEnd \<lparr>ve_fdb_version = v, ve_total_mutations = int (length items),
      ve_bridge_timestamp_ns = Some t\<rparr>"
proof -
  obtain natives done_slices start where
    ok: "valid_version v" "valid_envelope n t" "list_all2 native_of items natives"
      "int (length items) \<le> max_total_mutations"
    and loop: "slice_loop pb (length (wire_record pb n t None)) mx 0 [] 0 0
      (mutation_messages v 0 natives) = Inr (done_slices, start)"
    and records: "records = map (\<lambda>(a, b). wire_record pb n t
        (Some (BatchArm (py_slice a b (mutation_messages v 0 natives)))))
      (all_slices (mutation_messages v 0 natives) done_slices start)
      @ [SerializeToString pb (version_end_message n t v (int (length items)))]"
    using assms(1) by (auto simp: serialize_version_group_Inr)
  have natives: "natives = ns"
    using ok(3) assms(2) by (rule native_lists_unique)
  define slices where "slices = all_slices (mutation_messages v 0 ns) done_slices start"
  define out where "out = (\<lambda>(a, b). \<lparr>rec_stream_name = n, rec_bridge_timestamp_ns = Some t,
    rec_body = BodyBatch (py_slice a b (tagged v 0 ns))\<rparr>)"
  define ve where "ve = \<lparr>rec_stream_name = n, rec_bridge_timestamp_ns = Some t,
    rec_body = BodyVersionEnd \<lparr>ve_fdb_version = v, ve_total_mutations = int (length items),
      ve_bridge_timestamp_ns = Some t\<rparr>\<rparr>"
  have small: "length r < 2 ^ 31" if "r \<in> set records" for r
    using group_record_fits [OF assms(1) that] assms(3) by simp
  have len: "length ns = length items"
    using assms(2) by (simp add: list_all2_lengthD)
  have ch: "chain 0 slices (length ns)"
    using slice_loop_Inr(1) [OF loop] by (simp add: slices_def natives)
  have batch: "deserialize_record pb (PBytes (wire_record pb n t
      (Some (BatchArm (py_slice a b (mutation_messages v 0 ns)))))) = Inr (out (a, b))"
    if ab: "(a, b) \<in> set slices" for a b
  proof -
    have bounds: "a < b" "b \<le> length items"
      using chain_bounds [OF ch ab] len by auto
    have "serialize_batch pb (Yields (py_slice a b items) None) (PInt v) (PInt (int a)) (PStr n)
        (PInt t) = Inr (wire_record pb n t
          (Some (BatchArm (py_slice a b (mutation_messages v 0 ns)))))"
      using ok bounds natives by (intro slice_is_batch) auto
    moreover have "length (wire_record pb n t
        (Some (BatchArm (py_slice a b (mutation_messages v 0 ns))))) < 2 ^ 31"
      using ab records by (intro small) (auto simp: slices_def natives)
    ultimately show ?thesis
      using assms(2) bounds len
      by (subst batch_roundtrip) (auto intro: list_all2_py_slice simp: out_def py_slice_tagged)
  qed
  have "serialize_version_end pb (PInt v) (PInt (int (length items))) (PStr n) (PInt t) =
      Inr (SerializeToString pb (version_end_message n t v (int (length items))))"
    using ok by (auto simp: serialize_version_end_Inr)
  then have "deserialize_record pb
      (PBytes (SerializeToString pb (version_end_message n t v (int (length items))))) = Inr ve"
    using records small unfolding ve_def by (intro version_end_roundtrip) auto
  then have "mapE (\<lambda>data. deserialize_record pb (PBytes data)) records =
      Inr (map out slices @ [ve])"
    using batch by (auto simp: mapE_Inr_iff records slices_def natives)
  moreover have "records_mutations (map out slices) = tagged v 0 ns"
  proof -
    have "records_mutations (map out slices) =
        concat (map (\<lambda>(a, b). py_slice a b (tagged v 0 ns)) slices)"
      unfolding records_mutations_def map_map comp_def
      by (rule arg_cong [where f = concat], rule map_cong) (auto simp: out_def)
    also have "\<dots> = tagged v 0 ns"
      using concat_chain [OF ch, of "tagged v 0 ns"] py_slice_all [of "tagged v 0 ns"] by simp
    finally show ?thesis .
  qed
  ultimately show ?thesis
    by (intro exI [of _ "map out slices"] exI [of _ ve]) (auto simp: out_def ve_def)
qed

end

end
