(* ===== verification/Proto3.thy ===== *)
theory Proto3
  imports Proto
begin

text \<open>
  A concrete Protobuf runtime for \<open>mutations.proto\<close>, written from the published encoding guide:
  varints of at most ten bytes, length-delimited and fixed-width fields, unknown fields skipped,
  the last scalar wins, embedded messages merge, setting one arm of a oneof clears the other.
  (Deprecated groups are rejected.) It interprets \<open>protobuf_runtime\<close>, so the laws assumed of the
  real runtime are consistent, and it is the concrete runtime of the examples.
\<close>

section \<open>Fields\<close>

datatype wire_value = WVarint nat | WI64 bytes | WLen bytes | WI32 bytes

type_synonym field = "nat \<times> wire_value"

fun emit_field :: "field \<Rightarrow> bytes" where
  "emit_field (n, WVarint v) = varint (8 * n) @ varint v"
| "emit_field (n, WI64 b) = varint (8 * n + 1) @ b"
| "emit_field (n, WLen b) = varint (8 * n + 2) @ varint (length b) @ b"
| "emit_field (n, WI32 b) = varint (8 * n + 5) @ b"

definition emit :: "field list \<Rightarrow> bytes" where
  "emit fs = concat (map emit_field fs)"

fun read_varint :: "nat \<Rightarrow> bytes \<Rightarrow> (nat \<times> bytes) option" where
  "read_varint 0 bs = None"
| "read_varint (Suc k) [] = None"
| "read_varint (Suc k) (b # bs) =
     (if unat b < 128 then Some (unat b, bs)
      else case read_varint k bs of
        None \<Rightarrow> None
      | Some (v, rest) \<Rightarrow> Some (unat b - 128 + 128 * v, rest))"

definition read_chunk :: "nat \<Rightarrow> bytes \<Rightarrow> (bytes \<times> bytes) option" where
  "read_chunk n bs = (if length bs < n then None else Some (take n bs, drop n bs))"

definition read_value :: "nat \<Rightarrow> bytes \<Rightarrow> (wire_value \<times> bytes) option" where
  "read_value wt bs =
     (if wt = 0 then map_option (\<lambda>(v, r). (WVarint (v mod 2 ^ 64), r)) (read_varint 10 bs)
      else if wt = 1 then map_option (\<lambda>(b, r). (WI64 b, r)) (read_chunk 8 bs)
      else if wt = 2 then
        (case read_varint 10 bs of
           None \<Rightarrow> None
         | Some (n, r) \<Rightarrow> map_option (\<lambda>(b, r'). (WLen b, r')) (read_chunk n r))
      else if wt = 5 then map_option (\<lambda>(b, r). (WI32 b, r)) (read_chunk 4 bs)
      else None)"

lemma read_varint_shorter: "read_varint k bs = Some (v, r) \<Longrightarrow> length r < length bs"
  by (induction k bs arbitrary: v r rule: read_varint.induct) (fastforce split: if_splits option.splits)+

lemma read_value_shorter: "read_value wt bs = Some (w, r) \<Longrightarrow> length r \<le> length bs"
  by (auto simp: read_value_def read_chunk_def split: if_splits option.splits
      dest!: read_varint_shorter)

function read_fields :: "bytes \<Rightarrow> field list option" where
  "read_fields bs =
     (if bs = [] then Some []
      else case read_varint 10 bs of
        None \<Rightarrow> None
      | Some (t, r) \<Rightarrow>
          if t div 8 = 0 \<or> 2 ^ 29 \<le> t div 8 then None
          else case read_value (t mod 8) r of
            None \<Rightarrow> None
          | Some (w, r') \<Rightarrow> map_option (Cons (t div 8, w)) (read_fields r'))"
  by pat_completeness auto

termination
  by (relation "measure length")
    (auto dest!: read_varint_shorter read_value_shorter)

declare read_fields.simps [simp del]

section \<open>Reading what was emitted\<close>

lemma varint_Nil [simp]: "varint n \<noteq> []"
  by (simp add: varint.simps [of n])

lemma read_varint_varint: "0 < k \<Longrightarrow> n < 128 ^ k \<Longrightarrow> read_varint k (varint n @ bs) = Some (n, bs)"
proof (induction k arbitrary: n)
  case (Suc k)
  show ?case
  proof (cases "n < 128")
    case True
    then show ?thesis by (simp add: varint.simps [of n])
  next
    case False
    have "n div 128 < 128 ^ k"
      using Suc.prems by (simp add: less_mult_imp_div_less mult.commute)
    moreover have "0 < k"
      using Suc.prems False by (cases k) auto
    ultimately have IH: "read_varint k (varint (n div 128) @ bs) = Some (n div 128, bs)"
      by (intro Suc.IH)
    have "unat (of_nat (128 + n mod 128) :: byte) = 128 + n mod 128"
      by (rule unat_of_nat_byte) (use mod_less_divisor [of 128 n] in linarith)
    with False IH show ?thesis
      by (simp add: varint.simps [of n] del: of_nat_add)
  qed
qed simp

definition small_field :: "field \<Rightarrow> bool" where
  "small_field f \<longleftrightarrow> 0 < fst f \<and> fst f < 2 ^ 29 \<and>
     (case snd f of WVarint v \<Rightarrow> v < 2 ^ 64 | WLen b \<Rightarrow> length b < 2 ^ 64
      | WI64 b \<Rightarrow> length b = 8 | WI32 b \<Rightarrow> length b = 4)"

lemma read_chunk_append [simp]: "length b = n \<Longrightarrow> read_chunk n (b @ bs) = Some (b, bs)"
  by (auto simp: read_chunk_def)

lemma read_fields_emit_field:
  assumes "small_field (n, w)"
  shows "read_fields (emit_field (n, w) @ bs) = map_option (Cons (n, w)) (read_fields bs)"
proof -
  have tag: "read_varint 10 (varint (8 * n + k) @ r) = Some (8 * n + k, r)" if "k < 8" for k r
    using assms that by (intro read_varint_varint) (auto simp: small_field_def)
  have len: "read_varint 10 (varint m @ r) = Some (m, r)" if "m < 2 ^ 64" for m r
    using that by (intro read_varint_varint) auto
  have num: "(8 * n + k) div 8 = n" "(8 * n + k) mod 8 = k" if "k < 8" for k
    using that by auto
  show ?thesis
  proof (cases w)
    case (WVarint v)
    with assms have "v < 2 ^ 64" by (simp add: small_field_def)
    with WVarint assms tag [of 0] num [of 0] len [of v] show ?thesis
      by (subst read_fields.simps) (simp add: small_field_def read_value_def)
  next
    case (WI64 b)
    with assms tag [of 1] num [of 1] show ?thesis
      by (subst read_fields.simps) (simp add: small_field_def read_value_def)
  next
    case (WLen b)
    with assms tag [of 2] num [of 2] len [of "length b"] show ?thesis
      by (subst read_fields.simps) (simp add: small_field_def read_value_def)
  next
    case (WI32 b)
    with assms tag [of 5] num [of 5] show ?thesis
      by (subst read_fields.simps) (simp add: small_field_def read_value_def)
  qed
qed

lemma read_fields_emit: "list_all small_field fs \<Longrightarrow> read_fields (emit fs) = Some fs"
proof (induction fs)
  case Nil
  show ?case by (simp add: emit_def read_fields.simps)
next
  case (Cons f fs)
  then show ?case
    by (cases f) (simp add: emit_def read_fields_emit_field)
qed

lemma emit_simps [simp]: "emit [] = []" "emit (f # fs) = emit_field f @ emit fs"
  "emit (fs @ gs) = emit fs @ emit gs"
  by (simp_all add: emit_def)

section \<open>Scalars\<close>

definition wire_int :: "int \<Rightarrow> nat" where
  "wire_int v = nat (v mod 2 ^ 64)"

definition uint_field :: "nat \<Rightarrow> int \<Rightarrow> field list" where
  "uint_field n v = (if v = 0 then [] else [(n, WVarint (wire_int v))])"

definition bytes_field :: "nat \<Rightarrow> bytes \<Rightarrow> field list" where
  "bytes_field n b = (if b = [] then [] else [(n, WLen b)])"

definition signed_of :: "nat \<Rightarrow> nat \<Rightarrow> int" where
  "signed_of w n = (let m = int n mod 2 ^ w in if m < 2 ^ (w - 1) then m else m - 2 ^ w)"

definition unsigned_of :: "nat \<Rightarrow> nat \<Rightarrow> int" where
  "unsigned_of w n = int n mod 2 ^ w"

lemma signed_of_bounds: "- (2 ^ 63) \<le> signed_of 64 n" "signed_of 64 n < 2 ^ 63"
  "- (2 ^ 31) \<le> signed_of 32 n" "signed_of 32 n < 2 ^ 31"
  by (auto simp: signed_of_def Let_def)

lemma unsigned_of_bounds: "0 \<le> unsigned_of w n" "unsigned_of w n < 2 ^ w"
  by (simp_all add: unsigned_of_def)

lemma mod_negative: "- m \<le> v \<Longrightarrow> v < 0 \<Longrightarrow> v mod m = v + (m :: int)"
  using mod_pos_pos_trivial [of "v + m" m] by simp

lemma signed_of_64: "- (2 ^ 63) \<le> v \<Longrightarrow> v < 2 ^ 63 \<Longrightarrow> signed_of 64 (wire_int v) = v"
  by (cases "0 \<le> v") (auto simp: wire_int_def signed_of_def Let_def mod_pos_pos_trivial mod_negative)

lemma signed_of_32:
  assumes "- (2 ^ 31) \<le> v" "v < 2 ^ 31"
  shows "signed_of 32 (wire_int v) = v"
proof -
  have "v mod 2 ^ 64 mod 2 ^ 32 = v mod 2 ^ 32"
    by (simp add: mod_mod_cancel)
  then show ?thesis
    using assms
    by (cases "0 \<le> v") (auto simp: wire_int_def signed_of_def Let_def mod_pos_pos_trivial mod_negative)
qed

lemma unsigned_of_64: "0 \<le> v \<Longrightarrow> v < 2 ^ 64 \<Longrightarrow> unsigned_of 64 (wire_int v) = v"
  by (simp add: wire_int_def unsigned_of_def)

lemma unsigned_of_32: "0 \<le> v \<Longrightarrow> v < 2 ^ 32 \<Longrightarrow> unsigned_of 32 (wire_int v) = v"
  by (simp add: wire_int_def unsigned_of_def)

lemmas scalar_inverses = signed_of_64 signed_of_32 unsigned_of_64 unsigned_of_32

lemma small_uint_field: "0 < n \<Longrightarrow> n < 2 ^ 29 \<Longrightarrow> list_all small_field (uint_field n v)"
  by (auto simp: uint_field_def wire_int_def small_field_def nat_less_iff)

section \<open>Messages as fields\<close>

definition timestamp_fields :: "pb_timestamp \<Rightarrow> field list" where
  "timestamp_fields t = uint_field 1 (ts_seconds t) @ uint_field 2 (ts_nanos t)"

definition version_index_fields :: "pb_version_index \<Rightarrow> field list" where
  "version_index_fields v = uint_field 1 (pvi_fdb_version v) @ uint_field 2 (pvi_sequence_no v)"

definition single_key_fields :: "pb_single_key_mutation \<Rightarrow> field list" where
  "single_key_fields s =
     bytes_field 1 (sk_key s) @ bytes_field 2 (sk_value s) @ uint_field 3 (sk_mutation_type s)"

definition clear_range_fields :: "pb_clear_range \<Rightarrow> field list" where
  "clear_range_fields c = bytes_field 1 (cr_begin_key c) @ bytes_field 2 (cr_end_key c)"

definition message_field :: "nat \<Rightarrow> ('a \<Rightarrow> field list) \<Rightarrow> 'a option \<Rightarrow> field list" where
  "message_field n to_fields x =
     (case x of None \<Rightarrow> [] | Some m \<Rightarrow> [(n, WLen (emit (to_fields m)))])"

fun mutation_arm_fields :: "pb_mutation_arm option \<Rightarrow> field list" where
  "mutation_arm_fields None = []"
| "mutation_arm_fields (Some (SingleKeyArm s)) = [(2, WLen (emit (single_key_fields s)))]"
| "mutation_arm_fields (Some (ClearRangeArm c)) = [(3, WLen (emit (clear_range_fields c)))]"

definition mutation_fields :: "pb_mutation \<Rightarrow> field list" where
  "mutation_fields m = message_field 1 version_index_fields (pm_version_index m) @
     mutation_arm_fields (pm_mutation m)"

definition version_end_fields :: "pb_version_end \<Rightarrow> field list" where
  "version_end_fields e = uint_field 1 (pve_fdb_version e) @ uint_field 2 (pve_total_mutations e) @
     message_field 3 timestamp_fields (pve_bridge_timestamp e)"

definition batch_fields :: "pb_mutation list \<Rightarrow> field list" where
  "batch_fields ms = map (\<lambda>m. (1, WLen (emit (mutation_fields m)))) ms"

fun record_arm_fields :: "pb_record_arm option \<Rightarrow> field list" where
  "record_arm_fields None = []"
| "record_arm_fields (Some (MutationArm m)) = [(3, WLen (emit (mutation_fields m)))]"
| "record_arm_fields (Some (VersionEndArm e)) = [(4, WLen (emit (version_end_fields e)))]"
| "record_arm_fields (Some (BatchArm ms)) = [(5, WLen (emit (batch_fields ms)))]"

definition record_fields :: "pb_record \<Rightarrow> field list" where
  "record_fields r = bytes_field 1 (the (utf8_encode (pr_stream_name r))) @
     message_field 2 timestamp_fields (pr_bridge_timestamp r) @ record_arm_fields (pr_record r)"

section \<open>Messages from fields\<close>

fun fold_fields :: "(field \<Rightarrow> 'm \<Rightarrow> 'm option) \<Rightarrow> field list \<Rightarrow> 'm \<Rightarrow> 'm option" where
  "fold_fields f [] m = Some m"
| "fold_fields f (x # xs) m = (case f x m of None \<Rightarrow> None | Some m' \<Rightarrow> fold_fields f xs m')"

definition read_into :: "(field \<Rightarrow> 'm \<Rightarrow> 'm option) \<Rightarrow> bytes \<Rightarrow> 'm \<Rightarrow> 'm option" where
  "read_into f bs m =
     (case read_fields bs of None \<Rightarrow> None | Some fs \<Rightarrow> fold_fields f fs m)"

definition no_timestamp :: pb_timestamp where
  "no_timestamp = \<lparr>ts_seconds = 0, ts_nanos = 0\<rparr>"

definition no_version_index :: pb_version_index where
  "no_version_index = \<lparr>pvi_fdb_version = 0, pvi_sequence_no = 0\<rparr>"

definition no_single_key :: pb_single_key_mutation where
  "no_single_key = \<lparr>sk_key = [], sk_value = [], sk_mutation_type = 0\<rparr>"

definition no_clear_range :: pb_clear_range where
  "no_clear_range = \<lparr>cr_begin_key = [], cr_end_key = []\<rparr>"

definition no_mutation :: pb_mutation where
  "no_mutation = \<lparr>pm_version_index = None, pm_mutation = None\<rparr>"

definition no_version_end :: pb_version_end where
  "no_version_end = \<lparr>pve_fdb_version = 0, pve_total_mutations = 0, pve_bridge_timestamp = None\<rparr>"

definition no_record :: pb_record where
  "no_record = \<lparr>pr_stream_name = [], pr_bridge_timestamp = None, pr_record = None\<rparr>"

fun timestamp_step :: "field \<Rightarrow> pb_timestamp \<Rightarrow> pb_timestamp option" where
  "timestamp_step (n, WVarint v) t =
     Some (if n = 1 then t\<lparr>ts_seconds := signed_of 64 v\<rparr>
           else if n = 2 then t\<lparr>ts_nanos := signed_of 32 v\<rparr> else t)"
| "timestamp_step f t = Some t"

fun version_index_step :: "field \<Rightarrow> pb_version_index \<Rightarrow> pb_version_index option" where
  "version_index_step (n, WVarint v) m =
     Some (if n = 1 then m\<lparr>pvi_fdb_version := unsigned_of 64 v\<rparr>
           else if n = 2 then m\<lparr>pvi_sequence_no := unsigned_of 32 v\<rparr> else m)"
| "version_index_step f m = Some m"

fun single_key_step :: "field \<Rightarrow> pb_single_key_mutation \<Rightarrow> pb_single_key_mutation option" where
  "single_key_step (n, WVarint v) m =
     Some (if n = 3 then m\<lparr>sk_mutation_type := signed_of 32 v\<rparr> else m)"
| "single_key_step (n, WLen b) m =
     Some (if n = 1 then m\<lparr>sk_key := b\<rparr> else if n = 2 then m\<lparr>sk_value := b\<rparr> else m)"
| "single_key_step f m = Some m"

fun clear_range_step :: "field \<Rightarrow> pb_clear_range \<Rightarrow> pb_clear_range option" where
  "clear_range_step (n, WLen b) m =
     Some (if n = 1 then m\<lparr>cr_begin_key := b\<rparr> else if n = 2 then m\<lparr>cr_end_key := b\<rparr> else m)"
| "clear_range_step f m = Some m"

fun mutation_step :: "field \<Rightarrow> pb_mutation \<Rightarrow> pb_mutation option" where
  "mutation_step (n, WLen b) m =
     (if n = 1 then
        map_option (\<lambda>v. m\<lparr>pm_version_index := Some v\<rparr>)
          (read_into version_index_step b
            (case pm_version_index m of None \<Rightarrow> no_version_index | Some v \<Rightarrow> v))
      else if n = 2 then
        map_option (\<lambda>s. m\<lparr>pm_mutation := Some (SingleKeyArm s)\<rparr>)
          (read_into single_key_step b
            (case pm_mutation m of Some (SingleKeyArm s) \<Rightarrow> s | _ \<Rightarrow> no_single_key))
      else if n = 3 then
        map_option (\<lambda>c. m\<lparr>pm_mutation := Some (ClearRangeArm c)\<rparr>)
          (read_into clear_range_step b
            (case pm_mutation m of Some (ClearRangeArm c) \<Rightarrow> c | _ \<Rightarrow> no_clear_range))
      else Some m)"
| "mutation_step f m = Some m"

fun version_end_step :: "field \<Rightarrow> pb_version_end \<Rightarrow> pb_version_end option" where
  "version_end_step (n, WVarint v) m =
     Some (if n = 1 then m\<lparr>pve_fdb_version := unsigned_of 64 v\<rparr>
           else if n = 2 then m\<lparr>pve_total_mutations := unsigned_of 32 v\<rparr> else m)"
| "version_end_step (n, WLen b) m =
     (if n = 3 then
        map_option (\<lambda>t. m\<lparr>pve_bridge_timestamp := Some t\<rparr>)
          (read_into timestamp_step b
            (case pve_bridge_timestamp m of None \<Rightarrow> no_timestamp | Some t \<Rightarrow> t))
      else Some m)"
| "version_end_step f m = Some m"

fun batch_step :: "field \<Rightarrow> pb_mutation list \<Rightarrow> pb_mutation list option" where
  "batch_step (n, WLen b) ms =
     (if n = 1 then map_option (\<lambda>m. ms @ [m]) (read_into mutation_step b no_mutation)
      else Some ms)"
| "batch_step f ms = Some ms"

fun record_step :: "field \<Rightarrow> pb_record \<Rightarrow> pb_record option" where
  "record_step (n, WLen b) m =
     (if n = 1 then map_option (\<lambda>s. m\<lparr>pr_stream_name := s\<rparr>) (utf8_decode b)
      else if n = 2 then
        map_option (\<lambda>t. m\<lparr>pr_bridge_timestamp := Some t\<rparr>)
          (read_into timestamp_step b
            (case pr_bridge_timestamp m of None \<Rightarrow> no_timestamp | Some t \<Rightarrow> t))
      else if n = 3 then
        map_option (\<lambda>u. m\<lparr>pr_record := Some (MutationArm u)\<rparr>)
          (read_into mutation_step b
            (case pr_record m of Some (MutationArm u) \<Rightarrow> u | _ \<Rightarrow> no_mutation))
      else if n = 4 then
        map_option (\<lambda>e. m\<lparr>pr_record := Some (VersionEndArm e)\<rparr>)
          (read_into version_end_step b
            (case pr_record m of Some (VersionEndArm e) \<Rightarrow> e | _ \<Rightarrow> no_version_end))
      else if n = 5 then
        map_option (\<lambda>ms. m\<lparr>pr_record := Some (BatchArm ms)\<rparr>)
          (read_into batch_step b
            (case pr_record m of Some (BatchArm ms) \<Rightarrow> ms | _ \<Rightarrow> []))
      else Some m)"
| "record_step f m = Some m"

definition proto3 :: protobuf where
  "proto3 = \<lparr>SerializeToString = (\<lambda>r. emit (record_fields r)),
     ParseFromString = (\<lambda>bs. if length bs < 2 ^ 31 then read_into record_step bs no_record else None),
     ByteSize = (\<lambda>m. length (emit (mutation_fields m)))\<rparr>"

section \<open>Parsing inverts serialization\<close>

lemma small_bytes_field:
  "0 < n \<Longrightarrow> n < 2 ^ 29 \<Longrightarrow> length (emit (bytes_field n b)) < 2 ^ 64 \<Longrightarrow>
     list_all small_field (bytes_field n b)"
  by (auto simp: bytes_field_def small_field_def)

lemma small_len: "0 < n \<Longrightarrow> n < 2 ^ 29 \<Longrightarrow> length b < 2 ^ 64 \<Longrightarrow> small_field (n, WLen b)"
  by (simp add: small_field_def)

lemmas field_defs = timestamp_fields_def version_index_fields_def single_key_fields_def
  clear_range_fields_def mutation_fields_def version_end_fields_def batch_fields_def
  record_fields_def message_field_def

lemma read_into_emit:
  "list_all small_field fs \<Longrightarrow> read_into f (emit fs) m = fold_fields f fs m"
  by (simp add: read_into_def read_fields_emit)

lemma small_timestamp: "list_all small_field (timestamp_fields t)"
  by (simp add: timestamp_fields_def small_uint_field)

lemma small_version_index: "list_all small_field (version_index_fields v)"
  by (simp add: version_index_fields_def small_uint_field)

lemma read_timestamp:
  "wf_timestamp t \<Longrightarrow> read_into timestamp_step (emit (timestamp_fields t)) no_timestamp = Some t"
  unfolding read_into_emit [OF small_timestamp]
  by (cases t)
    (auto simp: timestamp_fields_def uint_field_def scalar_inverses wf_defs no_timestamp_def)

lemma read_version_index:
  "wf_version_index v \<Longrightarrow>
     read_into version_index_step (emit (version_index_fields v)) no_version_index = Some v"
  unfolding read_into_emit [OF small_version_index]
  by (cases v)
    (auto simp: version_index_fields_def uint_field_def scalar_inverses wf_defs
      no_version_index_def)

lemma read_single_key:
  assumes "wf_mutation_arm (SingleKeyArm s)" "length (emit (single_key_fields s)) < 2 ^ 64"
  shows "read_into single_key_step (emit (single_key_fields s)) no_single_key = Some s"
proof -
  have "list_all small_field (single_key_fields s)"
    using assms(2) by (auto simp: single_key_fields_def small_uint_field intro!: small_bytes_field)
  then show ?thesis
    using assms(1) unfolding read_into_emit [OF \<open>list_all small_field (single_key_fields s)\<close>]
    by (cases s) (auto simp: single_key_fields_def uint_field_def bytes_field_def
        scalar_inverses no_single_key_def)
qed

lemma read_clear_range:
  assumes "length (emit (clear_range_fields c)) < 2 ^ 64"
  shows "read_into clear_range_step (emit (clear_range_fields c)) no_clear_range = Some c"
proof -
  have "list_all small_field (clear_range_fields c)"
    using assms by (auto simp: clear_range_fields_def intro!: small_bytes_field)
  then show ?thesis
    unfolding read_into_emit [OF \<open>list_all small_field (clear_range_fields c)\<close>]
    by (cases c) (auto simp: clear_range_fields_def bytes_field_def no_clear_range_def)
qed

lemma read_mutation:
  assumes "wf_mutation m" "length (emit (mutation_fields m)) < 2 ^ 64"
  shows "read_into mutation_step (emit (mutation_fields m)) no_mutation = Some m"
proof -
  obtain vi arm where m: "m = \<lparr>pm_version_index = vi, pm_mutation = arm\<rparr>"
    by (cases m)
  have small: "list_all small_field (mutation_fields m)"
    using assms(2)
    by (cases arm rule: mutation_arm_fields.cases)
      (auto simp: m mutation_fields_def message_field_def intro!: small_len split: option.splits)
  have v: "read_into version_index_step (emit (version_index_fields v)) no_version_index = Some v"
    if "vi = Some v" for v
    using assms(1) that by (auto simp: m wf_mutation_def intro: read_version_index)
  have s: "read_into single_key_step (emit (single_key_fields s)) no_single_key = Some s"
    if "arm = Some (SingleKeyArm s)" for s
    using assms that by (intro read_single_key) (auto simp: m wf_mutation_def mutation_fields_def)
  have c: "read_into clear_range_step (emit (clear_range_fields c)) no_clear_range = Some c"
    if "arm = Some (ClearRangeArm c)" for c
    using assms that by (intro read_clear_range) (auto simp: m mutation_fields_def)
  show ?thesis
    using v s c unfolding read_into_emit [OF small]
    by (cases arm rule: mutation_arm_fields.cases; cases vi)
      (auto simp: m mutation_fields_def message_field_def no_mutation_def)
qed

lemma read_version_end:
  assumes "wf_version_end e" "length (emit (version_end_fields e)) < 2 ^ 64"
  shows "read_into version_end_step (emit (version_end_fields e)) no_version_end = Some e"
proof -
  have small: "list_all small_field (version_end_fields e)"
    using assms(2)
    by (auto simp: version_end_fields_def message_field_def small_uint_field intro!: small_len
        split: option.splits)
  show ?thesis
    using assms(1) unfolding read_into_emit [OF small]
    by (cases e, cases "pve_bridge_timestamp e")
      (auto simp: version_end_fields_def message_field_def uint_field_def scalar_inverses
        wf_version_end_def no_version_end_def read_timestamp)
qed

lemma fold_batch:
  "list_all wf_mutation ms \<Longrightarrow> length (emit (batch_fields ms)) < 2 ^ 64 \<Longrightarrow>
     fold_fields batch_step (batch_fields ms) acc = Some (acc @ ms)"
proof (induction ms arbitrary: acc)
  case (Cons m ms)
  then have "read_into mutation_step (emit (mutation_fields m)) no_mutation = Some m"
    by (intro read_mutation) (auto simp: batch_fields_def)
  with Cons show ?case
    by (simp add: batch_fields_def)
qed (simp add: batch_fields_def)

lemma read_batch:
  assumes "list_all wf_mutation ms" "length (emit (batch_fields ms)) < 2 ^ 64"
  shows "read_into batch_step (emit (batch_fields ms)) [] = Some ms"
proof -
  have "list_all small_field (batch_fields ms)"
    using assms(2) by (induction ms) (auto simp: batch_fields_def intro: small_len)
  then show ?thesis
    using assms unfolding read_into_emit [OF \<open>list_all small_field (batch_fields ms)\<close>]
    by (simp add: fold_batch)
qed

lemma read_record:
  assumes "wf_record r" "length (emit (record_fields r)) < 2 ^ 64"
  shows "read_into record_step (emit (record_fields r)) no_record = Some r"
proof -
  obtain n t arm where r: "r = \<lparr>pr_stream_name = n, pr_bridge_timestamp = t, pr_record = arm\<rparr>"
    by (cases r)
  obtain b where b: "utf8_encode n = Some b"
    using assms(1) by (auto simp: r wf_record_def)
  have small: "list_all small_field (record_fields r)"
    using assms(2)
    by (cases arm rule: record_arm_fields.cases)
      (auto simp: r record_fields_def message_field_def intro!: small_len small_bytes_field
        split: option.splits)
  have name: "fold_fields record_step (bytes_field 1 b @ fs) no_record =
      fold_fields record_step fs (no_record\<lparr>pr_stream_name := n\<rparr>)" for fs
    using utf8_decode_encode [OF b] b
    by (auto simp: bytes_field_def no_record_def utf8_encode_Nil_iff)
  have ts: "read_into timestamp_step (emit (timestamp_fields x)) no_timestamp = Some x"
    if "t = Some x" for x
    using assms(1) that by (auto simp: r wf_record_def intro: read_timestamp)
  have arms: "read_into mutation_step (emit (mutation_fields m)) no_mutation = Some m"
    if "arm = Some (MutationArm m)" for m
    using assms that by (intro read_mutation) (auto simp: r wf_record_def record_fields_def)
  have arme: "read_into version_end_step (emit (version_end_fields e)) no_version_end = Some e"
    if "arm = Some (VersionEndArm e)" for e
    using assms that by (intro read_version_end) (auto simp: r wf_record_def record_fields_def)
  have armb: "read_into batch_step (emit (batch_fields ms)) [] = Some ms"
    if "arm = Some (BatchArm ms)" for ms
    using assms that by (intro read_batch) (auto simp: r wf_record_def record_fields_def)
  have "fold_fields record_step (message_field 2 timestamp_fields t @ record_arm_fields arm)
      (no_record\<lparr>pr_stream_name := n\<rparr>) = Some r"
    using ts arms arme armb
    by (cases arm rule: record_arm_fields.cases; cases t)
      (auto simp: r message_field_def no_record_def)
  with name show ?thesis
    unfolding read_into_emit [OF small] by (simp add: record_fields_def r b)
qed

section \<open>Parsed messages are in range\<close>

lemma fold_fields_invariant:
  assumes "fold_fields f fs m = Some m'" "P m" "\<And>x m m'. f x m = Some m' \<Longrightarrow> P m \<Longrightarrow> P m'"
  shows "P m'"
  using assms(1,2) by (induction fs arbitrary: m) (auto split: option.splits intro: assms(3))

lemma read_into_invariant:
  assumes "read_into f bs m = Some m'" "P m" "\<And>x m m'. f x m = Some m' \<Longrightarrow> P m \<Longrightarrow> P m'"
  shows "P m'"
  using assms by (auto simp: read_into_def intro: fold_fields_invariant split: option.splits)

lemma into_timestamp_wf:
  "read_into timestamp_step bs m = Some m' \<Longrightarrow> wf_timestamp m \<Longrightarrow> wf_timestamp m'"
  by (erule read_into_invariant, assumption, erule timestamp_step.elims)
    (auto simp: wf_timestamp_def signed_of_bounds [simplified] split: if_splits)

lemma into_version_index_wf:
  "read_into version_index_step bs m = Some m' \<Longrightarrow> wf_version_index m \<Longrightarrow> wf_version_index m'"
  by (erule read_into_invariant, assumption, erule version_index_step.elims)
    (auto simp: wf_version_index_def unsigned_of_bounds [of 64, simplified]
      unsigned_of_bounds [of 32, simplified] split: if_splits)

lemma into_single_key_wf:
  "read_into single_key_step bs m = Some m' \<Longrightarrow> wf_mutation_arm (SingleKeyArm m) \<Longrightarrow>
     wf_mutation_arm (SingleKeyArm m')"
  by (erule read_into_invariant [where P = "\<lambda>m. wf_mutation_arm (SingleKeyArm m)"], assumption,
      erule single_key_step.elims)
    (auto simp: signed_of_bounds [simplified] split: if_splits)

lemma mutation_step_wf: "mutation_step f m = Some m' \<Longrightarrow> wf_mutation m \<Longrightarrow> wf_mutation m'"
proof (cases "(f, m)" rule: mutation_step.cases)
  case (1 n b x)
  assume step: "mutation_step f m = Some m'" and wf: "wf_mutation m"
  have v: "wf_version_index (case pm_version_index x of None \<Rightarrow> no_version_index | Some v \<Rightarrow> v)"
    using wf 1 by (auto simp: wf_mutation_def no_version_index_def wf_version_index_def
        split: option.splits)
  have s: "wf_mutation_arm (SingleKeyArm
      (case pm_mutation x of Some (SingleKeyArm s) \<Rightarrow> s | _ \<Rightarrow> no_single_key))"
    using wf 1 by (auto simp: wf_mutation_def no_single_key_def
        split: option.splits pb_mutation_arm.splits)
  show "wf_mutation m'"
    using step wf 1 into_version_index_wf [OF _ v] into_single_key_wf [OF _ s]
    by (auto simp: wf_mutation_def simp del: wf_mutation_arm.simps(1) split: if_splits)
qed auto

lemma into_mutation_wf:
  "read_into mutation_step bs m = Some m' \<Longrightarrow> wf_mutation m \<Longrightarrow> wf_mutation m'"
  by (erule read_into_invariant) (auto intro: mutation_step_wf)

lemma wf_no_mutation: "wf_mutation no_mutation"
  by (simp add: wf_mutation_def no_mutation_def)

lemma batch_step_wf:
  "batch_step f ms = Some ms' \<Longrightarrow> list_all wf_mutation ms \<Longrightarrow> list_all wf_mutation ms'"
  by (cases "(f, ms)" rule: batch_step.cases)
    (auto split: if_splits intro: into_mutation_wf [OF _ wf_no_mutation])

lemma into_batch_wf:
  "read_into batch_step bs ms = Some ms' \<Longrightarrow> list_all wf_mutation ms \<Longrightarrow> list_all wf_mutation ms'"
  by (erule read_into_invariant) (auto intro: batch_step_wf)

lemma wf_no_timestamp: "wf_timestamp no_timestamp"
  by (simp add: wf_timestamp_def no_timestamp_def)

lemma wf_default_timestamp:
  "pred_option wf_timestamp t \<Longrightarrow>
     wf_timestamp (case t of None \<Rightarrow> no_timestamp | Some x \<Rightarrow> x)"
  by (auto simp: wf_no_timestamp split: option.splits)

lemma version_end_step_wf:
  "version_end_step f m = Some m' \<Longrightarrow> wf_version_end m \<Longrightarrow> wf_version_end m'"
  by (cases "(f, m)" rule: version_end_step.cases)
    (auto simp: wf_version_end_def unsigned_of_bounds [of 64, simplified]
      unsigned_of_bounds [of 32, simplified] split: if_splits
      dest: into_timestamp_wf [OF _ wf_default_timestamp])

lemma into_version_end_wf:
  "read_into version_end_step bs m = Some m' \<Longrightarrow> wf_version_end m \<Longrightarrow> wf_version_end m'"
  by (erule read_into_invariant) (auto intro: version_end_step_wf)

lemma wf_no_version_end: "wf_version_end no_version_end"
  by (simp add: wf_version_end_def no_version_end_def)

text \<open>The value an embedded arm is merged into: the current arm or an empty message.\<close>

lemma arm_defaults_wf:
  assumes "pred_option wf_record_arm arm"
  shows "wf_mutation (case arm of Some (MutationArm u) \<Rightarrow> u | _ \<Rightarrow> no_mutation)"
    and "wf_version_end (case arm of Some (VersionEndArm e) \<Rightarrow> e | _ \<Rightarrow> no_version_end)"
    and "list_all wf_mutation (case arm of Some (BatchArm ms) \<Rightarrow> ms | _ \<Rightarrow> [])"
  using assms by (auto simp: wf_no_mutation wf_no_version_end split: option.splits pb_record_arm.splits)

lemma record_step_wf:
  assumes "record_step f m = Some m'" "wf_record m"
  shows "wf_record m'"
proof (cases "(f, m)" rule: record_step.cases)
  case (1 n b x)
  have ts: "pred_option wf_timestamp (pr_bridge_timestamp m)"
    and arm: "pred_option wf_record_arm (pr_record m)"
    using assms(2) by (simp_all add: wf_record_def)
  consider "n = 1" | "n = 2" | "n = 3" | "n = 4" | "n = 5" | "n \<notin> {1, 2, 3, 4, 5}" by auto
  then show ?thesis
  proof cases
    case 6
    with 1 assms show ?thesis by auto
  next
    case n1: 1
    with 1 assms show ?thesis
      by (auto simp: wf_record_def dest: utf8_decode_encodable)
  next
    case 2
    with 1 assms show ?thesis
      using into_timestamp_wf [OF _ wf_default_timestamp [OF ts]] by (auto simp: wf_record_def)
  next
    case 3
    with 1 assms show ?thesis
      using into_mutation_wf [OF _ arm_defaults_wf(1) [OF arm]] by (auto simp: wf_record_def)
  next
    case 4
    with 1 assms show ?thesis
      using into_version_end_wf [OF _ arm_defaults_wf(2) [OF arm]] by (auto simp: wf_record_def)
  next
    case 5
    with 1 assms show ?thesis
      using into_batch_wf [OF _ arm_defaults_wf(3) [OF arm]] by (auto simp: wf_record_def)
  qed
qed (use assms in auto)

lemma wf_no_record: "wf_record no_record"
  by (simp add: wf_record_def no_record_def)

section \<open>The runtime's laws\<close>

lemma emit_batch_length:
  "length (emit (batch_fields ms)) =
     (\<Sum>m\<leftarrow>ms. field_length 1 (length (emit (mutation_fields m))))"
  by (induction ms) (auto simp: batch_fields_def field_length_def)

interpretation proto3: protobuf_runtime proto3
proof
  show "ParseFromString proto3 (SerializeToString proto3 r) = Some r"
    if "wf_record r" "length (SerializeToString proto3 r) < 2 ^ 31" for r
    using that read_record [of r] by (simp add: proto3_def)
  show "wf_record r" if "ParseFromString proto3 data = Some r" for data r
    using that wf_no_record
    by (auto simp: proto3_def split: if_splits intro: record_step_wf
        elim!: read_into_invariant [where P = wf_record])
  show "length (SerializeToString proto3 (r\<lparr>pr_record := Some (BatchArm ms)\<rparr>)) =
      length (SerializeToString proto3 (r\<lparr>pr_record := None\<rparr>)) +
      field_length 5 (\<Sum>m\<leftarrow>ms. field_length 1 (ByteSize proto3 m))" for r ms
    by (simp add: proto3_def record_fields_def emit_batch_length field_length_def)
qed

end
