(* ===== verification/Record_Format.thy ===== *)
theory Record_Format
  imports Version_Group Proto3
begin

text \<open>
  The guarantees of the serialization package as a whole. Each is stated over any runtime that
  keeps the laws of \<open>protobuf_runtime\<close>; the examples run them on \<open>proto3\<close> with the values of
  the repository's golden-byte tests (\<open>tests/serialization/test_golden_bytes.py\<close>).
\<close>

section \<open>The values of the golden-byte tests\<close>

definition golden_stream :: pystr where
  "golden_stream = [111, 114, 100, 101, 114, 115]"

definition golden_ts :: int where
  "golden_ts = 1700000000123456789"

definition golden_version :: int where
  "golden_version = 2 ^ 40 + 7"

definition native :: "int \<Rightarrow> bytes \<Rightarrow> bytes \<Rightarrow> pyval" where
  "native c p1 p2 = PObj [(''type'', PInt c), (''param1'', PBytes p1), (''param2'', PBytes p2)]"

definition golden_add :: pyval where
  "golden_add = native 2 [0x15, 0x01, 0x6B, 0x00] [0xFF, 0x00, 0x76]"

definition golden_clear :: pyval where
  "golden_clear = native 1 [0x61] [0x62, 0xFF]"

lemmas golden_defs = golden_stream_def golden_ts_def golden_version_def native_def
  golden_add_def golden_clear_def

lemma native_of_native: "0 \<le> c \<Longrightarrow> c \<le> max_type_code \<Longrightarrow> native_of (native c p1 p2) (c, p1, p2)"
  by (simp add: native_of_def native_def)

lemma golden_natives:
  "native_of golden_add (2, [0x15, 0x01, 0x6B, 0x00], [0xFF, 0x00, 0x76])"
  "native_of golden_clear (1, [0x61], [0x62, 0xFF])"
  by (simp_all add: golden_add_def golden_clear_def native_of_native max_type_code_def)

lemma golden_utf8: "utf8_encode golden_stream = Some [0x6F, 0x72, 0x64, 0x65, 0x72, 0x73]"
  by (simp add: golden_stream_def utf8_char_def)

lemma golden_envelope: "valid_envelope golden_stream golden_ts"
  using golden_utf8 by (simp add: valid_envelope_def golden_ts_def golden_stream_def limit_defs)

lemmas proto3_eval = proto3_def wire_record_def record_message_def version_end_message_def
  mutation_message_def Let_def record_fields_def message_field_def version_index_fields_def
  timestamp_fields_def single_key_fields_def clear_range_fields_def mutation_fields_def
  version_end_fields_def batch_fields_def uint_field_def bytes_field_def wire_int_def timestamp_def
  varint.simps

lemma golden_mutation_bytes:
  "serialize_mutation proto3 golden_add (PInt golden_version) (PInt 3) (PStr golden_stream)
     (PInt golden_ts) = Inr
   [0x0a, 0x06, 0x6f, 0x72, 0x64, 0x65, 0x72, 0x73, 0x12, 0x0b, 0x08, 0x80, 0xe2, 0xcf, 0xaa, 0x06,
    0x10, 0x95, 0x9a, 0xef, 0x3a, 0x1a, 0x1a, 0x0a, 0x09, 0x08, 0x87, 0x80, 0x80, 0x80, 0x80, 0x20,
    0x10, 0x03, 0x12, 0x0d, 0x0a, 0x04, 0x15, 0x01, 0x6b, 0x00, 0x12, 0x03, 0xff, 0x00, 0x76, 0x18,
    0x02]"
proof -
  have "serialize_mutation proto3 golden_add (PInt golden_version) (PInt 3) (PStr golden_stream)
     (PInt golden_ts) = Inr (wire_record proto3 golden_stream golden_ts (Some (MutationArm
       (mutation_message 2 [0x15, 0x01, 0x6B, 0x00] [0xFF, 0x00, 0x76] golden_version 3))))"
    using golden_envelope golden_natives(1) unfolding serialize_mutation_Inr
    by (auto simp: valid_version_def golden_version_def limit_defs)
  then show ?thesis
    by (simp add: proto3_eval golden_utf8 golden_ts_def golden_version_def)
qed

lemma golden_batch_bytes:
  "serialize_batch proto3 (Yields [golden_add, golden_clear] None) (PInt golden_version) (PInt 3)
     (PStr golden_stream) (PInt golden_ts) = Inr
   [0x0a, 0x06, 0x6f, 0x72, 0x64, 0x65, 0x72, 0x73, 0x12, 0x0b, 0x08, 0x80, 0xe2, 0xcf, 0xaa, 0x06,
    0x10, 0x95, 0x9a, 0xef, 0x3a, 0x2a, 0x32, 0x0a, 0x1a, 0x0a, 0x09, 0x08, 0x87, 0x80, 0x80, 0x80,
    0x80, 0x20, 0x10, 0x03, 0x12, 0x0d, 0x0a, 0x04, 0x15, 0x01, 0x6b, 0x00, 0x12, 0x03, 0xff, 0x00,
    0x76, 0x18, 0x02, 0x0a, 0x14, 0x0a, 0x09, 0x08, 0x87, 0x80, 0x80, 0x80, 0x80, 0x20, 0x10, 0x04,
    0x1a, 0x07, 0x0a, 0x01, 0x61, 0x12, 0x02, 0x62, 0xff]"
proof -
  have "serialize_batch proto3 (Yields [golden_add, golden_clear] None) (PInt golden_version)
     (PInt 3) (PStr golden_stream) (PInt golden_ts) = Inr (wire_record proto3 golden_stream golden_ts
       (Some (BatchArm (mutation_messages golden_version 3
         [(2, [0x15, 0x01, 0x6B, 0x00], [0xFF, 0x00, 0x76]), (1, [0x61], [0x62, 0xFF])]))))"
    using golden_envelope golden_natives unfolding serialize_batch_Inr
    by (intro exI conjI) (auto simp: valid_version_def golden_version_def limit_defs)
  then show ?thesis
    by (simp add: proto3_eval golden_utf8 golden_ts_def golden_version_def)
qed

lemma golden_version_end_bytes:
  "serialize_version_end proto3 (PInt golden_version) (PInt 5) (PStr golden_stream)
     (PInt golden_ts) = Inr
   [0x0a, 0x06, 0x6f, 0x72, 0x64, 0x65, 0x72, 0x73, 0x12, 0x0b, 0x08, 0x80, 0xe2, 0xcf, 0xaa, 0x06,
    0x10, 0x95, 0x9a, 0xef, 0x3a, 0x22, 0x16, 0x08, 0x87, 0x80, 0x80, 0x80, 0x80, 0x20, 0x10, 0x05,
    0x1a, 0x0b, 0x08, 0x80, 0xe2, 0xcf, 0xaa, 0x06, 0x10, 0x95, 0x9a, 0xef, 0x3a]"
proof -
  have "serialize_version_end proto3 (PInt golden_version) (PInt 5) (PStr golden_stream)
     (PInt golden_ts) = Inr (SerializeToString proto3
       (version_end_message golden_stream golden_ts golden_version 5))"
    using golden_envelope unfolding serialize_version_end_Inr
    by (auto simp: valid_version_def golden_version_def limit_defs)
  then show ?thesis
    by (simp add: proto3_eval golden_utf8 golden_ts_def golden_version_def)
qed

text \<open>
  The two mutations as a version group. The envelope is 21 bytes, a record of the first alone 49,
  of the second alone 45, of both 71, and the version end 45: a budget of 60 gives one batch
  per mutation, a budget of 48 rejects the first.
\<close>

definition golden_group :: "int \<Rightarrow> exn + bytes list" where
  "golden_group mx = serialize_version_group proto3 (Yields [golden_add, golden_clear] None)
     (PInt golden_version) (PInt mx) (PStr golden_stream) (PInt golden_ts)"

lemma golden_messages:
  "map (ByteSize proto3) (mutation_messages golden_version 0
     [(2, [0x15, 0x01, 0x6B, 0x00], [0xFF, 0x00, 0x76]), (1, [0x61], [0x62, 0xFF])]) = [24, 20]"
  "length (wire_record proto3 golden_stream golden_ts None) = 21"
  "length (SerializeToString proto3
     (version_end_message golden_stream golden_ts golden_version 2)) = 45"
  by (simp_all add: proto3_eval golden_utf8 golden_ts_def golden_version_def)

lemma small_framed: "0 < n \<Longrightarrow> n < 128 \<Longrightarrow> framed_bytes t n = t + 1 + n"
  by (simp add: framed_bytes_def varint_bytes_varint varint.simps)

lemma golden_slices:
  "slice_loop proto3 21 60 0 [] 0 0 (mutation_messages golden_version 0
     [(2, [0x15, 0x01, 0x6B, 0x00], [0xFF, 0x00, 0x76]), (1, [0x61], [0x62, 0xFF])]) =
   Inr ([(0, 1)], 1)"
  "slice_loop proto3 21 48 0 [] 0 0 (mutation_messages golden_version 0
     [(2, [0x15, 0x01, 0x6B, 0x00], [0xFF, 0x00, 0x76]), (1, [0x61], [0x62, 0xFF])]) =
   Inl (RecordTooLargeError (Some 0) 49 48)"
  using golden_messages(1)
  by (simp_all add: small_framed batch_tag_bytes_eq mutations_tag_bytes_eq Let_def)

lemma golden_items:
  "list_all2 native_of [golden_add, golden_clear]
     [(2, [0x15, 0x01, 0x6B, 0x00], [0xFF, 0x00, 0x76]), (1, [0x61], [0x62, 0xFF])]"
  by (simp add: golden_natives)

lemma golden_group_60: "\<exists>records. golden_group 60 = Inr records \<and> length records = 3"
proof -
  have "golden_group 60 = Inr (map (\<lambda>(a, b). wire_record proto3 golden_stream golden_ts
      (Some (BatchArm (py_slice a b (mutation_messages golden_version 0
         [(2, [0x15, 0x01, 0x6B, 0x00], [0xFF, 0x00, 0x76]), (1, [0x61], [0x62, 0xFF])])))))
      [(0, 1), (1, 2)] @ [SerializeToString proto3
        (version_end_message golden_stream golden_ts golden_version 2)])"
    unfolding golden_group_def
    using golden_slices(1) golden_messages(2,3)
      serialize_version_group_ok [OF _ _ golden_envelope golden_items, of golden_version 60 proto3
        "[(0, 1)]" 1]
    by (simp add: valid_version_def golden_version_def limit_defs all_slices_def
        numeral_2_eq_2 del: slice_loop.simps mutation_messages.simps)
  then show ?thesis by simp
qed

section \<open>Version groups\<close>

text \<open>C1: Reading back the records of a version group gives exactly its mutations: the batches, in
  record order, carry the native mutations in native order with sequence numbers 0, 1, 2, ...
  under the group's version, and the last record is a version end with their number. Every
  record names the stream and carries the timestamp.\<close>

theorem version_group_roundtrip:
  assumes "protobuf_runtime pb"
    and "serialize_version_group pb (Yields items None) (PInt v) (PInt mx) (PStr n) (PInt t) =
      Inr records"
    and "list_all2 native_of items ns" and "mx < 2 ^ 31"
  shows "\<exists>outs ve. mapE (\<lambda>data. deserialize_record pb (PBytes data)) records = Inr (outs @ [ve]) \<and>
    records_mutations outs = tagged v 0 ns \<and>
    (\<forall>r \<in> set outs. \<exists>us. rec_body r = BodyBatch us) \<and>
    (\<forall>r \<in> set (outs @ [ve]). rec_stream_name r = n \<and> rec_bridge_timestamp_ns r = Some t) \<and>
    rec_body ve = BodyVersionEnd \<lparr>ve_fdb_version = v, ve_total_mutations = int (length items),
      ve_bridge_timestamp_ns = Some t\<rparr>"
  using assms by (rule protobuf_runtime.group_roundtrip)

theorem version_group_roundtrip_witness:
  "\<exists>records outs ve. golden_group 60 = Inr records \<and> length records = 3 \<and>
    mapE (\<lambda>data. deserialize_record proto3 (PBytes data)) records = Inr (outs @ [ve]) \<and>
    records_mutations outs = tagged golden_version 0
      [(2, [0x15, 0x01, 0x6B, 0x00], [0xFF, 0x00, 0x76]), (1, [0x61], [0x62, 0xFF])]"
proof -
  obtain records where r: "golden_group 60 = Inr records" "length records = 3"
    using golden_group_60 by blast
  show ?thesis
    using version_group_roundtrip [OF proto3.protobuf_runtime_axioms
        r(1) [unfolded golden_group_def] golden_items] r by auto
qed

text \<open>C21: No returned record of a version group exceeds \<open>max_record_bytes\<close>, although the function
  only computes the sizes of the batches and never measures them.\<close>

theorem version_group_fits:
  assumes "protobuf_runtime pb"
    and "serialize_version_group pb ms v (PInt mx) n t = Inr records" and "r \<in> set records"
  shows "int (length r) \<le> mx"
  using assms by (rule protobuf_runtime.group_record_fits)

theorem version_group_fits_witness:
  "\<exists>records. golden_group 60 = Inr records \<and> length records = 3 \<and>
    (\<forall>r \<in> set records. int (length r) \<le> 60)"
  using golden_group_60 version_group_fits [OF proto3.protobuf_runtime_axioms]
  unfolding golden_group_def by blast

text \<open>C22: The batch records are the records \<open>serialize_batch\<close> gives for consecutive non-empty
  slices that cover the group in order, followed by the record \<open>serialize_version_end\<close> gives for
  the whole count; and slicing is greedy: a slice that is not the last one could not have taken
  the next mutation, since its record would then exceed \<open>max_record_bytes\<close>.\<close>

theorem version_group_slices:
  assumes "protobuf_runtime pb"
    and "serialize_version_group pb (Yields items None) (PInt v) (PInt mx) (PStr n) (PInt t) =
      Inr records"
  shows "\<exists>slices batches ve. records = batches @ [ve] \<and> chain 0 slices (length items) \<and>
    list_all2 (\<lambda>(a, b) r. serialize_batch pb (Yields (py_slice a b items) None) (PInt v)
      (PInt (int a)) (PStr n) (PInt t) = Inr r) slices batches \<and>
    serialize_version_end pb (PInt v) (PInt (int (length items))) (PStr n) (PInt t) = Inr ve \<and>
    (\<forall>(a, b) \<in> set slices. b < length items \<longrightarrow>
      (\<exists>r. serialize_batch pb (Yields (py_slice a (Suc b) items) None) (PInt v) (PInt (int a))
        (PStr n) (PInt t) = Inr r \<and> mx < int (length r)))"
proof -
  obtain ns done_slices start where
    ok: "valid_version v" "valid_envelope n t" "list_all2 native_of items ns"
      "int (length items) \<le> max_total_mutations"
    and loop: "slice_loop pb (length (wire_record pb n t None)) mx 0 [] 0 0
      (mutation_messages v 0 ns) = Inr (done_slices, start)"
    and records: "records = map (\<lambda>(a, b). wire_record pb n t
        (Some (BatchArm (py_slice a b (mutation_messages v 0 ns)))))
      (all_slices (mutation_messages v 0 ns) done_slices start)
      @ [SerializeToString pb (version_end_message n t v (int (length items)))]"
    using assms(2) by (auto simp: serialize_version_group_Inr)
  define slices where "slices = all_slices (mutation_messages v 0 ns) done_slices start"
  have len: "length ns = length items"
    using ok(3) by (simp add: list_all2_lengthD)
  have ch: "chain 0 slices (length items)"
    using slice_loop_Inr(1) [OF loop] len by (simp add: slices_def)
  have wf: "list_all wf_mutation (mutation_messages v 0 ns)"
    using ok by (intro wf_mutation_messages natives_codes)
      (auto simp: valid_version_def list_all2_lengthD limit_defs)
  have batch: "serialize_batch pb (Yields (py_slice a b items) None) (PInt v) (PInt (int a))
      (PStr n) (PInt t) =
    Inr (wire_record pb n t (Some (BatchArm (py_slice a b (mutation_messages v 0 ns)))))"
    if "a < b" "b \<le> length items" for a b
    using ok that by (intro slice_is_batch) auto
  have greedy: "\<exists>r. serialize_batch pb (Yields (py_slice a (Suc b) items) None) (PInt v)
      (PInt (int a)) (PStr n) (PInt t) = Inr r \<and> mx < int (length r)"
    if "(a, b) \<in> set slices" "b < length items" for a b
    using batch [of a "Suc b"] that chain_bounds [OF ch that(1)] len slice_loop_Inr(3) [OF loop, of a b]
      protobuf_runtime.slice_record_length [OF assms(1) ok(2) wf]
    by (auto simp: slices_def)
  have ve: "serialize_version_end pb (PInt v) (PInt (int (length items))) (PStr n) (PInt t) =
      Inr (SerializeToString pb (version_end_message n t v (int (length items))))"
    using ok by (auto simp: serialize_version_end_Inr)
  have "list_all2 (\<lambda>(a, b) r. serialize_batch pb (Yields (py_slice a b items) None) (PInt v)
      (PInt (int a)) (PStr n) (PInt t) = Inr r) slices
    (map (\<lambda>(a, b). wire_record pb n t
        (Some (BatchArm (py_slice a b (mutation_messages v 0 ns))))) slices)"
    using batch by (auto simp: list_all2_conv_all_nth split: prod.split dest!: nth_mem chain_bounds [OF ch])
  with records ch ve greedy show ?thesis
    unfolding slices_def [symmetric] by blast
qed

theorem version_group_slices_witness:
  "\<exists>records slices batches ve. golden_group 60 = Inr records \<and> records = batches @ [ve] \<and>
    chain 0 slices 2 \<and> length batches = 2"
proof -
  obtain records where r: "golden_group 60 = Inr records" "length records = 3"
    using golden_group_60 by blast
  show ?thesis
    using version_group_slices [OF proto3.protobuf_runtime_axioms r(1) [unfolded golden_group_def]] r
    by (auto simp: numeral_2_eq_2)
qed

lemma slice_size_singleton:
  assumes "protobuf_runtime pb" "valid_envelope n t" "list_all wf_mutation ms" "k < length ms"
  shows "slice_size pb (length (wire_record pb n t None)) ms k (Suc k) =
    length (wire_record pb n t (Some (BatchArm [ms ! k])))"
  using protobuf_runtime.slice_record_length [OF assms(1-3), of k "Suc k"] assms(4)
  by (simp add: py_slice_Suc)

text \<open>C23: On checked arguments \<open>serialize_version_group\<close> raises \<open>RecordTooLargeError\<close> with a position
  exactly when some mutation does not fit \<open>max_record_bytes\<close> in a batch of its own; the position is
  that of the first such mutation and \<open>record_bytes\<close> the size its record would have.\<close>

theorem version_group_too_large:
  assumes "protobuf_runtime pb" "valid_version v" "1 \<le> mx" "valid_envelope n t"
    and "list_all2 native_of items ns" "int (length items) \<le> max_total_mutations"
  defines "alone \<equiv> \<lambda>j. length (wire_record pb n t
      (Some (BatchArm [mutation_messages v 0 ns ! j])))"
  shows "serialize_version_group pb (Yields items None) (PInt v) (PInt mx) (PStr n) (PInt t) =
      Inl (RecordTooLargeError (Some k) needed mx') \<longleftrightarrow>
    k < length items \<and> needed = alone k \<and> mx' = mx \<and> mx < int (alone k) \<and>
      (\<forall>j < k. int (alone j) \<le> mx)"
proof -
  let ?ms = "mutation_messages v 0 ns" and ?env = "length (wire_record pb n t None)"
  have len: "length ?ms = length items"
    using assms(5) by (simp add: list_all2_lengthD)
  have wf: "list_all wf_mutation ?ms"
    using assms by (intro wf_mutation_messages natives_codes)
      (auto simp: valid_version_def list_all2_lengthD limit_defs)
  have alone: "slice_size pb ?env ?ms j (Suc j) = alone j" if "j < length items" for j
    using slice_size_singleton [OF assms(1,4) wf] that len by (simp add: alone_def)
  have loop: "slice_loop pb ?env mx 0 [] 0 0 ?ms = Inl e \<longleftrightarrow>
      (\<exists>k < length items. e = RecordTooLargeError (Some k) (alone k) mx \<and> mx < int (alone k) \<and>
        (\<forall>j < k. int (alone j) \<le> mx))" for e
    unfolding slice_loop_Inl len too_large_def
    by (rule ex_cong1, rule conj_cong) (auto simp: alone)
  show ?thesis
  proof (cases "slice_loop pb ?env mx 0 [] 0 0 ?ms")
    case (Inl e)
    then have "serialize_version_group pb (Yields items None) (PInt v) (PInt mx) (PStr n) (PInt t) =
        Inl e"
      using assms by (intro serialize_version_group_too_large) (auto simp: limit_defs)
    then show ?thesis
      using loop [of e] loop [of "RecordTooLargeError (Some k) needed mx'"] Inl by auto
  next
    case (Inr r)
    have "chk_fdb_version (PInt v) = Inr v" "chk_max_record_bytes (PInt mx) = Inr mx"
      "chk_envelope (PStr n) (PInt t) = Inr (n, t)" "chk_natives 0 (Yields items None) = Inr ns"
      using assms by (auto simp: chk_fdb_version_Inr chk_max_record_bytes_Inr chk_envelope_valid
          chk_natives_Inr valid_version_def limit_defs)
    moreover have "serialize_version_end pb (PInt v) (PInt (int (length ns))) (PStr n) (PInt t) =
        Inr (SerializeToString pb (version_end_message n t v (int (length items))))"
      using assms len by (auto simp: serialize_version_end_Inr)
    ultimately have "serialize_version_group pb (Yields items None) (PInt v) (PInt mx) (PStr n)
        (PInt t) \<noteq> Inl (RecordTooLargeError (Some k) needed mx')"
      using Inr by (cases r) (simp add: serialize_version_group_def Let_def)
    then show ?thesis
      using loop [of "RecordTooLargeError (Some k) (alone k) mx"] Inr by auto
  qed
qed

theorem version_group_too_large_witness:
  "golden_group 48 = Inl (RecordTooLargeError (Some 0) 49 48)"
proof -
  have "length (wire_record proto3 golden_stream golden_ts (Some (BatchArm
      [mutation_message 2 [0x15, 0x01, 0x6B, 0x00] [0xFF, 0x00, 0x76] golden_version 0]))) = 49"
    by (simp add: proto3_eval golden_utf8 golden_ts_def golden_version_def)
  then show ?thesis
    unfolding golden_group_def
    using version_group_too_large [OF proto3.protobuf_runtime_axioms _ _ golden_envelope golden_items,
        of golden_version 48 0 49 48]
    by (simp add: valid_version_def golden_version_def limit_defs)
qed

section \<open>Single records\<close>

text \<open>A mutation record decodes to the native mutation it was built from, with the version,
  sequence number, stream name and nanosecond timestamp it was given, for every type code.\<close>

theorem mutation_record_roundtrip:
  assumes "protobuf_runtime pb"
    and "serialize_mutation pb m (PInt v) (PInt s) (PStr n) (PInt t) = Inr data"
    and "native_of m (c, p1, p2)" and "length data < 2 ^ 31"
  shows "deserialize_record pb (PBytes data) = Inr
    \<lparr>rec_stream_name = n, rec_bridge_timestamp_ns = Some t, rec_body = BodyMutation
       \<lparr>mu_type = c, mu_param1 = p1, mu_param2 = p2, mu_version_index = VersionIndex v s\<rparr>\<rparr>"
  using assms by (rule protobuf_runtime.mutation_roundtrip)

theorem mutation_record_roundtrip_witness:
  "\<exists>data. serialize_mutation proto3 golden_add (PInt golden_version) (PInt 3) (PStr golden_stream)
      (PInt golden_ts) = Inr data \<and> length data = 49 \<and>
    deserialize_record proto3 (PBytes data) = Inr
      \<lparr>rec_stream_name = golden_stream, rec_bridge_timestamp_ns = Some golden_ts,
       rec_body = BodyMutation \<lparr>mu_type = 2, mu_param1 = [0x15, 0x01, 0x6B, 0x00],
         mu_param2 = [0xFF, 0x00, 0x76], mu_version_index = VersionIndex golden_version 3\<rparr>\<rparr>"
  using mutation_record_roundtrip [OF proto3.protobuf_runtime_axioms golden_mutation_bytes
      golden_natives(1)] golden_mutation_bytes by simp

text \<open>C34: A batch record decodes to the batch's mutations, in order, numbered from
  \<open>first_sequence_no\<close>.\<close>

theorem batch_record_roundtrip:
  assumes "protobuf_runtime pb"
    and "serialize_batch pb (Yields items None) (PInt v) (PInt s) (PStr n) (PInt t) = Inr data"
    and "list_all2 native_of items ns" and "length data < 2 ^ 31"
  shows "deserialize_record pb (PBytes data) = Inr
    \<lparr>rec_stream_name = n, rec_bridge_timestamp_ns = Some t, rec_body = BodyBatch (tagged v s ns)\<rparr>"
  using assms by (rule protobuf_runtime.batch_roundtrip)

theorem batch_record_roundtrip_witness:
  "\<exists>data. serialize_batch proto3 (Yields [golden_add, golden_clear] None) (PInt golden_version)
      (PInt 3) (PStr golden_stream) (PInt golden_ts) = Inr data \<and> length data = 73 \<and>
    deserialize_record proto3 (PBytes data) = Inr
      \<lparr>rec_stream_name = golden_stream, rec_bridge_timestamp_ns = Some golden_ts,
       rec_body = BodyBatch (tagged golden_version 3
         [(2, [0x15, 0x01, 0x6B, 0x00], [0xFF, 0x00, 0x76]), (1, [0x61], [0x62, 0xFF])])\<rparr>"
  using batch_record_roundtrip [OF proto3.protobuf_runtime_axioms golden_batch_bytes golden_items]
    golden_batch_bytes by simp

text \<open>A version-end record decodes to its version, its mutation count and its timestamp.\<close>

theorem version_end_record_roundtrip:
  assumes "protobuf_runtime pb"
    and "serialize_version_end pb (PInt v) (PInt k) (PStr n) (PInt t) = Inr data"
    and "length data < 2 ^ 31"
  shows "deserialize_record pb (PBytes data) = Inr
    \<lparr>rec_stream_name = n, rec_bridge_timestamp_ns = Some t, rec_body = BodyVersionEnd
       \<lparr>ve_fdb_version = v, ve_total_mutations = k, ve_bridge_timestamp_ns = Some t\<rparr>\<rparr>"
  using assms by (rule protobuf_runtime.version_end_roundtrip)

theorem version_end_record_roundtrip_witness:
  "\<exists>data. serialize_version_end proto3 (PInt golden_version) (PInt 5) (PStr golden_stream)
      (PInt golden_ts) = Inr data \<and> length data = 45 \<and>
    deserialize_record proto3 (PBytes data) = Inr
      \<lparr>rec_stream_name = golden_stream, rec_bridge_timestamp_ns = Some golden_ts,
       rec_body = BodyVersionEnd \<lparr>ve_fdb_version = golden_version, ve_total_mutations = 5,
         ve_bridge_timestamp_ns = Some golden_ts\<rparr>\<rparr>"
  using version_end_record_roundtrip [OF proto3.protobuf_runtime_axioms golden_version_end_bytes]
    golden_version_end_bytes by simp

section \<open>The reader\<close>

text \<open>C31: \<open>deserialize_record\<close> fails only with \<open>RecordDecodeError\<close>, or with \<open>InputTypeError\<close> on an
  argument that is not \<open>bytes\<close>; and whatever it returns is in range: a type code of one byte, a
  version below 2^63, a 32-bit sequence number or count, an encodable stream name, and a batch
  that is not empty, has one version and consecutive sequence numbers.\<close>

theorem deserialize_strict:
  assumes "protobuf_runtime pb"
  shows "case deserialize_record pb data of
      Inl e \<Rightarrow> (\<exists>reason i b. e = RecordDecodeError reason i \<and> data = PBytes b) \<or>
        e = InputTypeError ''data'' None \<and> (\<forall>b. data \<noteq> PBytes b)
    | Inr r \<Rightarrow> good_body (rec_body r) \<and> utf8_encode (rec_stream_name r) \<noteq> None"
proof (cases "deserialize_record pb data")
  case (Inr r)
  then show ?thesis
    using protobuf_runtime.deserialize_good [OF assms] by auto
next
  case (Inl e)
  then show ?thesis
  proof (cases data)
    case (PBytes b)
    with Inl have "is_decode_error e"
      by (auto simp: deserialize_record.simps result_simps split: option.splits dest: des_body_Inl)
    with Inl PBytes show ?thesis
      by (cases e) auto
  qed (auto simp: deserialize_record.simps)
qed

theorem deserialize_strict_witness:
  "\<exists>e. deserialize_record proto3 (PBytes []) = Inl e \<and> is_decode_error e"
proof -
  have "deserialize_record proto3 (PBytes []) = Inl (RecordDecodeError NO_RECORD_ARM None)"
    by (simp add: deserialize_record.simps proto3_def read_into_def read_fields.simps no_record_def
        des_body_def)
  then show ?thesis
    using deserialize_strict [OF proto3.protobuf_runtime_axioms, of "PBytes []"] by simp
qed

text \<open>C32: When every mutation of a batch message is well formed but the batch is not one run of
  consecutive sequence numbers of one version, the reader rejects it as \<open>INCONSISTENT_BATCH\<close> at the
  first position that breaks the run.\<close>

theorem inconsistent_batch_index:
  assumes "ParseFromString pb data = Some msg" "pr_record msg = Some (BatchArm ms)"
    and "list_all2 reads_as ms us" "us \<noteq> []"
  shows "deserialize_record pb (PBytes data) = Inl (RecordDecodeError INCONSISTENT_BATCH (Some i)) \<longleftrightarrow>
    i < length us \<and>
    mu_version_index (us ! i) \<noteq> VersionIndex (vi_fdb_version (mu_version_index (hd us)))
      (vi_sequence_no (mu_version_index (hd us)) + int i) \<and>
    (\<forall>j < i. mu_version_index (us ! j) = VersionIndex (vi_fdb_version (mu_version_index (hd us)))
      (vi_sequence_no (mu_version_index (hd us)) + int j))"
proof -
  let ?first = "mu_version_index (hd us)"
  have "des_batch ms = bindE (des_contiguous ?first 0 us) (\<lambda>_. Inr us)"
    using assms(3,4) by (simp add: des_batch_eq des_mutations_Inr [THEN iffD2])
  then have result: "deserialize_record pb (PBytes data) = Inl e \<longleftrightarrow> des_contiguous ?first 0 us = Inl e"
    for e
    using assms(1,2)
    by (auto simp: deserialize_record.simps des_body_def result_simps simp del: des_contiguous.simps)
  show ?thesis (is "?L \<longleftrightarrow> ?R")
  proof
    show ?R if ?L
      using des_contiguous_Inl [of ?first 0 us] that unfolding result by auto
    show ?L if ?R
    proof (cases "des_contiguous ?first 0 us")
      case (Inr u)
      with that show ?thesis
        by (auto simp: des_contiguous_from [of ?first 0 us])
    next
      case (Inl e)
      from des_contiguous_Inl [OF this] obtain k where
        e: "e = RecordDecodeError INCONSISTENT_BATCH (Some k)" and
        k: "k < length us" "mu_version_index (us ! k) \<noteq>
          VersionIndex (vi_fdb_version ?first) (vi_sequence_no ?first + int k)"
          "\<forall>j < k. mu_version_index (us ! j) =
            VersionIndex (vi_fdb_version ?first) (vi_sequence_no ?first + int j)"
        by auto
      with that have "k = i"
        by (metis linorder_neqE_nat)
      with Inl e show ?thesis unfolding result by simp
    qed
  qed
qed

text \<open>A decoded batch lists its mutations in strictly increasing stream order, the order of the
  named tuple \<open>VersionIndex\<close>.\<close>

theorem batch_in_stream_order:
  assumes "deserialize_record pb data = Inr r" "rec_body r = BodyBatch us"
  shows "sorted_wrt (<) (map mu_version_index us)"
proof -
  have "contiguous (mu_version_index (hd us)) us"
    using assms by (cases data)
      (auto simp: deserialize_record.simps des_body_def result_simps des_batch_Inr des_check_version_def
        split: option.splits pb_record_arm.splits)
  then show ?thesis
    by (auto simp: sorted_wrt_iff_nth_less contiguous_def less_version_index_def)
qed

text \<open>C33: A decoded batch with a name and an in-range timestamp can be serialized again from its own
  mutations, and the new record decodes to the same value.\<close>

theorem batch_reserializes:
  assumes "protobuf_runtime pb" "deserialize_record pb (PBytes data) = Inr r"
    and "rec_body r = BodyBatch us" "rec_stream_name r \<noteq> []"
    and "rec_bridge_timestamp_ns r = Some t" "0 \<le> t" "t \<le> max_bridge_timestamp_ns"
  shows "\<exists>data'. serialize_batch pb (Yields (map as_native us) None)
      (PInt (vi_fdb_version (mu_version_index (hd us))))
      (PInt (vi_sequence_no (mu_version_index (hd us)))) (PStr (rec_stream_name r)) (PInt t) =
        Inr data' \<and>
    (length data' < 2 ^ 31 \<longrightarrow> deserialize_record pb (PBytes data') = Inr r)"
proof -
  let ?v = "vi_fdb_version (mu_version_index (hd us))"
    and ?s = "vi_sequence_no (mu_version_index (hd us))"
    and ?ns = "map (\<lambda>u. (mu_type u, mu_param1 u, mu_param2 u)) us"
  have good: "us \<noteq> []" "list_all good_mutation us" "contiguous (mu_version_index (hd us)) us"
    using protobuf_runtime.deserialize_good(1) [OF assms(1,2)] assms(3) by auto
  have utf8: "utf8_encode (rec_stream_name r) \<noteq> None"
    using protobuf_runtime.deserialize_good(2) [OF assms(1,2)] .
  have hd: "good_mutation (hd us)"
    using good by (auto simp: list_all_iff)
  have natives: "list_all2 native_of (map as_native us) ?ns"
    using good(2) by (rule natives_of_as_native)
  have "serialize_batch pb (Yields (map as_native us) None) (PInt ?v) (PInt ?s)
      (PStr (rec_stream_name r)) (PInt t) = Inr (wire_record pb (rec_stream_name r) t
        (Some (BatchArm (mutation_messages ?v ?s ?ns))))"
    using hd utf8 assms(4,6,7) natives good contiguous_last [OF good(3,2,1)]
    by (intro serialize_batch_ok) (auto simp: good_mutation_def valid_envelope_def)
  moreover have "tagged ?v ?s ?ns = us"
    using good(3) by (intro tagged_contiguous) simp
  ultimately show ?thesis
    using protobuf_runtime.batch_roundtrip [OF assms(1) _ natives] assms(3,5)
    by (auto intro!: exI out_record.equality)
qed

lemma golden_batch_decoded:
  "\<exists>data r. deserialize_record proto3 (PBytes data) = Inr r \<and>
    rec_body r = BodyBatch (tagged golden_version 3
      [(2, [0x15, 0x01, 0x6B, 0x00], [0xFF, 0x00, 0x76]), (1, [0x61], [0x62, 0xFF])]) \<and>
    rec_stream_name r = golden_stream \<and> rec_bridge_timestamp_ns r = Some golden_ts"
  by (rule exI, rule exI, rule conjI,
      rule protobuf_runtime.batch_roundtrip [OF proto3.protobuf_runtime_axioms golden_batch_bytes
        golden_items]) simp_all

theorem batch_in_stream_order_witness:
  "VersionIndex golden_version 3 < VersionIndex golden_version 4"
proof -
  obtain data r where "deserialize_record proto3 (PBytes data) = Inr r"
    "rec_body r = BodyBatch (tagged golden_version 3
      [(2, [0x15, 0x01, 0x6B, 0x00], [0xFF, 0x00, 0x76]), (1, [0x61], [0x62, 0xFF])])"
    using golden_batch_decoded by blast
  from batch_in_stream_order [OF this] show ?thesis by simp
qed

theorem batch_reserializes_witness:
  "\<exists>data' r. deserialize_record proto3 (PBytes data') = Inr r \<and>
    serialize_batch proto3 (Yields (map as_native (tagged golden_version 3
      [(2, [0x15, 0x01, 0x6B, 0x00], [0xFF, 0x00, 0x76]), (1, [0x61], [0x62, 0xFF])])) None)
      (PInt golden_version) (PInt 3) (PStr golden_stream) (PInt golden_ts) = Inr data'"
proof -
  obtain data r where r: "deserialize_record proto3 (PBytes data) = Inr r"
    "rec_body r = BodyBatch (tagged golden_version 3
      [(2, [0x15, 0x01, 0x6B, 0x00], [0xFF, 0x00, 0x76]), (1, [0x61], [0x62, 0xFF])])"
    "rec_stream_name r = golden_stream" "rec_bridge_timestamp_ns r = Some golden_ts"
    using golden_batch_decoded by blast
  have "\<exists>data'. serialize_batch proto3 (Yields (map as_native (tagged golden_version 3
      [(2, [0x15, 0x01, 0x6B, 0x00], [0xFF, 0x00, 0x76]), (1, [0x61], [0x62, 0xFF])])) None)
      (PInt golden_version) (PInt 3) (PStr golden_stream) (PInt golden_ts) = Inr data'"
    using batch_reserializes [OF proto3.protobuf_runtime_axioms r(1,2) _ r(4)] r(3)
    by (auto simp: golden_stream_def golden_ts_def limit_defs)
  moreover have "map as_native (tagged golden_version 3
      [(2, [0x15, 0x01, 0x6B, 0x00], [0xFF, 0x00, 0x76]), (1, [0x61], [0x62, 0xFF])]) =
      [golden_add, golden_clear]"
    by (simp add: as_native_def golden_add_def golden_clear_def native_def)
  ultimately show ?thesis
    using protobuf_runtime.batch_roundtrip [OF proto3.protobuf_runtime_axioms golden_batch_bytes golden_items] golden_batch_bytes by auto
qed

theorem inconsistent_batch_index_witness:
  "\<exists>data. deserialize_record proto3 (PBytes data) =
    Inl (RecordDecodeError INCONSISTENT_BATCH (Some 1))"
proof -
  let ?ms = "[mutation_message 2 [] [] 7 0, mutation_message 2 [] [] 7 2]"
    and ?us = "[\<lparr>mu_type = 2, mu_param1 = [], mu_param2 = [], mu_version_index = VersionIndex 7 0\<rparr>,
      \<lparr>mu_type = 2, mu_param1 = [], mu_param2 = [], mu_version_index = VersionIndex 7 2\<rparr>]"
  let ?msg = "record_message golden_stream golden_ts (Some (BatchArm ?ms))"
  have "wf_record ?msg"
    using golden_envelope
    by (intro wf_record_message) (auto simp: valid_envelope_def limit_defs intro!: wf_mutation_message)
  then have "ParseFromString proto3 (SerializeToString proto3 ?msg) = Some ?msg"
    by (rule proto3.parse_serialize)
      (simp add: proto3_eval golden_utf8 golden_ts_def)
  moreover have "list_all2 reads_as ?ms ?us"
    by (auto intro!: reads_as_mutation_message simp: limit_defs)
  ultimately show ?thesis
    using inconsistent_batch_index [of proto3 _ ?msg ?ms ?us 1]
    by (auto simp: record_message_def)
qed

section \<open>The writer\<close>

definition serialized :: "protobuf \<Rightarrow> (exn \<Rightarrow> bool) \<Rightarrow> exn + bytes \<Rightarrow> bool" where
  "serialized pb allowed result =
     (case result of Inl e \<Rightarrow> allowed e
      | Inr data \<Rightarrow> \<exists>msg. wf_record msg \<and> data = SerializeToString pb msg)"

lemma mutation_serialized: "serialized pb is_input_error (serialize_mutation pb m v s n t)"
  by (auto simp: serialized_def serialize_mutation_Inr wire_record_def intro: wf_mutation_record
      split: sum.split)
    (auto simp: serialize_mutation_def result_simps dest: check_errors)

lemma batch_serialized:
  "serialized pb (\<lambda>e. is_input_error e \<or> (\<exists>items. ms = Yields items (Some e)))
     (serialize_batch pb ms v s n t)"
  by (auto simp: serialized_def serialize_batch_Inr wire_record_def intro: wf_batch_record
      split: sum.split)
    (auto simp: serialize_batch_def result_simps split: if_splits
      dest: check_errors chk_natives_Inl)

lemma version_end_serialized:
  "serialized pb is_input_error (serialize_version_end pb v k n t)"
  by (auto simp: serialized_def serialize_version_end_Inr intro: wf_version_end_record
      split: sum.split)
    (auto simp: serialize_version_end_def result_simps dest: check_errors)

text \<open>C35: The primitive serialize functions never reach a failure of the Protobuf runtime: a rejected
  argument is \<open>InputTypeError\<close> or \<open>InputValueError\<close> (or the exception of the caller's own iterator),
  and on success the serialized message has every field in range.\<close>

theorem serializer_errors:
  "serialized pb is_input_error (serialize_mutation pb m v s n t) \<and>
   serialized pb (\<lambda>e. is_input_error e \<or> (\<exists>items. ms = Yields items (Some e)))
     (serialize_batch pb ms v s n t) \<and>
   serialized pb is_input_error (serialize_version_end pb v k n t)"
  using mutation_serialized batch_serialized version_end_serialized by blast

end
