(* ===== verification/Key_Range.thy ===== *)
theory Key_Range
  imports Py_Values
begin

text \<open>
  \<open>strinc\<close> and \<open>subspace_to_key_range\<close> of \<open>cdc/listener.py\<close>. The main lemma is why the range is
  the right one: between a key and its \<open>strinc\<close> lie exactly the keys that start with it.
\<close>

section \<open>The functions\<close>

fun rstrip_ff :: "bytes \<Rightarrow> bytes" where
  "rstrip_ff [] = []"
| "rstrip_ff (b # bs) =
     (case rstrip_ff bs of [] \<Rightarrow> if b = 0xFF then [] else [b] | r # rs \<Rightarrow> b # r # rs)"

definition strinc :: "bytes \<Rightarrow> exn + bytes" where
  "strinc key =
     (let stripped = rstrip_ff key
      in if stripped = [] then Inl ValueError
         else Inr (butlast stripped @ [of_nat (unat (last stripped) + 1)]))"

text \<open>
  A subspace argument: an object whose \<open>key\<close> attribute is callable and returns a prefix, a
  \<open>bytes\<close> prefix, or anything else.
\<close>

datatype subspace = WithKey bytes | BytesPrefix bytes | OtherSubspace

fun subspace_to_key_range :: "subspace \<Rightarrow> exn + bytes \<times> bytes" where
  "subspace_to_key_range (WithKey key) = bindE (strinc key) (\<lambda>e. Inr (key, e))"
| "subspace_to_key_range (BytesPrefix key) = bindE (strinc key) (\<lambda>e. Inr (key, e))"
| "subspace_to_key_range OtherSubspace = Inl TypeError"

section \<open>Stripping\<close>

lemma rstrip_ff_decomp: "\<exists>n. key = rstrip_ff key @ replicate n 0xFF"
proof (induction key rule: rstrip_ff.induct)
  case (2 b bs)
  then obtain n where n: "bs = rstrip_ff bs @ replicate n 0xFF" by blast
  show ?case
  proof (cases "rstrip_ff bs")
    case Nil
    with n show ?thesis
      by (cases "b = 0xFF") (auto intro: exI [of _ "Suc n"] exI [of _ n])
  next
    case (Cons r rs)
    with n show ?thesis by (auto intro: exI [of _ n])
  qed
qed simp

lemma rstrip_ff_last: "rstrip_ff key \<noteq> [] \<Longrightarrow> last (rstrip_ff key) \<noteq> 0xFF"
  by (induction key rule: rstrip_ff.induct) (auto split: list.splits if_splits)

lemma rstrip_ff_Nil: "rstrip_ff key = [] \<longleftrightarrow> (\<forall>b \<in> set key. b = 0xFF)"
  by (induction key rule: rstrip_ff.induct) (auto split: list.splits)

lemma strinc_decomp:
  assumes "strinc key = Inr e"
  obtains p b n where "key = p @ [b] @ replicate n 0xFF" "b \<noteq> 0xFF" "e = p @ [b + 1]"
proof -
  let ?s = "rstrip_ff key"
  have s: "?s \<noteq> []" and e: "e = butlast ?s @ [of_nat (unat (last ?s) + 1)]"
    using assms by (auto simp: strinc_def Let_def split: if_splits)
  obtain n where "key = ?s @ replicate n 0xFF"
    using rstrip_ff_decomp by blast
  then have "key = butlast ?s @ [last ?s] @ replicate n 0xFF"
    using s by (metis append_assoc append_butlast_last_id)
  moreover have "e = butlast ?s @ [last ?s + 1]"
    by (simp add: e)
  ultimately show thesis
    using that rstrip_ff_last [OF s] by blast
qed

section \<open>The range of a prefix\<close>

lemma byte_max: "0xFF \<le> (c :: byte) \<longleftrightarrow> c = 0xFF"
  by (auto simp: word_le_nat_alt word_unat_eq_iff intro: antisym)

lemma byte_not_above_max: "\<not> 0xFF < (c :: byte)"
  using byte_max [of c] by (metis less_imp_le less_irrefl)

lemma byte_less_Suc:
  assumes "(b :: byte) \<noteq> 0xFF"
  shows "c < b + 1 \<longleftrightarrow> c \<le> b"
proof -
  have "unat b \<noteq> 255"
    using assms by (simp add: word_unat_eq_iff)
  then have "unat b < 255"
    using unat_byte_le [of b] by linarith
  then have "unat (b + 1) = unat b + 1"
    by (simp add: unat_word_ariths)
  then show ?thesis
    by (simp add: word_less_nat_alt word_le_nat_alt less_Suc_eq_le)
qed

lemma replicate_max_le: "replicate n (0xFF :: byte) \<le> k \<longleftrightarrow> prefix (replicate n 0xFF) k"
proof (induction n arbitrary: k)
  case (Suc n)
  then show ?case
    by (cases k) (simp_all add: byte_not_above_max eq_commute)
qed simp

lemma key_range_prefix:
  assumes "b \<noteq> (0xFF :: byte)"
  shows "p @ [b] @ replicate n 0xFF \<le> k \<and> k < p @ [b + 1] \<longleftrightarrow>
    prefix (p @ [b] @ replicate n 0xFF) k"
proof (induction p arbitrary: k)
  case Nil
  show ?case
    using assms
    by (cases k) (auto simp: replicate_max_le byte_less_Suc dest: leD)
next
  case (Cons a p)
  show ?case
  proof (cases k)
    case (Cons c k')
    then show ?thesis
      using Cons.IH [of k'] by auto
  qed simp
qed

lemma strinc_range:
  assumes "strinc key = Inr e"
  shows "key \<le> k \<and> k < e \<longleftrightarrow> prefix key k"
  using strinc_decomp [OF assms] key_range_prefix by metis

lemma strinc_Inl: "strinc key = Inl x \<longleftrightarrow> x = ValueError \<and> (\<forall>b \<in> set key. b = 0xFF)"
  by (auto simp: strinc_def Let_def rstrip_ff_Nil)

lemma strinc_less: "strinc key = Inr e \<Longrightarrow> key < e"
  using strinc_range [of key e key] by simp

section \<open>Properties\<close>

text \<open>C39: The end key \<open>strinc\<close> computes for a prefix is the tight one: in the byte order of the store,
  the range from the prefix (included) to its \<open>strinc\<close> (excluded) holds exactly the keys that start
  with the prefix.\<close>

theorem strinc_covers_prefix:
  assumes "subspace_to_key_range s = Inr (begin_key, end_key)"
  shows "begin_key \<le> k \<and> k < end_key \<longleftrightarrow> prefix begin_key k"
  using assms by (cases s) (auto simp: result_simps strinc_range)

theorem strinc_covers_prefix_witness:
  "prefix [0x61, 0xFF] [0x61, 0xFF, 0x03 :: byte]"
proof -
  have "subspace_to_key_range (BytesPrefix [0x61, 0xFF]) = Inr ([0x61, 0xFF], [0x62])"
    by (simp add: strinc_def)
  from strinc_covers_prefix [OF this, of "[0x61, 0xFF, 0x03]"] show ?thesis
    by simp
qed

text \<open>\<open>subspace_to_key_range\<close> fails exactly on what has no such range: \<open>TypeError\<close> on a value that
  is neither a subspace nor bytes, \<open>ValueError\<close> on the empty prefix and on prefixes of 0xFF bytes
  only, the prefixes that no key bounds from above; otherwise the range is not empty.\<close>

theorem key_range_errors:
  "case subspace_to_key_range s of
     Inl e \<Rightarrow> e = TypeError \<and> s = OtherSubspace \<or>
       e = ValueError \<and> (\<exists>key. (s = WithKey key \<or> s = BytesPrefix key) \<and> (\<forall>b \<in> set key. b = 0xFF))
   | Inr (begin_key, end_key) \<Rightarrow> begin_key < end_key \<and>
       (s = WithKey begin_key \<or> s = BytesPrefix begin_key) \<and> \<not> set begin_key \<subseteq> {0xFF}"
proof (cases s)
  case (WithKey key)
  then show ?thesis
    using strinc_Inl [of key] by (cases "strinc key") (auto simp: strinc_less)
next
  case (BytesPrefix key)
  then show ?thesis
    using strinc_Inl [of key] by (cases "strinc key") (auto simp: strinc_less)
qed simp

theorem key_range_errors_witness:
  "subspace_to_key_range (BytesPrefix [0x61, 0xFF]) = Inr ([0x61, 0xFF], [0x62]) \<and>
     [0x61, 0xFF] < [0x62 :: byte] \<and> \<not> set [0x61, 0xFF] \<subseteq> {0xFF :: byte}"
proof -
  have "subspace_to_key_range (BytesPrefix [0x61, 0xFF]) = Inr ([0x61, 0xFF], [0x62])"
    by (simp add: strinc_def)
  with key_range_errors [of "BytesPrefix [0x61, 0xFF]"] show ?thesis
    by simp
qed

end
