(* ===== verification/Effects.thy ===== *)
theory Effects
  imports Errors
begin

text \<open>
  Stateful code: a computation takes the state and returns an exception or a value together
  with the state it leaves, so that the state changes made before a \<open>raise\<close> are kept, as they
  are in Python. \<open>wp\<close> is its weakest precondition with a second postcondition for exceptions;
  its simplification rules turn a statement about a method into one about the calls it makes.
\<close>

section \<open>Computations\<close>

type_synonym ('s, 'a) eff = "'s \<Rightarrow> (exn + 'a) \<times> 's"

definition ret :: "'a \<Rightarrow> ('s, 'a) eff" where
  "ret x = (\<lambda>s. (Inr x, s))"

definition raise :: "exn \<Rightarrow> ('s, 'a) eff" where
  "raise e = (\<lambda>s. (Inl e, s))"

definition bnd :: "('s, 'a) eff \<Rightarrow> ('a \<Rightarrow> ('s, 'b) eff) \<Rightarrow> ('s, 'b) eff" where
  "bnd m f = (\<lambda>s. case m s of (Inl e, s') \<Rightarrow> (Inl e, s') | (Inr x, s') \<Rightarrow> f x s')"

definition thn :: "('s, 'a) eff \<Rightarrow> ('s, 'b) eff \<Rightarrow> ('s, 'b) eff" where
  "thn m k = bnd m (\<lambda>_. k)"

definition gets :: "('s \<Rightarrow> 'a) \<Rightarrow> ('s, 'a) eff" where
  "gets f = (\<lambda>s. (Inr (f s), s))"

definition modify :: "('s \<Rightarrow> 's) \<Rightarrow> ('s, unit) eff" where
  "modify f = (\<lambda>s. (Inr (), f s))"

text \<open>\<open>try m except p as e: h e\<close>.\<close>

definition catch :: "('s, 'a) eff \<Rightarrow> (exn \<Rightarrow> bool) \<Rightarrow> (exn \<Rightarrow> ('s, 'a) eff) \<Rightarrow> ('s, 'a) eff" where
  "catch m p h = (\<lambda>s. case m s of
     (Inl e, s') \<Rightarrow> if p e then h e s' else (Inl e, s')
   | (Inr x, s') \<Rightarrow> (Inr x, s'))"

definition liftE :: "exn + 'a \<Rightarrow> ('s, 'a) eff" where
  "liftE r = (\<lambda>s. (r, s))"

fun for_each :: "('a \<Rightarrow> ('s, unit) eff) \<Rightarrow> 'a list \<Rightarrow> ('s, unit) eff" where
  "for_each f [] = ret ()"
| "for_each f (x # xs) = thn (f x) (for_each f xs)"

text \<open>Run a computation on a part of the state.\<close>

definition zoom :: "('s \<Rightarrow> 't) \<Rightarrow> ('t \<Rightarrow> 's \<Rightarrow> 's) \<Rightarrow> ('t, 'a) eff \<Rightarrow> ('s, 'a) eff" where
  "zoom get put m = (\<lambda>s. case m (get s) of (r, t) \<Rightarrow> (r, put t s))"

section \<open>Weakest preconditions\<close>

definition wp :: "('s, 'a) eff \<Rightarrow> ('a \<Rightarrow> 's \<Rightarrow> bool) \<Rightarrow> (exn \<Rightarrow> 's \<Rightarrow> bool) \<Rightarrow> 's \<Rightarrow> bool" where
  "wp m Q E s = (case m s of (Inl e, s') \<Rightarrow> E e s' | (Inr x, s') \<Rightarrow> Q x s')"

named_theorems wp_simps \<open>weakest preconditions of the combinators\<close>

lemma wp_ret [wp_simps]: "wp (ret x) Q E s \<longleftrightarrow> Q x s"
  by (simp add: wp_def ret_def)

lemma wp_raise [wp_simps]: "wp (raise e) Q E s \<longleftrightarrow> E e s"
  by (simp add: wp_def raise_def)

lemma wp_bnd [wp_simps]: "wp (bnd m f) Q E s \<longleftrightarrow> wp m (\<lambda>x. wp (f x) Q E) E s"
  by (auto simp: wp_def bnd_def split: sum.splits prod.splits)

lemma wp_thn [wp_simps]: "wp (thn m k) Q E s \<longleftrightarrow> wp m (\<lambda>_. wp k Q E) E s"
  by (simp add: thn_def wp_simps)

lemma wp_gets [wp_simps]: "wp (gets f) Q E s \<longleftrightarrow> Q (f s) s"
  by (simp add: wp_def gets_def)

lemma wp_modify [wp_simps]: "wp (modify f) Q E s \<longleftrightarrow> Q () (f s)"
  by (simp add: wp_def modify_def)

lemma wp_catch [wp_simps]:
  "wp (catch m p h) Q E s \<longleftrightarrow> wp m Q (\<lambda>e s'. if p e then wp (h e) Q E s' else E e s') s"
  by (auto simp: wp_def catch_def split: sum.splits prod.splits)

lemma wp_liftE [wp_simps]:
  "wp (liftE r) Q E s \<longleftrightarrow> (case r of Inl e \<Rightarrow> E e s | Inr x \<Rightarrow> Q x s)"
  by (simp add: wp_def liftE_def)

lemma wp_if [wp_simps]:
  "wp (if b then m else n) Q E s \<longleftrightarrow> (if b then wp m Q E s else wp n Q E s)"
  by simp

lemma wp_option [wp_simps]:
  "wp (case x of None \<Rightarrow> m | Some y \<Rightarrow> f y) Q E s \<longleftrightarrow>
     (case x of None \<Rightarrow> wp m Q E s | Some y \<Rightarrow> wp (f y) Q E s)"
  by (cases x) auto

lemma wp_zoom [wp_simps]:
  "wp (zoom get put m) Q E s \<longleftrightarrow>
     wp m (\<lambda>x t. Q x (put t s)) (\<lambda>e t. E e (put t s)) (get s)"
  by (auto simp: wp_def zoom_def split: sum.splits prod.splits)

text \<open>The same without the state, for the preconditions that stand as postconditions of others.\<close>

lemma wp_fun:
  "wp (ret x) Q E = Q x" "wp (raise e) Q E = E e"
  "wp (bnd m f) Q E = wp m (\<lambda>x. wp (f x) Q E) E" "wp (thn m k) Q E = wp m (\<lambda>_. wp k Q E) E"
  by (auto simp: fun_eq_iff wp_simps)

lemma wp_weaken:
  assumes "wp m Q E s" "\<And>x s'. Q x s' \<Longrightarrow> Q' x s'" "\<And>e s'. E e s' \<Longrightarrow> E' e s'"
  shows "wp m Q' E' s"
  using assms by (auto simp: wp_def split: sum.splits prod.splits)

lemma wp_True [simp]: "wp m (\<lambda>_ _. True) (\<lambda>_ _. True) s"
  by (simp add: wp_def split: sum.splits prod.splits)

lemma wp_I:
  assumes "\<And>x s'. m s = (Inr x, s') \<Longrightarrow> Q x s'" "\<And>e s'. m s = (Inl e, s') \<Longrightarrow> E e s'"
  shows "wp m Q E s"
  using assms by (auto simp: wp_def split: sum.splits prod.splits)

text \<open>An arbitrary call: nothing is known of its result.\<close>

lemma wp_all:
  assumes "\<And>x s'. Q x s'" "\<And>e s'. E e s'"
  shows "wp m Q E s"
  using assms by (auto simp: wp_def split: sum.splits prod.splits)

lemma wp_InrD: "wp m Q E s \<Longrightarrow> m s = (Inr x, s') \<Longrightarrow> Q x s'"
  by (simp add: wp_def)

lemma wp_InlD: "wp m Q E s \<Longrightarrow> m s = (Inl e, s') \<Longrightarrow> E e s'"
  by (simp add: wp_def)

lemma wp_conj:
  "wp m Q E s \<Longrightarrow> wp m Q' E' s \<Longrightarrow> wp m (\<lambda>x s. Q x s \<and> Q' x s) (\<lambda>e s. E e s \<and> E' e s) s"
  by (auto simp: wp_def split: sum.splits prod.splits)

lemma wp_for_each:
  assumes "\<And>x s. x \<in> set xs \<Longrightarrow> P s \<Longrightarrow> wp (f x) (\<lambda>_. P) E s" "P s"
  shows "wp (for_each f xs) (\<lambda>_. P) E s"
  using assms
proof (induction xs arbitrary: s)
  case (Cons x xs)
  have "wp (for_each f xs) (\<lambda>_. P) E s'" if "P s'" for s'
    using Cons that by (intro Cons.IH) auto
  moreover have "wp (f x) (\<lambda>_. P) E s"
    using Cons by simp
  ultimately have "wp (f x) (\<lambda>_. wp (for_each f xs) (\<lambda>_. P) E) E s"
    by (auto elim: wp_weaken)
  then show ?case by (simp add: wp_simps)
qed (simp add: wp_simps)

section \<open>Running\<close>

text \<open>What the combinators compute, for running a method on a concrete state.\<close>

named_theorems run_simps \<open>evaluation of the combinators\<close>

lemma run_combinators [run_simps]:
  "ret x s = (Inr x, s)" "raise e s = (Inl e, s)" "gets g s = (Inr (g s), s)"
  "modify h s = (Inr (), h s)" "liftE r s = (r, s)"
  by (simp_all add: ret_def raise_def gets_def modify_def liftE_def)

lemma run_bnd [run_simps]:
  "bnd m f s = (case m s of (Inl e, s') \<Rightarrow> (Inl e, s') | (Inr x, s') \<Rightarrow> f x s')"
  "thn m k s = (case m s of (Inl e, s') \<Rightarrow> (Inl e, s') | (Inr x, s') \<Rightarrow> k s')"
  by (simp_all add: thn_def bnd_def)

lemma run_catch [run_simps]:
  "catch m p h s = (case m s of (Inl e, s') \<Rightarrow> if p e then h e s' else (Inl e, s')
     | (Inr x, s') \<Rightarrow> (Inr x, s'))"
  "zoom get put m' s = (case m' (get s) of (r, t) \<Rightarrow> (r, put t s))"
  by (simp_all add: catch_def zoom_def)

lemma bnd_liftE: "bnd (liftE (Inr x)) f = f x" "bnd (liftE (Inl e)) f = raise e"
  by (simp_all add: fun_eq_iff run_simps)

section \<open>Methods of an object\<close>

text \<open>
  The state of a method is the object with the outside world: a call to the outside, reading and
  updating the object.
\<close>

definition outside :: "('w, 'a) eff \<Rightarrow> ('o \<times> 'w, 'a) eff" where
  "outside m = zoom snd (\<lambda>w s. (fst s, w)) m"

definition self_gets :: "('o \<Rightarrow> 'a) \<Rightarrow> ('o \<times> 'w, 'a) eff" where
  "self_gets f = gets (\<lambda>s. f (fst s))"

definition self_modify :: "('o \<Rightarrow> 'o) \<Rightarrow> ('o \<times> 'w, unit) eff" where
  "self_modify f = modify (\<lambda>s. (f (fst s), snd s))"

lemma wp_outside [wp_simps]:
  "wp (outside m) Q E s \<longleftrightarrow> wp m (\<lambda>x w. Q x (fst s, w)) (\<lambda>e w. E e (fst s, w)) (snd s)"
  by (simp add: outside_def wp_simps)

lemma wp_self_gets [wp_simps]: "wp (self_gets f) Q E s \<longleftrightarrow> Q (f (fst s)) s"
  by (simp add: self_gets_def wp_simps)

lemma wp_self_modify [wp_simps]: "wp (self_modify f) Q E s \<longleftrightarrow> Q () (f (fst s), snd s)"
  by (simp add: self_modify_def wp_simps)

lemma run_self [run_simps]:
  "outside m s = (case m (snd s) of (r, w) \<Rightarrow> (r, (fst s, w)))"
  "self_gets f s = (Inr (f (fst s)), s)" "self_modify h s = (Inr (), (h (fst s), snd s))"
  by (simp_all add: outside_def self_gets_def self_modify_def run_simps)

lemma wp_self_modify_fun: "wp (self_modify f) Q E = (\<lambda>s. Q () (f (fst s), snd s))"
  by (rule ext) (rule wp_self_modify)

section \<open>Outcomes as values\<close>

text \<open>
  \<open>trying m\<close> runs \<open>m\<close> and returns how it ended, for a \<open>try\<close> whose clauses return, raise or go on
  with the loop around it.
\<close>

definition trying :: "('s, 'a) eff \<Rightarrow> ('s, exn + 'a) eff" where
  "trying m = (\<lambda>s. case m s of (r, s') \<Rightarrow> (Inr r, s'))"

lemma wp_trying [wp_simps]:
  "wp (trying m) Q E s \<longleftrightarrow> wp m (\<lambda>x. Q (Inr x)) (\<lambda>e. Q (Inl e)) s"
  by (cases "m s"; cases "fst (m s)") (auto simp: wp_def trying_def)

lemma run_trying [run_simps]: "trying m s = (case m s of (r, s') \<Rightarrow> (Inr r, s'))"
  by (simp add: trying_def)

text \<open>\<open>try m finally c\<close>; leaving a \<open>with\<close> block is the same.\<close>

definition finally_do :: "('s, 'a) eff \<Rightarrow> ('s, unit) eff \<Rightarrow> ('s, 'a) eff" where
  "finally_do m c = bnd (trying m) (\<lambda>r. thn c (liftE r))"

lemma wp_finally [wp_simps]:
  "wp (finally_do m c) Q E s \<longleftrightarrow>
     wp m (\<lambda>x. wp c (\<lambda>_. Q x) E) (\<lambda>e. wp c (\<lambda>_. E e) E) s"
proof -
  have "wp (liftE (Inr x)) Q E = Q x" "wp (liftE (Inl e)) Q E = E e" for x e
    by (simp_all add: fun_eq_iff wp_simps)
  then show ?thesis
    by (simp add: finally_do_def wp_simps wp_fun)
qed

section \<open>Preserved predicates\<close>

text \<open>\<open>preserves I m\<close>: however \<open>m\<close> ends, it leaves a state with \<open>I\<close> if it started in one.\<close>

definition preserves :: "('s \<Rightarrow> bool) \<Rightarrow> ('s, 'a) eff \<Rightarrow> bool" where
  "preserves I m \<longleftrightarrow> (\<forall>s. I s \<longrightarrow> I (snd (m s)))"

lemma preserves_wp: "preserves I m \<longleftrightarrow> (\<forall>s. I s \<longrightarrow> wp m (\<lambda>_. I) (\<lambda>_. I) s)"
proof -
  have "wp m (\<lambda>_. I) (\<lambda>_. I) s \<longleftrightarrow> I (snd (m s))" for s
    by (cases "m s"; cases "fst (m s)") (auto simp: wp_def)
  then show ?thesis
    by (simp add: preserves_def)
qed

lemma preservesI: "(\<And>s. I s \<Longrightarrow> wp m (\<lambda>_. I) (\<lambda>_. I) s) \<Longrightarrow> preserves I m"
  by (simp add: preserves_wp)

lemma preservesD: "preserves I m \<Longrightarrow> I s \<Longrightarrow> m s = (r, t) \<Longrightarrow> I t"
  by (auto simp: preserves_def dest: spec [of _ s])

lemma wp_preserves:
  assumes "preserves I m" "I s" "\<And>x t. I t \<Longrightarrow> Q x t" "\<And>e t. I t \<Longrightarrow> E e t"
  shows "wp m Q E s"
  by (rule wp_I) (use assms in \<open>auto dest: preservesD\<close>)

lemma preserves_basic:
  "preserves I (ret x)" "preserves I (raise e)" "preserves I (gets f)" "preserves I (liftE v)"
  by (simp_all add: preserves_def run_simps)

lemma preserves_self_gets: "preserves I (self_gets g)"
  by (simp add: preserves_def run_simps)

lemma preserves_modify: "(\<And>s. I s \<Longrightarrow> I (f (fst s), snd s)) \<Longrightarrow> preserves I (self_modify f)"
  by (simp add: preserves_def run_simps)

lemma preserves_outside: "(\<And>s w. I s \<Longrightarrow> I (fst s, w)) \<Longrightarrow> preserves I (outside m)"
  by (simp add: preserves_def run_simps case_prod_beta)

lemma preserves_bnd:
  assumes "preserves I m" "\<And>x. preserves I (f x)"
  shows "preserves I (bnd m f)"
proof (rule preservesI)
  fix s
  assume "I s"
  have "wp (f x) (\<lambda>_. I) (\<lambda>_. I) t" if "I t" for x t
    using assms(2) that by (simp add: preserves_wp)
  with assms(1) \<open>I s\<close> show "wp (bnd m f) (\<lambda>_. I) (\<lambda>_. I) s"
    unfolding wp_bnd by (rule wp_preserves)
qed

lemma preserves_thn: "preserves I m \<Longrightarrow> preserves I k \<Longrightarrow> preserves I (thn m k)"
  unfolding thn_def by (rule preserves_bnd)

lemma preserves_catch:
  assumes "preserves I m" "\<And>e. preserves I (h e)"
  shows "preserves I (catch m c h)"
  by (rule preservesI)
    (use assms in \<open>auto simp: wp_catch preserves_wp [of I "h _"] intro: wp_preserves\<close>)

lemma preserves_trying: "preserves I m \<Longrightarrow> preserves I (trying m)"
  by (simp add: preserves_def run_simps case_prod_beta)

lemma preserves_if: "preserves I m \<Longrightarrow> preserves I n \<Longrightarrow> preserves I (if b then m else n)"
  by simp

lemma preserves_for_each: "(\<And>x. preserves I (f x)) \<Longrightarrow> preserves I (for_each f xs)"
  by (induction xs) (auto intro: preserves_basic preserves_thn)

lemmas preserves_intros = preserves_basic preserves_self_gets preserves_modify preserves_outside preserves_bnd preserves_thn
  preserves_catch preserves_trying preserves_if preserves_for_each

end
