(* ===== verification/Kafka_Producer.thy ===== *)
theory Kafka_Producer
  imports Effects Proto Py_Values
begin

text \<open>
  \<open>MutationProducer\<close> of \<open>kafka/producer.py\<close>. The librdkafka producer is a parameter: a call on its
  handle \<open>'h\<close> changes the outside world \<open>'w\<close>, serves callbacks (delivery reports and
  asynchronous errors) to the object and then returns or raises. Timeouts are passed on.
  The lemmas give the object's invariant, its two gates (closed and fatal), the stickiness of
  delivery errors and the life cycle of transactions.
\<close>

section \<open>Configuration\<close>

text \<open>A configuration value: data, a callback of the caller, or the object's own error callback.\<close>

datatype config_value = Setting pyval | UserCallback | OwnErrorCb

type_synonym client_config = "(string \<times> config_value) list"

definition MANDATORY_CONFIG :: client_config where
  "MANDATORY_CONFIG =
     [(''acks'', Setting (PStr (ascii ''all''))),
      (''enable.idempotence'', Setting (PBool True)),
      (''max.in.flight.requests.per.connection'', Setting (PInt 5)),
      (''enable.gapless.guarantee'', Setting (PBool True)),
      (''message.timeout.ms'', Setting (PInt 0))]"

definition DEFAULT_PERFORMANCE_CONFIG :: client_config where
  "DEFAULT_PERFORMANCE_CONFIG =
     [(''linger.ms'', Setting (PInt 5)),
      (''compression.type'', Setting (PStr (ascii ''lz4'')))]"

definition FORBIDDEN_EXTRA_KEYS :: "string list" where
  "FORBIDDEN_EXTRA_KEYS = map fst MANDATORY_CONFIG @ [''transactional.id'']"

text \<open>The dictionary the constructor hands to librdkafka; \<open>dict.update\<close> is map override.\<close>

definition merged_config ::
  "pystr \<Rightarrow> client_config \<Rightarrow> pystr option \<Rightarrow> exn + (string \<rightharpoonup> config_value)" where
  "merged_config bootstrap_servers extra_config transactional_id =
     (if transactional_id = Some [] then Inl ValueError
      else if \<exists>k \<in> set (map fst extra_config). k \<in> set FORBIDDEN_EXTRA_KEYS then Inl ValueError
      else Inr
        ((([''bootstrap.servers'' \<mapsto> Setting (PStr bootstrap_servers)]
            ++ map_of DEFAULT_PERFORMANCE_CONFIG
            ++ map_of extra_config
            ++ (case transactional_id of
                  None \<Rightarrow> Map.empty | Some t \<Rightarrow> [''transactional.id'' \<mapsto> Setting (PStr t)]))
            ++ map_of MANDATORY_CONFIG)
          (''error_cb'' \<mapsto> OwnErrorCb)))"

section \<open>Errors\<close>

fun is_fatal_kafka_error :: "exn \<Rightarrow> bool" where
  "is_fatal_kafka_error (KafkaException (Some err)) \<longleftrightarrow> ke_fatal err = Some True"
| "is_fatal_kafka_error _ \<longleftrightarrow> False"

section \<open>The librdkafka producer\<close>

datatype kafka_callback = DeliveryReport "kafka_error option" | ErrorCallback kafka_error

type_synonym ('w, 'a) kafka_call = "'w \<Rightarrow> (exn + 'a) \<times> kafka_callback list \<times> 'w"

record ('w, 'h) rdkafka =
  rk_new :: "(string \<rightharpoonup> config_value) \<Rightarrow> ('w, 'h) eff"
  rk_init_transactions :: "'h \<Rightarrow> pyfloat \<Rightarrow> ('w, unit) kafka_call"
  rk_begin_transaction :: "'h \<Rightarrow> ('w, unit) kafka_call"
  rk_commit_transaction :: "'h \<Rightarrow> pyfloat \<Rightarrow> ('w, unit) kafka_call"
  rk_abort_transaction :: "'h \<Rightarrow> pyfloat \<Rightarrow> ('w, unit) kafka_call"
  rk_produce :: "'h \<Rightarrow> pystr \<Rightarrow> bytes \<Rightarrow> bytes option \<Rightarrow> ('w, unit) kafka_call"
  rk_poll :: "'h \<Rightarrow> pyfloat \<Rightarrow> ('w, unit) kafka_call"
  rk_flush :: "'h \<Rightarrow> pyfloat \<Rightarrow> ('w, int) kafka_call"
  rk_purge :: "'h \<Rightarrow> ('w, unit) kafka_call"
  rk_len :: "'h \<Rightarrow> ('w, int) kafka_call"

section \<open>The object\<close>

record 'h producer =
  mp_user_error_cb :: bool
  mp_producer :: "'h option"
  mp_delivery_errors :: "kafka_error list"
  mp_transactional :: bool
  mp_txn_initialized :: bool
  mp_txn_open :: bool
  mp_closed :: bool
  mp_fatal :: bool

definition new_producer ::
  "('w, 'h) rdkafka \<Rightarrow> pystr \<Rightarrow> client_config \<Rightarrow> pystr option \<Rightarrow> ('w, 'h producer) eff" where
  "new_producer rk bootstrap_servers extra_config transactional_id =
     bnd (liftE (merged_config bootstrap_servers extra_config transactional_id)) (\<lambda>merged.
     bnd (rk_new rk merged) (\<lambda>h.
     ret \<lparr>mp_user_error_cb = (''error_cb'' \<in> set (map fst extra_config)), mp_producer = Some h,
          mp_delivery_errors = [], mp_transactional = (transactional_id \<noteq> None),
          mp_txn_initialized = False, mp_txn_open = False, mp_closed = False, mp_fatal = False\<rparr>))"

text \<open>
  \<open>_error_cb\<close> and the callback built by \<open>_delivery_callback\<close>. The caller's own callbacks run after
  the update; what they raise is logged and dropped.
\<close>

definition error_cb :: "kafka_error \<Rightarrow> 'h producer \<Rightarrow> 'h producer" where
  [simp]: "error_cb err p = (if ke_fatal err = Some True then p\<lparr>mp_fatal := True\<rparr> else p)"

definition delivery_callback :: "kafka_error option \<Rightarrow> 'h producer \<Rightarrow> 'h producer" where
  [simp]: "delivery_callback error p =
     (case error of
        None \<Rightarrow> p
      | Some err \<Rightarrow> p\<lparr>mp_delivery_errors := mp_delivery_errors p @ [err]\<rparr>)"

fun serve_callback :: "kafka_callback \<Rightarrow> 'h producer \<Rightarrow> 'h producer" where
  "serve_callback (ErrorCallback err) p = error_cb err p"
| "serve_callback (DeliveryReport error) p = delivery_callback error p"

definition served :: "('w, 'a) kafka_call \<Rightarrow> ('h producer \<times> 'w, 'a) eff" where
  "served m = (\<lambda>s. case m (snd s) of (r, callbacks, w) \<Rightarrow> (r, (fold serve_callback callbacks (fst s), w)))"

text \<open>A method call on \<open>self._producer\<close>, which is \<open>None\<close> once the object is closed.\<close>

definition on_producer :: "('h \<Rightarrow> ('w, 'a) kafka_call) \<Rightarrow> ('h producer \<times> 'w, 'a) eff" where
  "on_producer f = bnd (self_gets mp_producer) (\<lambda>handle.
     case handle of None \<Rightarrow> raise AttributeError | Some h \<Rightarrow> served (f h))"

text \<open>\<open>except KafkaException\<close>: remember a fatal error and raise again.\<close>

definition marking_fatal :: "('h producer \<times> 'w, 'a) eff \<Rightarrow> ('h producer \<times> 'w, 'a) eff" where
  "marking_fatal m = catch m is_KafkaException
     (\<lambda>exc. thn (if is_fatal_kafka_error exc then self_modify (\<lambda>p. p\<lparr>mp_fatal := True\<rparr>) else ret ())
                (raise exc))"

section \<open>Transactions\<close>

definition runtime_error :: "('s, 'a) eff" where
  "runtime_error = raise (RuntimeError [])"

definition require_transactional :: "bool \<Rightarrow> ('h producer \<times> 'w, unit) eff" where
  "require_transactional is_init =
     bnd (self_gets id) (\<lambda>self.
     if mp_closed self then runtime_error
     else if mp_fatal self then runtime_error
     else if \<not> mp_transactional self then runtime_error
     else if \<not> is_init \<and> \<not> mp_txn_initialized self then runtime_error
     else ret ())"

definition init_transactions :: "('w, 'h) rdkafka \<Rightarrow> pyfloat \<Rightarrow> ('h producer \<times> 'w, unit) eff" where
  "init_transactions rk timeout =
     thn (require_transactional True)
     (bnd (self_gets mp_txn_initialized) (\<lambda>initialized.
      if initialized then runtime_error
      else thn (marking_fatal (on_producer (\<lambda>h. rk_init_transactions rk h timeout)))
             (self_modify (\<lambda>p. p\<lparr>mp_txn_initialized := True\<rparr>))))"

definition begin_transaction :: "('w, 'h) rdkafka \<Rightarrow> ('h producer \<times> 'w, unit) eff" where
  "begin_transaction rk =
     thn (require_transactional False)
     (bnd (self_gets mp_txn_open) (\<lambda>txn_open.
      if txn_open then runtime_error
      else thn (marking_fatal (on_producer (rk_begin_transaction rk)))
             (self_modify (\<lambda>p. p\<lparr>mp_txn_open := True\<rparr>))))"

definition commit_transaction :: "('w, 'h) rdkafka \<Rightarrow> pyfloat \<Rightarrow> ('h producer \<times> 'w, unit) eff" where
  "commit_transaction rk timeout =
     thn (require_transactional False)
     (bnd (self_gets mp_txn_open) (\<lambda>txn_open.
      if \<not> txn_open then runtime_error
      else thn (marking_fatal (on_producer (\<lambda>h. rk_commit_transaction rk h timeout)))
             (self_modify (\<lambda>p. p\<lparr>mp_txn_open := False, mp_delivery_errors := []\<rparr>))))"

definition abort_transaction :: "('w, 'h) rdkafka \<Rightarrow> pyfloat \<Rightarrow> ('h producer \<times> 'w, unit) eff" where
  "abort_transaction rk timeout =
     thn (require_transactional False)
     (bnd (self_gets mp_txn_open) (\<lambda>txn_open.
      if \<not> txn_open then runtime_error
      else thn (catch (on_producer (\<lambda>h. rk_abort_transaction rk h timeout)) is_Exception
                  (\<lambda>exc. thn (self_modify (\<lambda>p. p\<lparr>mp_fatal := True\<rparr>)) (raise exc)))
             (self_modify (\<lambda>p. p\<lparr>mp_txn_open := False, mp_delivery_errors := []\<rparr>))))"

section \<open>Producing\<close>

definition produce ::
  "protobuf \<Rightarrow> ('w, 'h) rdkafka \<Rightarrow> pystr \<Rightarrow> pb_record \<Rightarrow> bytes option \<Rightarrow>
     ('h producer \<times> 'w, unit) eff" where
  "produce pb rk topic record key =
     bnd (self_gets id) (\<lambda>self.
     if mp_closed self then runtime_error
     else if mp_fatal self then runtime_error
     else if mp_transactional self \<and> \<not> mp_txn_open self then runtime_error
     else if \<not> mp_transactional self \<and> mp_delivery_errors self \<noteq> []
     then raise (KafkaException (Some (hd (mp_delivery_errors self))))
     else
       thn (on_producer (\<lambda>h. rk_produce rk h topic (SerializeToString pb record) key))
           (on_producer (\<lambda>h. rk_poll rk h py_zero)))"

definition flush :: "('w, 'h) rdkafka \<Rightarrow> pyfloat \<Rightarrow> ('h producer \<times> 'w, int) eff" where
  "flush rk timeout =
     bnd (self_gets id) (\<lambda>self.
     if mp_closed self then runtime_error
     else if mp_fatal self then runtime_error
     else
       bnd (on_producer (\<lambda>h. rk_flush rk h timeout)) (\<lambda>remaining.
       bnd (self_gets mp_delivery_errors) (\<lambda>errors.
       if errors \<noteq> [] then raise (KafkaException (Some (hd errors))) else ret remaining)))"

definition flush_or_raise :: "('w, 'h) rdkafka \<Rightarrow> pyfloat \<Rightarrow> ('h producer \<times> 'w, unit) eff" where
  "flush_or_raise rk timeout =
     bnd (flush rk timeout) (\<lambda>remaining. if remaining > 0 then raise TimeoutError else ret ())"

definition mark_fatal :: "('h producer \<times> 'w, unit) eff" where
  "mark_fatal = self_modify (\<lambda>p. p\<lparr>mp_fatal := True\<rparr>)"

definition producer_len :: "('w, 'h) rdkafka \<Rightarrow> ('h producer \<times> 'w, int) eff" where
  "producer_len rk =
     bnd (self_gets id) (\<lambda>self.
     if mp_closed self then runtime_error
     else if mp_fatal self then runtime_error
     else on_producer (rk_len rk))"

text \<open>\<open>close\<close>: every call is on the handle read at the start, and what it raises is logged.\<close>

definition ignoring :: "('s, unit) eff \<Rightarrow> ('s, unit) eff" where
  "ignoring m = catch m is_Exception (\<lambda>_. ret ())"

definition producer_close :: "('w, 'h) rdkafka \<Rightarrow> pyfloat \<Rightarrow> ('h producer \<times> 'w, unit) eff" where
  "producer_close rk timeout =
     bnd (self_gets id) (\<lambda>self.
     if mp_closed self then ret ()
     else
       thn (if mp_transactional self \<and> mp_txn_open self
            then ignoring (thn (on_producer (\<lambda>h. rk_abort_transaction rk h timeout))
                               (self_modify (\<lambda>p. p\<lparr>mp_txn_open := False\<rparr>)))
            else ret ())
       (bnd (catch
               (bnd (on_producer (\<lambda>h. rk_flush rk h timeout)) (\<lambda>undelivered. ret (False, undelivered)))
               is_Exception
               (\<lambda>_. catch (bnd (on_producer (rk_len rk)) (\<lambda>undelivered. ret (True, undelivered)))
                      is_Exception (\<lambda>_. ret (True, -1))))
         (\<lambda>(flush_failed, undelivered).
          thn (if undelivered > 0 \<or> flush_failed
               then ignoring (thn (on_producer (rk_purge rk))
                                  (bnd (on_producer (\<lambda>h. rk_flush rk h timeout)) (\<lambda>_. ret ())))
               else ret ())
              (self_modify (\<lambda>p. p\<lparr>mp_producer := None, mp_closed := True\<rparr>)))))"

section \<open>Rules for calls\<close>

lemma wp_runtime_error [wp_simps]: "wp runtime_error Q E s \<longleftrightarrow> E (RuntimeError []) s"
  by (simp add: runtime_error_def wp_simps)

lemma run_producer [run_simps]:
  "runtime_error s = (Inl (RuntimeError []), s)"
  "served m s = (case m (snd s) of (r, callbacks, w) \<Rightarrow> (r, (fold serve_callback callbacks (fst s), w)))"
  by (simp_all add: runtime_error_def served_def run_simps)

text \<open>What a served callback can change: errors are appended, the fatal mark is set.\<close>

definition after_calls :: "kafka_error list \<Rightarrow> bool \<Rightarrow> 'h producer \<Rightarrow> 'h producer" where
  "after_calls errs bad p =
     p\<lparr>mp_delivery_errors := mp_delivery_errors p @ errs, mp_fatal := mp_fatal p \<or> bad\<rparr>"

lemma after_calls_fields [simp]:
  "mp_user_error_cb (after_calls errs bad p) = mp_user_error_cb p"
  "mp_producer (after_calls errs bad p) = mp_producer p"
  "mp_delivery_errors (after_calls errs bad p) = mp_delivery_errors p @ errs"
  "mp_transactional (after_calls errs bad p) = mp_transactional p"
  "mp_txn_initialized (after_calls errs bad p) = mp_txn_initialized p"
  "mp_txn_open (after_calls errs bad p) = mp_txn_open p"
  "mp_closed (after_calls errs bad p) = mp_closed p"
  "mp_fatal (after_calls errs bad p) \<longleftrightarrow> mp_fatal p \<or> bad"
  by (simp_all add: after_calls_def)

lemma fold_serve: "\<exists>errs bad. fold serve_callback callbacks p = after_calls errs bad p"
proof (induction callbacks arbitrary: p)
  case Nil
  show ?case
    by (intro exI [of _ "[]"] exI [of _ False]) (simp add: after_calls_def)
next
  case (Cons c callbacks)
  obtain errs bad where "serve_callback c p = after_calls errs bad p"
  proof (cases c)
    case (DeliveryReport r)
    then show ?thesis
      using that [of "[]" False] that [of "[the r]" False] by (cases r) (auto simp: after_calls_def)
  next
    case (ErrorCallback err)
    then show ?thesis
      using that [of "[]" False] that [of "[]" True]
      by (cases "ke_fatal err = Some True") (auto simp: after_calls_def)
  qed
  moreover obtain errs' bad' where "fold serve_callback callbacks (after_calls errs bad p) =
      after_calls errs' bad' (after_calls errs bad p)"
    using Cons by blast
  ultimately have "fold serve_callback (c # callbacks) p = after_calls (errs @ errs') (bad \<or> bad') p"
    by (simp add: after_calls_def disj_assoc)
  then show ?case by blast
qed

lemma wp_served:
  assumes "\<And>x cbs w errs bad. m (snd s) = (Inr x, cbs, w) \<Longrightarrow> Q x (after_calls errs bad (fst s), w)"
    and "\<And>e cbs w errs bad. m (snd s) = (Inl e, cbs, w) \<Longrightarrow> E e (after_calls errs bad (fst s), w)"
  shows "wp (served m) Q E s"
proof -
  obtain r cbs w where m: "m (snd s) = (r, cbs, w)"
    by (cases "m (snd s)")
  obtain errs bad where "fold serve_callback cbs (fst s) = after_calls errs bad (fst s)"
    using fold_serve by blast
  with m assms show ?thesis
    by (cases r) (auto simp: wp_def served_def)
qed

lemma wp_on_producer:
  assumes "mp_producer (fst s) = Some h"
    and "\<And>x cbs w errs bad. f h (snd s) = (Inr x, cbs, w) \<Longrightarrow> Q x (after_calls errs bad (fst s), w)"
    and "\<And>e cbs w errs bad. f h (snd s) = (Inl e, cbs, w) \<Longrightarrow> E e (after_calls errs bad (fst s), w)"
  shows "wp (on_producer f) Q E s"
  using assms by (auto simp: on_producer_def wp_simps intro!: wp_served)

section \<open>The invariant\<close>

definition producer_inv :: "'h producer \<Rightarrow> bool" where
  "producer_inv p \<longleftrightarrow> (mp_closed p \<longleftrightarrow> mp_producer p = None) \<and>
     (mp_txn_open p \<longrightarrow> mp_txn_initialized p) \<and> (mp_txn_initialized p \<longrightarrow> mp_transactional p)"

text \<open>The public methods, as one function, so that a session is a list of calls.\<close>

datatype producer_method =
    InitTransactions pyfloat
  | BeginTransaction
  | CommitTransaction pyfloat
  | AbortTransaction pyfloat
  | Produce pystr pb_record "bytes option"
  | Flush pyfloat
  | FlushOrRaise pyfloat
  | MarkFatal
  | Length
  | Close pyfloat

definition ignore_result :: "('s, 'a) eff \<Rightarrow> ('s, unit) eff" where
  "ignore_result m = bnd m (\<lambda>_. ret ())"

fun call_method ::
  "protobuf \<Rightarrow> ('w, 'h) rdkafka \<Rightarrow> producer_method \<Rightarrow> ('h producer \<times> 'w, unit) eff" where
  "call_method pb rk (InitTransactions timeout) = init_transactions rk timeout"
| "call_method pb rk BeginTransaction = begin_transaction rk"
| "call_method pb rk (CommitTransaction timeout) = commit_transaction rk timeout"
| "call_method pb rk (AbortTransaction timeout) = abort_transaction rk timeout"
| "call_method pb rk (Produce topic record key) = produce pb rk topic record key"
| "call_method pb rk (Flush timeout) = ignore_result (flush rk timeout)"
| "call_method pb rk (FlushOrRaise timeout) = flush_or_raise rk timeout"
| "call_method pb rk MarkFatal = mark_fatal"
| "call_method pb rk Length = ignore_result (producer_len rk)"
| "call_method pb rk (Close timeout) = producer_close rk timeout"

text \<open>Run a session: each call with its outcome, the exception it raised or \<open>None\<close>.\<close>

fun run_methods ::
  "protobuf \<Rightarrow> ('w, 'h) rdkafka \<Rightarrow> producer_method list \<Rightarrow> 'h producer \<times> 'w \<Rightarrow>
     (producer_method \<times> exn option) list \<times> 'h producer \<times> 'w" where
  "run_methods pb rk [] s = ([], s)"
| "run_methods pb rk (m # ms) s =
     (case call_method pb rk m s of (r, t) \<Rightarrow>
        (case run_methods pb rk ms t of (es, u) \<Rightarrow>
           ((m, case r of Inl e \<Rightarrow> Some e | Inr _ \<Rightarrow> None) # es, u)))"

text \<open>One call, seen from the flags: the effect of a success, and what every call preserves.\<close>

fun succeeds_to :: "producer_method \<Rightarrow> 'h producer \<Rightarrow> 'h producer \<Rightarrow> bool" where
  "succeeds_to (InitTransactions _) p q \<longleftrightarrow> \<not> mp_closed p \<and> \<not> mp_fatal p \<and>
     \<not> mp_txn_initialized p \<and> mp_txn_initialized q \<and> \<not> mp_txn_open q"
| "succeeds_to BeginTransaction p q \<longleftrightarrow> \<not> mp_closed p \<and> \<not> mp_fatal p \<and>
     mp_txn_initialized p \<and> \<not> mp_txn_open p \<and> mp_txn_open q"
| "succeeds_to (CommitTransaction _) p q \<longleftrightarrow> \<not> mp_closed p \<and> \<not> mp_fatal p \<and>
     mp_txn_open p \<and> \<not> mp_txn_open q \<and> mp_delivery_errors q = []"
| "succeeds_to (AbortTransaction _) p q \<longleftrightarrow> \<not> mp_closed p \<and> \<not> mp_fatal p \<and>
     mp_txn_open p \<and> \<not> mp_txn_open q \<and> mp_delivery_errors q = []"
| "succeeds_to (Produce _ _ _) p q \<longleftrightarrow> \<not> mp_closed p \<and> \<not> mp_fatal p \<and>
     (if mp_transactional p then mp_txn_open p else mp_delivery_errors p = []) \<and>
     mp_txn_open q = mp_txn_open p"
| "succeeds_to (Flush _) p q \<longleftrightarrow> \<not> mp_closed p \<and> \<not> mp_fatal p \<and>
     mp_delivery_errors p = [] \<and> mp_delivery_errors q = [] \<and> mp_txn_open q = mp_txn_open p"
| "succeeds_to (FlushOrRaise _) p q \<longleftrightarrow> \<not> mp_closed p \<and> \<not> mp_fatal p \<and>
     mp_delivery_errors p = [] \<and> mp_delivery_errors q = [] \<and> mp_txn_open q = mp_txn_open p"
| "succeeds_to MarkFatal p q \<longleftrightarrow> mp_fatal q \<and> mp_txn_open q = mp_txn_open p"
| "succeeds_to Length p q \<longleftrightarrow> \<not> mp_closed p \<and> \<not> mp_fatal p \<and> mp_txn_open q = mp_txn_open p"
| "succeeds_to (Close _) p q \<longleftrightarrow> mp_closed q \<and> (mp_txn_open q \<longrightarrow> mp_txn_open p)"

definition carries_on :: "'h producer \<Rightarrow> 'h producer \<Rightarrow> bool" where
  "carries_on p q \<longleftrightarrow> mp_transactional q = mp_transactional p \<and>
     (mp_closed p \<longrightarrow> mp_closed q) \<and> (mp_fatal p \<longrightarrow> mp_fatal q) \<and>
     (mp_txn_initialized p \<longrightarrow> mp_txn_initialized q) \<and>
     (\<not> mp_transactional p \<longrightarrow> prefix (mp_delivery_errors p) (mp_delivery_errors q))"

lemma carries_on_refl [simp]: "carries_on p p"
  by (simp add: carries_on_def)

lemma carries_on_trans: "carries_on p q \<Longrightarrow> carries_on q r \<Longrightarrow> carries_on p r"
  by (auto simp: carries_on_def)

text \<open>A call on the handle of an open object, when only the frame matters.\<close>

lemma wp_open_any:
  assumes "producer_inv (fst s)" "\<not> mp_closed (fst s)"
    and "\<And>x w errs bad. Q x (after_calls errs bad (fst s), w)"
    and "\<And>e w errs bad. E e (after_calls errs bad (fst s), w)"
  shows "wp (on_producer f) Q E s"
proof -
  obtain h where "mp_producer (fst s) = Some h"
    using assms(1,2) by (auto simp: producer_inv_def)
  then show ?thesis
    by (rule wp_on_producer) (use assms(3,4) in auto)
qed

lemma after_calls_inv [simp]: "producer_inv (after_calls errs bad p) \<longleftrightarrow> producer_inv p"
  by (simp add: producer_inv_def)

definition ok_post :: "producer_method \<Rightarrow> 'h producer \<Rightarrow> 'h producer \<Rightarrow> bool" where
  "ok_post m p q \<longleftrightarrow> producer_inv q \<and> carries_on p q \<and> succeeds_to m p q \<and>
     ((\<forall>timeout. m \<noteq> InitTransactions timeout) \<longrightarrow> mp_txn_initialized q = mp_txn_initialized p)"

definition err_post :: "producer_method \<Rightarrow> 'h producer \<Rightarrow> 'h producer \<Rightarrow> bool" where
  "err_post m p q \<longleftrightarrow> producer_inv q \<and> carries_on p q \<and>
     mp_txn_initialized q = mp_txn_initialized p \<and>
     ((\<forall>timeout. m \<noteq> Close timeout) \<longrightarrow> mp_txn_open q = mp_txn_open p)"

lemmas post_defs = ok_post_def err_post_def carries_on_def producer_inv_def

lemma err_post_after [simp]: "producer_inv p \<Longrightarrow> err_post m p (after_calls errs bad p)"
  by (simp add: post_defs)

lemma err_post_after_twice [simp]:
  "producer_inv p \<Longrightarrow> err_post m p (after_calls errs' bad' (after_calls errs bad p))"
  by (simp add: post_defs)

lemma err_post_refl [simp]: "producer_inv p \<Longrightarrow> err_post m p p"
  by (simp add: post_defs)

lemma err_post_fatal [simp]:
  "err_post m p q \<Longrightarrow> err_post m p (q\<lparr>mp_fatal := True\<rparr>)"
  by (clarsimp simp: post_defs)

lemma transaction_effects:
  assumes "producer_inv (fst s)"
  shows "wp (init_transactions rk timeout) (\<lambda>_ t. ok_post (InitTransactions timeout) (fst s) (fst t))
      (\<lambda>_ t. err_post (InitTransactions timeout) (fst s) (fst t)) s"
    and "wp (begin_transaction rk) (\<lambda>_ t. ok_post BeginTransaction (fst s) (fst t))
      (\<lambda>_ t. err_post BeginTransaction (fst s) (fst t)) s"
    and "wp (commit_transaction rk timeout) (\<lambda>_ t. ok_post (CommitTransaction timeout) (fst s) (fst t))
      (\<lambda>_ t. err_post (CommitTransaction timeout) (fst s) (fst t)) s"
    and "wp (abort_transaction rk timeout) (\<lambda>_ t. ok_post (AbortTransaction timeout) (fst s) (fst t))
      (\<lambda>_ t. err_post (AbortTransaction timeout) (fst s) (fst t)) s"
proof -
  show "wp (init_transactions rk timeout) (\<lambda>_ t. ok_post (InitTransactions timeout) (fst s) (fst t))
      (\<lambda>_ t. err_post (InitTransactions timeout) (fst s) (fst t)) s"
    using assms
    by (simp add: init_transactions_def require_transactional_def marking_fatal_def wp_simps)
      (auto intro!: wp_open_any simp: wp_self_modify ok_post_def carries_on_def producer_inv_def)
  show "wp (begin_transaction rk) (\<lambda>_ t. ok_post BeginTransaction (fst s) (fst t))
      (\<lambda>_ t. err_post BeginTransaction (fst s) (fst t)) s"
    using assms
    by (simp add: begin_transaction_def require_transactional_def marking_fatal_def wp_simps)
      (auto intro!: wp_open_any simp: wp_self_modify ok_post_def carries_on_def producer_inv_def)
  show "wp (commit_transaction rk timeout) (\<lambda>_ t. ok_post (CommitTransaction timeout) (fst s) (fst t))
      (\<lambda>_ t. err_post (CommitTransaction timeout) (fst s) (fst t)) s"
    using assms
    by (simp add: commit_transaction_def require_transactional_def marking_fatal_def wp_simps)
      (auto intro!: wp_open_any simp: wp_self_modify ok_post_def carries_on_def producer_inv_def)
  show "wp (abort_transaction rk timeout) (\<lambda>_ t. ok_post (AbortTransaction timeout) (fst s) (fst t))
      (\<lambda>_ t. err_post (AbortTransaction timeout) (fst s) (fst t)) s"
    using assms
    by (simp add: abort_transaction_def require_transactional_def wp_simps)
      (auto intro!: wp_open_any simp: wp_self_modify ok_post_def carries_on_def producer_inv_def)
qed

lemma producing_effects:
  assumes "producer_inv (fst s)"
  shows "wp (produce pb rk topic r key) (\<lambda>_ t. ok_post (Produce topic r key) (fst s) (fst t))
      (\<lambda>_ t. err_post (Produce topic r key) (fst s) (fst t)) s"
    and "wp (flush rk timeout) (\<lambda>_ t. ok_post (Flush timeout) (fst s) (fst t))
      (\<lambda>_ t. err_post (Flush timeout) (fst s) (fst t)) s"
    and "wp (producer_len rk) (\<lambda>_ t. ok_post Length (fst s) (fst t))
      (\<lambda>_ t. err_post Length (fst s) (fst t)) s"
    and "wp mark_fatal (\<lambda>_ t. ok_post MarkFatal (fst s) (fst t))
      (\<lambda>_ t. err_post MarkFatal (fst s) (fst t)) s"
proof -
  show "wp (produce pb rk topic r key) (\<lambda>_ t. ok_post (Produce topic r key) (fst s) (fst t))
      (\<lambda>_ t. err_post (Produce topic r key) (fst s) (fst t)) s"
    using assms
    by (simp add: produce_def wp_simps)
      (auto intro!: wp_open_any simp: ok_post_def carries_on_def)
  show "wp (flush rk timeout) (\<lambda>_ t. ok_post (Flush timeout) (fst s) (fst t))
      (\<lambda>_ t. err_post (Flush timeout) (fst s) (fst t)) s"
    using assms
    by (simp add: flush_def wp_simps)
      (auto intro!: wp_open_any simp: wp_simps ok_post_def carries_on_def)
  show "wp (producer_len rk) (\<lambda>_ t. ok_post Length (fst s) (fst t))
      (\<lambda>_ t. err_post Length (fst s) (fst t)) s"
    using assms
    by (simp add: producer_len_def wp_simps)
      (auto intro!: wp_open_any simp: ok_post_def carries_on_def)
  show "wp mark_fatal (\<lambda>_ t. ok_post MarkFatal (fst s) (fst t))
      (\<lambda>_ t. err_post MarkFatal (fst s) (fst t)) s"
    using assms
    by (simp add: mark_fatal_def wp_simps post_defs)
qed

text \<open>\<open>close\<close> in three parts: abort, drain, release.\<close>

definition closing :: "'h producer \<Rightarrow> 'h producer \<Rightarrow> bool" where
  "closing p q \<longleftrightarrow> producer_inv q \<and> carries_on p q \<and> mp_closed q = mp_closed p \<and>
     mp_txn_initialized q = mp_txn_initialized p \<and> (mp_txn_open q \<longrightarrow> mp_txn_open p)"

lemma closing_refl: "producer_inv p \<Longrightarrow> closing p p"
  by (simp add: closing_def)

lemma closing_after: "closing p q \<Longrightarrow> closing p (after_calls errs bad q)"
  by (auto simp: closing_def carries_on_def intro: prefix_order.trans)

lemma closing_unopen: "closing p q \<Longrightarrow> closing p (q\<lparr>mp_txn_open := False\<rparr>)"
  by (clarsimp simp: closing_def carries_on_def producer_inv_def)

lemma closing_err: "closing p q \<Longrightarrow> err_post (Close timeout) p q"
  by (simp add: closing_def err_post_def)

lemma closing_call:
  assumes "closing p (fst s)" "\<not> mp_closed p"
  shows "wp (on_producer f) (\<lambda>_ t. closing p (fst t)) (\<lambda>_ t. closing p (fst t)) s"
  using assms by (intro wp_open_any) (auto simp: closing_def [of p "fst s"] intro: closing_after)

definition drained :: "'h producer \<Rightarrow> ('h producer \<times> 'w, 'a) eff \<Rightarrow> bool" where
  "drained p m \<longleftrightarrow> (\<forall>s. closing p (fst s) \<longrightarrow>
     wp m (\<lambda>_ t. closing p (fst t)) (\<lambda>e t. closing p (fst t) \<and> \<not> is_Exception e) s)"

lemma drained_ignoring:
  assumes "\<And>s. closing p (fst s) \<Longrightarrow> wp m (\<lambda>_ t. closing p (fst t)) (\<lambda>_ t. closing p (fst t)) s"
  shows "drained p (ignoring m)"
  unfolding drained_def ignoring_def wp_catch wp_ret
  using assms by (auto elim!: wp_weaken)

lemma drained_abort:
  assumes "\<not> mp_closed p"
  shows "drained p (ignoring (thn (on_producer f) (self_modify (\<lambda>p. p\<lparr>mp_txn_open := False\<rparr>))))"
  by (intro drained_ignoring, unfold wp_thn wp_self_modify)
    (auto intro!: wp_weaken [OF closing_call [OF _ assms]] closing_unopen)

lemma drained_purge:
  assumes "\<not> mp_closed p"
  shows "drained p (ignoring (thn (on_producer f) (bnd (on_producer g) (\<lambda>_. ret ()))))"
  by (intro drained_ignoring, unfold wp_thn wp_bnd wp_ret)
    (auto intro!: wp_weaken [OF closing_call [OF _ assms]])

lemma drained_flush:
  assumes "\<not> mp_closed p"
  shows "drained p (catch (bnd (on_producer f) (\<lambda>n. ret (False, n))) is_Exception
    (\<lambda>_. catch (bnd (on_producer g) (\<lambda>n. ret (True, n))) is_Exception (\<lambda>_. ret (True, -1))))"
  unfolding drained_def wp_catch wp_bnd wp_ret
  by (auto intro!: wp_weaken [OF closing_call [OF _ assms]])

lemma drained_return: "drained p (ret x)"
  by (simp add: drained_def wp_ret)

lemma drained_bnd: "drained p m \<Longrightarrow> (\<And>x. drained p (f x)) \<Longrightarrow> drained p (bnd m f)"
  unfolding drained_def wp_bnd by (blast intro: wp_weaken)

lemma drainedD:
  "drained p m \<Longrightarrow> closing p (fst s) \<Longrightarrow>
     wp m (\<lambda>_ t. closing p (fst t)) (\<lambda>e t. closing p (fst t) \<and> \<not> is_Exception e) s"
  unfolding drained_def by blast

lemma drained_thn: "drained p m \<Longrightarrow> drained p k \<Longrightarrow> drained p (thn m k)"
  unfolding thn_def by (rule drained_bnd)

lemma drained_if: "(b \<Longrightarrow> drained p m) \<Longrightarrow> (\<not> b \<Longrightarrow> drained p n) \<Longrightarrow> drained p (if b then m else n)"
  by simp

lemma close_effect_producer:
  assumes "producer_inv (fst s)"
  shows "wp (producer_close rk timeout)
    (\<lambda>_ t. ok_post (Close timeout) (fst s) (fst t))
    (\<lambda>e t. err_post (Close timeout) (fst s) (fst t) \<and> \<not> is_Exception e) s"
proof (cases "mp_closed (fst s)")
  case True
  with assms show ?thesis
    by (simp add: producer_close_def wp_simps ok_post_def)
next
  case False
  have release: "ok_post (Close timeout) (fst s) (q\<lparr>mp_producer := None, mp_closed := True\<rparr>)"
    if "closing (fst s) q" for q
    using that by (auto simp: closing_def ok_post_def carries_on_def producer_inv_def)
  let ?abort = "if mp_transactional (fst s) \<and> mp_txn_open (fst s)
      then ignoring (thn (on_producer (\<lambda>h. rk_abort_transaction rk h timeout))
                         (self_modify (\<lambda>p. p\<lparr>mp_txn_open := False\<rparr>)))
      else ret ()"
  let ?drain = "catch
      (bnd (on_producer (\<lambda>h. rk_flush rk h timeout)) (\<lambda>undelivered. ret (False, undelivered)))
      is_Exception
      (\<lambda>_. catch (bnd (on_producer (rk_len rk)) (\<lambda>undelivered. ret (True, undelivered)))
             is_Exception (\<lambda>_. ret (True, -1)))"
  let ?purge = "\<lambda>(flush_failed, undelivered). if undelivered > (0 :: int) \<or> flush_failed
      then ignoring (thn (on_producer (rk_purge rk))
                         (bnd (on_producer (\<lambda>h. rk_flush rk h timeout)) (\<lambda>_. ret ())))
      else ret ()"
  have "drained (fst s) (thn ?abort (bnd ?drain ?purge))"
    using False
    by (auto intro!: drained_thn drained_bnd drained_if drained_abort drained_purge drained_flush
        drained_return)
  then have "wp (thn ?abort (bnd ?drain ?purge)) (\<lambda>_ t. closing (fst s) (fst t))
      (\<lambda>e t. closing (fst s) (fst t) \<and> \<not> is_Exception e) s"
    using closing_refl [OF assms] by (rule drainedD)
  then have "wp (thn ?abort (bnd ?drain ?purge))
      (\<lambda>_ t. ok_post (Close timeout) (fst s) ((fst t)\<lparr>mp_producer := None, mp_closed := True\<rparr>))
      (\<lambda>e t. err_post (Close timeout) (fst s) (fst t) \<and> \<not> is_Exception e) s"
    by (rule wp_weaken) (auto intro: release closing_err)
  with False show ?thesis
    by (simp add: producer_close_def split_beta wp_fun wp_bnd wp_thn wp_self_gets wp_self_modify_fun
        split del: if_split)
qed

text \<open>Every method of the object at once.\<close>

lemma wp_ignore_result: "wp (ignore_result m) Q E s \<longleftrightarrow> wp m (\<lambda>_. Q ()) E s"
  by (simp add: ignore_result_def wp_bnd wp_fun)

lemma flush_or_raise_effect:
  assumes "producer_inv (fst s)"
  shows "wp (flush_or_raise rk timeout) (\<lambda>_ t. ok_post (FlushOrRaise timeout) (fst s) (fst t))
    (\<lambda>_ t. err_post (FlushOrRaise timeout) (fst s) (fst t)) s"
  unfolding flush_or_raise_def wp_bnd
  by (rule wp_weaken [OF producing_effects(2) [OF assms]])
    (auto simp: wp_simps ok_post_def err_post_def)

lemma call_effect:
  assumes "producer_inv (fst s)"
  shows "wp (call_method pb rk m) (\<lambda>_ t. ok_post m (fst s) (fst t))
    (\<lambda>_ t. err_post m (fst s) (fst t)) s"
  using transaction_effects [OF assms] producing_effects [OF assms] flush_or_raise_effect [OF assms]
    wp_weaken [OF close_effect_producer [OF assms]]
  by (cases m) (auto simp: wp_ignore_result)

lemma call_inv:
  assumes "call_method pb rk m s = (r, t)" "producer_inv (fst s)"
  shows "producer_inv (fst t)" "carries_on (fst s) (fst t)"
    "r = Inr u \<Longrightarrow> succeeds_to m (fst s) (fst t)"
    "r = Inl e \<Longrightarrow> err_post m (fst s) (fst t)"
  using call_effect [OF assms(2), of pb rk m] assms(1)
  by (auto simp: wp_def ok_post_def err_post_def split: sum.splits)

lemma run_methods_inv:
  assumes "run_methods pb rk ms s = (es, t)" "producer_inv (fst s)"
  shows "producer_inv (fst t) \<and> carries_on (fst s) (fst t)"
  using assms
proof (induction ms arbitrary: s es)
  case (Cons m ms)
  obtain r u where r: "call_method pb rk m s = (r, u)"
    by (cases "call_method pb rk m s")
  with Cons.prems obtain es' where "run_methods pb rk ms u = (es', t)"
    by (auto split: prod.splits)
  with Cons.IH call_inv(1,2) [OF r Cons.prems(2)] show ?case
    by (blast intro: carries_on_trans)
qed simp

text \<open>A closed or fatal object raises at once.\<close>

lemma gate:
  assumes "mp_closed p \<or> mp_fatal p" "m \<noteq> MarkFatal" "\<forall>timeout. m \<noteq> Close timeout"
  shows "call_method pb rk m (p, w) = (Inl (RuntimeError []), (p, w))"
  using assms
  by (cases m)
    (auto simp: init_transactions_def begin_transaction_def commit_transaction_def
      abort_transaction_def require_transactional_def produce_def flush_def flush_or_raise_def
      ignore_result_def producer_len_def run_simps)

end
