(* ===== verification/Kafka_Delivery.thy ===== *)
theory Kafka_Delivery
  imports Kafka_Producer Proto3
begin

text \<open>
  The guarantees of \<open>MutationProducer\<close>, over every behaviour of librdkafka: which results its
  calls have and which callbacks they serve is arbitrary. \<open>demo_rdkafka\<close> is the concrete
  one of the examples: every call succeeds and serves no callback.
\<close>

section \<open>A concrete librdkafka\<close>

definition quiet :: "'a \<Rightarrow> (unit, 'a) kafka_call" where
  "quiet x w = (Inr x, [], w)"

definition demo_rdkafka :: "(unit, unit) rdkafka" where
  "demo_rdkafka = \<lparr>rk_new = (\<lambda>_. ret ()), rk_init_transactions = (\<lambda>_ _. quiet ()),
     rk_begin_transaction = (\<lambda>_. quiet ()), rk_commit_transaction = (\<lambda>_ _. quiet ()),
     rk_abort_transaction = (\<lambda>_ _. quiet ()), rk_produce = (\<lambda>_ _ _ _. quiet ()),
     rk_poll = (\<lambda>_ _. quiet ()), rk_flush = (\<lambda>_ _. quiet 0), rk_purge = (\<lambda>_. quiet ()),
     rk_len = (\<lambda>_. quiet 0)\<rparr>"

definition demo_error :: kafka_error where
  "demo_error = \<lparr>ke_fatal = Some False, ke_retriable = Some False, ke_txn_requires_abort = Some False\<rparr>"

definition demo_producer :: "bool \<Rightarrow> unit producer" where
  "demo_producer transactional =
     \<lparr>mp_user_error_cb = False, mp_producer = Some (), mp_delivery_errors = [],
      mp_transactional = transactional, mp_txn_initialized = False, mp_txn_open = False,
      mp_closed = False, mp_fatal = False\<rparr>"

lemma demo_producer_inv: "producer_inv (demo_producer transactional)"
  by (simp add: producer_inv_def demo_producer_def)

section \<open>Configuration\<close>

text \<open>C36: Callers cannot weaken durability or ordering. Whatever extra configuration is accepted, the
  dictionary handed to librdkafka has every mandatory setting at its mandatory value, the
  transactional id that was passed (and none otherwise) and the object's own error callback;
  a caller's value survives for every other key.\<close>

theorem mandatory_config_wins:
  assumes "merged_config servers extra txid = Inr merged"
  shows "(\<forall>(k, v) \<in> set MANDATORY_CONFIG. merged k = Some v) \<and>
    merged ''transactional.id'' = map_option (\<lambda>t. Setting (PStr t)) txid \<and> txid \<noteq> Some [] \<and>
    merged ''error_cb'' = Some OwnErrorCb \<and>
    (\<forall>k v. map_of extra k = Some v \<longrightarrow> k \<noteq> ''error_cb'' \<longrightarrow> merged k = Some v)"
proof -
  have forbidden: "map_of extra k = None" if "k \<in> set FORBIDDEN_EXTRA_KEYS" for k
    using assms that by (auto simp: merged_config_def map_of_eq_None_iff split: if_splits)
  have merged: "merged = ([''bootstrap.servers'' \<mapsto> Setting (PStr servers)]
      ++ map_of DEFAULT_PERFORMANCE_CONFIG ++ map_of extra
      ++ (case txid of None \<Rightarrow> Map.empty | Some t \<Rightarrow> [''transactional.id'' \<mapsto> Setting (PStr t)])
      ++ map_of MANDATORY_CONFIG)(''error_cb'' \<mapsto> OwnErrorCb)" and txid: "txid \<noteq> Some []"
    using assms by (auto simp: merged_config_def split: if_splits)
  have "\<forall>(k, v) \<in> set MANDATORY_CONFIG. merged k = Some v"
    by (simp add: merged MANDATORY_CONFIG_def)
  moreover have "merged ''transactional.id'' = map_option (\<lambda>t. Setting (PStr t)) txid"
    using forbidden [of "''transactional.id''"]
    by (cases txid) (simp_all add: merged MANDATORY_CONFIG_def DEFAULT_PERFORMANCE_CONFIG_def
        FORBIDDEN_EXTRA_KEYS_def map_add_def)
  moreover have "merged k = Some v" if "map_of extra k = Some v" "k \<noteq> ''error_cb''" for k v
  proof -
    have "k \<notin> set FORBIDDEN_EXTRA_KEYS"
      using that forbidden [of k] by auto
    then have "map_of MANDATORY_CONFIG k = None" "k \<noteq> ''transactional.id''"
      by (auto simp: FORBIDDEN_EXTRA_KEYS_def map_of_eq_None_iff)
    with that show ?thesis
      by (cases txid) (simp_all add: merged map_add_Some_iff)
  qed
  ultimately show ?thesis
    using txid by (simp add: merged)
qed

theorem mandatory_config_wins_witness:
  "\<exists>merged. merged_config [] [(''linger.ms'', Setting (PInt 50))] (Some [98]) = Inr merged \<and>
    merged ''acks'' = Some (Setting (PStr (ascii ''all''))) \<and>
    merged ''linger.ms'' = Some (Setting (PInt 50))"
proof -
  have "\<exists>merged. merged_config [] [(''linger.ms'', Setting (PInt 50))] (Some [98]) = Inr merged"
    by (simp add: merged_config_def FORBIDDEN_EXTRA_KEYS_def MANDATORY_CONFIG_def)
  then obtain merged where m: "merged_config [] [(''linger.ms'', Setting (PInt 50))] (Some [98]) = Inr merged"
    by blast
  from mandatory_config_wins [OF m] m show ?thesis
    by (auto simp: MANDATORY_CONFIG_def)
qed

section \<open>The gates\<close>

text \<open>C37: A closed or fatal producer does nothing but close: every other method (\<open>mark_fatal\<close> apart,
  which only sets the mark) raises \<open>RuntimeError\<close>, leaves the object as it is and makes no call on
  librdkafka, so a dropped handle is never used.\<close>

theorem closed_or_fatal_gate:
  assumes "mp_closed p \<or> mp_fatal p" "m \<noteq> MarkFatal" "\<forall>timeout. m \<noteq> Close timeout"
  shows "call_method pb rk m (p, w) = (Inl (RuntimeError []), (p, w))"
  using assms by (rule gate)

theorem closed_or_fatal_gate_witness:
  "call_method proto3 demo_rdkafka (Flush (Finite 10)) ((demo_producer True)\<lparr>mp_fatal := True\<rparr>, ()) =
     (Inl (RuntimeError []), ((demo_producer True)\<lparr>mp_fatal := True\<rparr>, ()))"
  by (rule closed_or_fatal_gate) simp_all

text \<open>C38: \<open>close\<close> always ends with the object closed and the handle dropped. It never raises an
  \<open>Exception\<close>, whatever abort, flush, length or purge do, and a second \<open>close\<close> does nothing.\<close>

theorem close_always_closes:
  assumes "producer_inv p" "call_method pb rk (Close timeout) (p, w) = (r, (q, w'))"
  shows "(case r of Inl e \<Rightarrow> \<not> is_Exception e
      | Inr _ \<Rightarrow> mp_closed q \<and> mp_producer q = None \<and>
          call_method pb rk (Close timeout') (q, w') = (Inr (), (q, w')))"
proof -
  have "case r of Inl e \<Rightarrow> \<not> is_Exception e | Inr _ \<Rightarrow> mp_closed q \<and> producer_inv q"
    using close_effect_producer [of "(p, w)" rk timeout] assms
    by (auto simp: wp_def ok_post_def split: sum.splits)
  then show ?thesis
    by (auto simp: producer_inv_def producer_close_def run_simps split: sum.splits)
qed

theorem close_always_closes_witness:
  "\<exists>q. call_method proto3 demo_rdkafka (Close (Finite 10)) (demo_producer True, ()) = (Inr (), (q, ())) \<and>
    mp_closed q \<and> mp_producer q = None"
proof -
  obtain q where q: "call_method proto3 demo_rdkafka (Close (Finite 10)) (demo_producer True, ()) =
      (Inr (), (q, ()))"
    by (simp add: producer_close_def run_simps on_producer_def demo_producer_def demo_rdkafka_def
        quiet_def)
  from close_always_closes [OF demo_producer_inv q] q show ?thesis by auto
qed

section \<open>Delivery errors\<close>

text \<open>
  The failed delivery reports among the callbacks that a call serves, and a world that keeps a log of
  them: every call on librdkafka appends the failed reports it serves, in the order it serves them.
\<close>

fun failed_reports :: "kafka_callback list \<Rightarrow> kafka_error list" where
  "failed_reports [] = []"
| "failed_reports (DeliveryReport (Some e) # cs) = e # failed_reports cs"
| "failed_reports (_ # cs) = failed_reports cs"

definition call_logs :: "('w \<Rightarrow> kafka_error list) \<Rightarrow> ('w, 'a) kafka_call \<Rightarrow> bool" where
  "call_logs reports m \<longleftrightarrow> (\<forall>w r cs w'. m w = (r, cs, w') \<longrightarrow> reports w' = reports w @ failed_reports cs)"

definition observes :: "('w \<Rightarrow> kafka_error list) \<Rightarrow> ('w, 'h) rdkafka \<Rightarrow> bool" where
  "observes reports rk \<longleftrightarrow>
     (\<forall>h timeout. call_logs reports (rk_init_transactions rk h timeout)) \<and>
     (\<forall>h. call_logs reports (rk_begin_transaction rk h)) \<and>
     (\<forall>h timeout. call_logs reports (rk_commit_transaction rk h timeout)) \<and>
     (\<forall>h timeout. call_logs reports (rk_abort_transaction rk h timeout)) \<and>
     (\<forall>h topic v key. call_logs reports (rk_produce rk h topic v key)) \<and>
     (\<forall>h timeout. call_logs reports (rk_poll rk h timeout)) \<and>
     (\<forall>h timeout. call_logs reports (rk_flush rk h timeout)) \<and>
     (\<forall>h. call_logs reports (rk_purge rk h)) \<and> (\<forall>h. call_logs reports (rk_len rk h))"

text \<open>Every librdkafka can be given such a log without changing what it does.\<close>

definition with_log :: "('w, 'a) kafka_call \<Rightarrow> ('w \<times> kafka_error list, 'a) kafka_call" where
  "with_log m s = (case m (fst s) of (r, cs, w) \<Rightarrow> (r, cs, (w, snd s @ failed_reports cs)))"

definition logging :: "('w, 'h) rdkafka \<Rightarrow> ('w \<times> kafka_error list, 'h) rdkafka" where
  "logging rk = \<lparr>rk_new = (\<lambda>config s. case rk_new rk config (fst s) of (r, w) \<Rightarrow> (r, (w, snd s))),
     rk_init_transactions = (\<lambda>h timeout. with_log (rk_init_transactions rk h timeout)),
     rk_begin_transaction = (\<lambda>h. with_log (rk_begin_transaction rk h)),
     rk_commit_transaction = (\<lambda>h timeout. with_log (rk_commit_transaction rk h timeout)),
     rk_abort_transaction = (\<lambda>h timeout. with_log (rk_abort_transaction rk h timeout)),
     rk_produce = (\<lambda>h topic v key. with_log (rk_produce rk h topic v key)),
     rk_poll = (\<lambda>h timeout. with_log (rk_poll rk h timeout)),
     rk_flush = (\<lambda>h timeout. with_log (rk_flush rk h timeout)),
     rk_purge = (\<lambda>h. with_log (rk_purge rk h)), rk_len = (\<lambda>h. with_log (rk_len rk h))\<rparr>"

lemma logging_observes: "observes snd (logging rk)"
  by (auto simp: observes_def logging_def call_logs_def with_log_def split: prod.splits)

text \<open>Without transactions the errors that the producer keeps are the log.\<close>

definition follows_log :: "('w \<Rightarrow> kafka_error list) \<Rightarrow> 'h producer \<times> 'w \<Rightarrow> bool" where
  "follows_log reports s \<longleftrightarrow> \<not> mp_transactional (fst s) \<and> mp_delivery_errors (fst s) = reports (snd s)"

lemma fold_serve_reports:
  "mp_delivery_errors (fold serve_callback cs p) = mp_delivery_errors p @ failed_reports cs \<and>
     mp_transactional (fold serve_callback cs p) = mp_transactional p"
  by (induction cs arbitrary: p rule: failed_reports.induct) (auto split: option.splits)

lemma on_producer_follows:
  assumes "\<And>h. call_logs reports (f h)"
  shows "preserves (follows_log reports) (on_producer f)"
proof -
  have "preserves (follows_log reports) (served (f h))" for h
    using assms [of h]
    by (auto simp: preserves_def run_simps follows_log_def call_logs_def fold_serve_reports split: prod.split)
  then show ?thesis
    unfolding on_producer_def
    by (intro preserves_bnd preserves_self_gets) (auto intro: preserves_basic split: option.split)
qed

lemma transactional_methods_follow:
  "preserves (follows_log reports) (init_transactions rk timeout)" "preserves (follows_log reports) (begin_transaction rk)"
  "preserves (follows_log reports) (commit_transaction rk timeout)" "preserves (follows_log reports) (abort_transaction rk timeout)"
  by (auto simp: preserves_def follows_log_def run_simps init_transactions_def begin_transaction_def
      commit_transaction_def abort_transaction_def require_transactional_def)

lemma methods_follow:
  assumes "observes reports rk"
  shows "preserves (follows_log reports) (call_method pb rk m)"
proof -
  have calls: "call_logs reports (rk_produce rk h topic v key)" "call_logs reports (rk_poll rk h timeout)"
    "call_logs reports (rk_flush rk h timeout)" "call_logs reports (rk_purge rk h)" "call_logs reports (rk_len rk h)"
    "call_logs reports (rk_abort_transaction rk h timeout)" for h topic v key timeout
    using assms by (auto simp: observes_def)
  note parts = preserves_intros on_producer_follows calls
  have raising: "preserves (follows_log reports) (runtime_error :: (_, 'x) eff)"
    by (simp add: runtime_error_def preserves_basic)
  have "preserves (follows_log reports) (produce pb rk topic r key)" "preserves (follows_log reports) (flush rk timeout)"
    "preserves (follows_log reports) (producer_len rk)" for topic r key timeout
    unfolding produce_def flush_def producer_len_def
    by (intro parts raising)+
  moreover have "preserves (follows_log reports) (producer_close rk timeout)" for timeout
    unfolding producer_close_def ignoring_def
    by (auto intro!: parts simp: follows_log_def)
  moreover have "preserves (follows_log reports) mark_fatal"
    unfolding mark_fatal_def by (rule preserves_modify) (simp add: follows_log_def)
  ultimately show ?thesis
    by (cases m) (auto simp: transactional_methods_follow ignore_result_def flush_or_raise_def intro!: parts)
qed

lemma run_methods_follow:
  assumes "observes reports rk"
  shows "run_methods pb rk ms s = (es, t) \<Longrightarrow> follows_log reports s \<Longrightarrow> follows_log reports t"
proof (induction ms arbitrary: s es)
  case (Cons m ms)
  then show ?case
    by (auto split: prod.splits dest: preservesD [OF methods_follow [OF assms]])
qed simp

lemma first_error_kept:
  "carries_on p q \<Longrightarrow> \<not> mp_transactional p \<Longrightarrow> mp_delivery_errors p \<noteq> [] \<Longrightarrow>
     mp_delivery_errors q \<noteq> [] \<and> hd (mp_delivery_errors q) = hd (mp_delivery_errors p) \<and>
     \<not> mp_transactional q"
  by (auto simp: carries_on_def prefix_def)

fun delivery_call :: "producer_method \<Rightarrow> bool" where
  "delivery_call (Produce _ _ _) \<longleftrightarrow> True"
| "delivery_call (Flush _) \<longleftrightarrow> True"
| "delivery_call (FlushOrRaise _) \<longleftrightarrow> True"
| "delivery_call _ \<longleftrightarrow> False"

fun flush_call :: "producer_method \<Rightarrow> bool" where
  "flush_call (Flush _) \<longleftrightarrow> True"
| "flush_call (FlushOrRaise _) \<longleftrightarrow> True"
| "flush_call _ \<longleftrightarrow> False"

lemma errors_stick:
  assumes "producer_inv p" "\<not> mp_transactional p" "mp_delivery_errors p \<noteq> []"
    and "run_methods pb rk ms (p, w) = (es, (q, w'))"
  shows "\<forall>(m, outcome) \<in> set es. delivery_call m \<longrightarrow> outcome \<noteq> None"
  using assms
proof (induction ms arbitrary: p w es)
  case (Cons m ms)
  obtain r p1 w1 where r: "call_method pb rk m (p, w) = (r, (p1, w1))"
    by (cases "call_method pb rk m (p, w)") auto
  with Cons.prems(4) obtain es' where run: "run_methods pb rk ms (p1, w1) = (es', (q, w'))"
    and es: "es = (m, case r of Inl e \<Rightarrow> Some e | Inr _ \<Rightarrow> None) # es'"
    by (auto split: prod.splits)
  have inv: "producer_inv p1" and on: "carries_on p p1"
    using call_inv(1,2) [OF r] Cons.prems(1) by auto
  have kept: "mp_delivery_errors p1 \<noteq> []" "\<not> mp_transactional p1"
    using first_error_kept [OF on Cons.prems(2,3)] by auto
  have "r \<noteq> Inr ()" if "delivery_call m"
    using call_inv(3) [OF r, of "()"] Cons.prems(1-3) that by (cases m) auto
  with Cons.IH [OF inv kept(2,1) run] es show ?case
    by (auto split: sum.splits)
qed simp

lemma last_flush:
  assumes "run_methods pb rk ms s = (es, t)" "producer_inv (fst s)" "es \<noteq> []"
    and "flush_call (fst (last es))" "snd (last es) = None"
  shows "mp_delivery_errors (fst t) = []"
  using assms
proof (induction ms arbitrary: s es)
  case (Cons m ms)
  obtain r u where r: "call_method pb rk m s = (r, u)"
    by (cases "call_method pb rk m s")
  with Cons.prems(1) obtain es' where run: "run_methods pb rk ms u = (es', t)"
    and es: "es = (m, case r of Inl e \<Rightarrow> Some e | Inr _ \<Rightarrow> None) # es'"
    by (auto split: prod.splits)
  show ?case
  proof (cases es')
    case Nil
    with run have "t = u"
      by (cases ms) (auto split: prod.splits)
    then show ?thesis
      using call_inv(3) [OF r Cons.prems(2), of "()"] Cons.prems(4,5) es Nil
      by (cases m) (auto split: sum.splits)
  next
    case (Cons e es'')
    then show ?thesis
      using Cons.IH [OF run] call_inv(1) [OF r Cons.prems(2)] Cons.prems(4,5) es by simp
  qed
qed simp

text \<open>C18: In nontransactional mode a permanent delivery failure is never forgotten. Let \<open>reports\<close> read off the failed
  delivery reports that librdkafka has served since a sound producer started without errors. Once a
  report has failed, during whatever calls, the first failure is the error the producer keeps, every
  later \<open>produce\<close>, \<open>flush\<close> and \<open>flush_or_raise\<close> raises, and already the call that served it was no
  \<open>flush\<close> or \<open>flush_or_raise\<close> that returned. So a \<open>flush_or_raise\<close> that returns proves that no
  message was reported as failed since then.\<close>

theorem delivery_errors_are_sticky:
  assumes "producer_inv p" "\<not> mp_transactional p" "mp_delivery_errors p = []" "observes reports rk" "reports w = []"
    and "run_methods pb rk ms (p, w) = (es, (p1, w1))" "reports w1 \<noteq> []"
    and "run_methods pb rk later (p1, w1) = (es', (p2, w2))"
  shows "(\<forall>(m, outcome) \<in> set es'. delivery_call m \<longrightarrow> outcome \<noteq> None) \<and>
    mp_delivery_errors p1 = reports w1 \<and> hd (mp_delivery_errors p2) = hd (reports w1) \<and>
    (es \<noteq> [] \<and> flush_call (fst (last es)) \<longrightarrow> snd (last es) \<noteq> None)"
proof -
  have "follows_log reports (p1, w1)"
    by (rule run_methods_follow [OF assms(4,6)]) (simp add: follows_log_def assms)
  then have errors: "mp_delivery_errors p1 = reports w1" "\<not> mp_transactional p1"
    by (simp_all add: follows_log_def)
  have inv: "producer_inv p1"
    using run_methods_inv [OF assms(6)] assms(1) by simp
  have "carries_on p1 p2"
    using run_methods_inv [OF assms(8)] inv by simp
  from first_error_kept [OF this errors(2)] have "hd (mp_delivery_errors p2) = hd (reports w1)"
    using errors(1) assms(7) by simp
  moreover have "snd (last es) \<noteq> None" if "es \<noteq> []" "flush_call (fst (last es))"
    using last_flush [OF assms(6) _ that] errors(1) assms(1,7) by auto
  ultimately show ?thesis
    using errors_stick [OF inv errors(2) _ assms(8)] errors(1) assms(7) by simp
qed

text \<open>A librdkafka whose \<open>poll\<close> serves a failed report.\<close>

definition failing_rdkafka :: "(unit, unit) rdkafka" where
  "failing_rdkafka = demo_rdkafka\<lparr>rk_poll := (\<lambda>_ _ w. (Inr (), [DeliveryReport None, DeliveryReport (Some demo_error)], w))\<rparr>"

theorem delivery_errors_are_sticky_witness:
  "\<exists>es p. \<forall>r. run_methods proto3 (logging failing_rdkafka) [Produce [] r None] (demo_producer False, ((), [])) =
     ([(Produce [] r None, None)], (p, ((), [demo_error]))) \<and>
     run_methods proto3 (logging failing_rdkafka) [Length, FlushOrRaise (Finite 10)] (p, ((), [demo_error])) =
       (es, (p, ((), [demo_error]))) \<and>
     map snd es = [None, Some (KafkaException (Some demo_error))] \<and> mp_delivery_errors p = [demo_error]"
proof -
  let ?p = "(demo_producer False)\<lparr>mp_delivery_errors := [demo_error]\<rparr>"
  let ?es = "[(Length, None), (FlushOrRaise (Finite 10), Some (KafkaException (Some demo_error)))]"
  have first: "run_methods proto3 (logging failing_rdkafka) [Produce [] r None] (demo_producer False, ((), [])) =
      ([(Produce [] r None, None)], (?p, ((), [demo_error])))" for r
    by (simp add: produce_def on_producer_def run_simps demo_producer_def logging_def with_log_def failing_rdkafka_def
        demo_rdkafka_def quiet_def)
  have later: "run_methods proto3 (logging failing_rdkafka) [Length, FlushOrRaise (Finite 10)] (?p, ((), [demo_error])) =
      (?es, (?p, ((), [demo_error])))"
    by (simp add: flush_or_raise_def flush_def producer_len_def ignore_result_def on_producer_def run_simps
        demo_producer_def logging_def with_log_def failing_rdkafka_def demo_rdkafka_def quiet_def)
  from delivery_errors_are_sticky [OF demo_producer_inv _ _ logging_observes _ first _ later]
  have "mp_delivery_errors ?p = [demo_error]"
    by (simp add: demo_producer_def)
  with first later show ?thesis
    by (intro exI [of _ ?es] exI [of _ ?p]) auto
qed

section \<open>Transactions\<close>

text \<open>
  The life cycle, as a monitor of a session's outcomes: \<open>ini\<close> and \<open>opn\<close> say whether transactions
  were initialised and one is open. A \<open>close\<close> that raised (only a non-\<open>Exception\<close> does) leaves it open
  whether the transaction was aborted, and the monitor stops.
\<close>

fun lifecycle :: "bool \<Rightarrow> bool \<Rightarrow> bool \<Rightarrow> (producer_method \<times> exn option) list \<Rightarrow> bool" where
  "lifecycle tx ini opn [] = True"
| "lifecycle tx ini opn ((m, outcome) # es) =
     (case outcome of
        Some _ \<Rightarrow> (case m of Close _ \<Rightarrow> True | _ \<Rightarrow> lifecycle tx ini opn es)
      | None \<Rightarrow> (case m of
            InitTransactions _ \<Rightarrow> tx \<and> \<not> ini \<and> lifecycle tx True opn es
          | BeginTransaction \<Rightarrow> ini \<and> \<not> opn \<and> lifecycle tx ini True es
          | CommitTransaction _ \<Rightarrow> opn \<and> lifecycle tx ini False es
          | AbortTransaction _ \<Rightarrow> opn \<and> lifecycle tx ini False es
          | Produce _ _ _ \<Rightarrow> (tx \<longrightarrow> opn) \<and> lifecycle tx ini opn es
          | Close _ \<Rightarrow> (\<forall>(m', outcome') \<in> set es. outcome' = None \<longrightarrow>
              m' = MarkFatal \<or> (\<exists>timeout. m' = Close timeout))
          | _ \<Rightarrow> lifecycle tx ini opn es))"

lemma closed_session:
  assumes "run_methods pb rk ms (p, w) = (es, t)" "mp_closed p" "(m, None) \<in> set es"
  shows "m = MarkFatal \<or> (\<exists>timeout. m = Close timeout)"
  using assms
proof (induction ms arbitrary: p w es)
  case (Cons m' ms)
  obtain r p1 w1 where r: "call_method pb rk m' (p, w) = (r, (p1, w1))"
    by (cases "call_method pb rk m' (p, w)") auto
  with Cons.prems(1) obtain es' where run: "run_methods pb rk ms (p1, w1) = (es', t)"
    and es: "es = (m', case r of Inl e \<Rightarrow> Some e | Inr _ \<Rightarrow> None) # es'"
    by (auto split: prod.splits)
  show ?case
  proof (cases "m' = MarkFatal \<or> (\<exists>timeout. m' = Close timeout)")
    case True
    with r Cons.prems(2) have "mp_closed p1"
      by (auto simp: mark_fatal_def producer_close_def run_simps)
    with Cons.IH [OF run] Cons.prems(3) es True show ?thesis by auto
  next
    case False
    with r Cons.prems(2) have "r = Inl (RuntimeError [])" "p1 = p"
      using gate [of p m' pb rk w] by auto
    with Cons.IH [OF run] Cons.prems(2,3) es show ?thesis by auto
  qed
qed simp

text \<open>C20: Transactions follow their life cycle. In every session of a producer, \<open>init_transactions\<close>
  succeeds at most once and only on a transactional producer, \<open>begin_transaction\<close> only after it and with no
  transaction open, \<open>commit\<close> and \<open>abort\<close> only with one open, \<open>produce\<close> on a transactional producer only
  inside one, and nothing but \<open>close\<close> and \<open>mark_fatal\<close> after a \<open>close\<close>.\<close>

theorem transaction_life_cycle:
  assumes "producer_inv p" "run_methods pb rk ms (p, w) = (es, t)"
  shows "lifecycle (mp_transactional p) (mp_txn_initialized p) (mp_txn_open p) es"
  using assms
proof (induction ms arbitrary: p w es)
  case (Cons m ms)
  obtain r p1 w1 where r: "call_method pb rk m (p, w) = (r, (p1, w1))"
    by (cases "call_method pb rk m (p, w)") auto
  with Cons.prems(2) obtain es' where run: "run_methods pb rk ms (p1, w1) = (es', t)"
    and es: "es = (m, case r of Inl e \<Rightarrow> Some e | Inr _ \<Rightarrow> None) # es'"
    by (auto split: prod.splits)
  have inv: "producer_inv p1" "mp_transactional p1 = mp_transactional p"
    using call_inv(1,2) [OF r] Cons.prems(1) by (auto simp: carries_on_def)
  have IH: "lifecycle (mp_transactional p) (mp_txn_initialized p1) (mp_txn_open p1) es'"
    using Cons.IH [OF inv(1) run] inv(2) by simp
  show ?case
  proof (cases r)
    case (Inl e)
    then have "err_post m p p1"
      using call_inv(4) [OF r] Cons.prems(1) by simp
    with IH Inl es show ?thesis
      by (cases m) (auto simp: err_post_def)
  next
    case (Inr u)
    then have ok: "ok_post m p p1"
      using call_effect [of "(p, w)" pb rk m] r Cons.prems(1) by (simp add: wp_def)
    show ?thesis
    proof (cases "\<exists>timeout. m = Close timeout")
      case True
      with ok have "mp_closed p1" by (auto simp: ok_post_def)
      with True Inr es closed_session [OF run] show ?thesis by fastforce
    next
      case False
      with ok IH Inr es Cons.prems(1) inv(2) show ?thesis
        by (cases m) (auto simp: ok_post_def producer_inv_def)
    qed
  qed
qed simp

theorem transaction_life_cycle_witness:
  "\<exists>es t. run_methods proto3 demo_rdkafka
      [InitTransactions (Finite 30), BeginTransaction, CommitTransaction (Finite 30), CommitTransaction (Finite 30)]
      (demo_producer True, ()) = (es, t) \<and>
    map snd es = [None, None, None, Some (RuntimeError [])] \<and> lifecycle True False False es"
proof -
  let ?ms = "[InitTransactions (Finite 30), BeginTransaction, CommitTransaction (Finite 30), CommitTransaction (Finite 30)]"
  obtain es t where run: "run_methods proto3 demo_rdkafka ?ms (demo_producer True, ()) = (es, t)"
    "map snd es = [None, None, None, Some (RuntimeError [])]"
    by (simp add: init_transactions_def begin_transaction_def commit_transaction_def
        require_transactional_def marking_fatal_def on_producer_def run_simps demo_producer_def
        demo_rdkafka_def quiet_def)
  have "lifecycle True False False es"
    using transaction_life_cycle [OF demo_producer_inv run(1)]
    by (simp add: demo_producer_def del: lifecycle.simps)
  with run show ?thesis
    by (intro exI [of _ es] exI [of _ t] conjI)
qed

end
