(* ===== verification/Json.thy ===== *)
theory Json
  imports Utf8
begin

text \<open>
  The part of Python's \<open>json\<close> module the cursor file uses: \<open>json.dump\<close> of a dictionary of integers
  and strings (default separators, \<open>ensure_ascii\<close>), and \<open>json.load\<close> of any text, with Python's
  extensions (\<open>NaN\<close>, \<open>Infinity\<close>). Text is a list of code points. A parse error is \<open>None\<close>
  (\<open>JSONDecodeError\<close>, a \<open>ValueError\<close>). Values of floats are dropped: the code only asks whether a
  value is an integer.
\<close>

section \<open>Printing\<close>

text \<open>CPython refuses to convert integers of more than 4300 digits from or to text.\<close>

definition digit_limit :: nat where
  "digit_limit = 4300"

fun digits :: "nat \<Rightarrow> pystr" where
  "digits n = (if n < 10 then [48 + n] else digits (n div 10) @ [48 + n mod 10])"

declare digits.simps [simp del]

definition int_text :: "int \<Rightarrow> pystr option" where
  "int_text n =
     (let ds = digits (nat \<bar>n\<bar>) in
      if digit_limit < length ds then None else Some (if n < 0 then 45 # ds else ds))"

definition hex_digit :: "nat \<Rightarrow> nat" where
  "hex_digit d = (if d < 10 then 48 + d else 87 + d)"

definition hex4 :: "nat \<Rightarrow> pystr" where
  "hex4 n = [hex_digit (n div 4096 mod 16), hex_digit (n div 256 mod 16), hex_digit (n div 16 mod 16),
     hex_digit (n mod 16)]"

definition escape :: "nat \<Rightarrow> pystr" where
  "escape c =
     (if c = 34 then [92, 34] else if c = 92 then [92, 92]
      else if c = 10 then [92, 110] else if c = 13 then [92, 114] else if c = 9 then [92, 116]
      else if c = 12 then [92, 102] else if c = 8 then [92, 98]
      else if 32 \<le> c \<and> c \<le> 126 then [c]
      else if c < 0x10000 then [92, 117] @ hex4 c
      else [92, 117] @ hex4 (0xD800 + (c - 0x10000) div 1024) @
           [92, 117] @ hex4 (0xDC00 + (c - 0x10000) mod 1024))"

definition string_text :: "pystr \<Rightarrow> pystr" where
  "string_text s = 34 # concat (map escape s) @ [34]"

datatype payload_value = IntValue int | StrValue pystr

fun value_text :: "payload_value \<Rightarrow> pystr option" where
  "value_text (IntValue n) = int_text n"
| "value_text (StrValue s) = Some (string_text s)"

fun members_text :: "(pystr \<times> payload_value) list \<Rightarrow> pystr option" where
  "members_text [] = Some []"
| "members_text [(k, v)] = map_option (\<lambda>t. string_text k @ [58, 32] @ t) (value_text v)"
| "members_text ((k, v) # kvs) =
     (case (value_text v, members_text kvs) of
        (Some t, Some ts) \<Rightarrow> Some (string_text k @ [58, 32] @ t @ [44, 32] @ ts)
      | _ \<Rightarrow> None)"

definition json_dump :: "(pystr \<times> payload_value) list \<Rightarrow> pystr option" where
  "json_dump kvs = map_option (\<lambda>t. 123 # t @ [125]) (members_text kvs)"

section \<open>Parsing\<close>

datatype json =
    JNull
  | JBool bool
  | JInt int
  | JFloat
  | JString pystr
  | JArray "json list"
  | JObject "(pystr \<times> json) list"

fun skip_space :: "pystr \<Rightarrow> pystr" where
  "skip_space (c # cs) = (if c = 32 \<or> c = 9 \<or> c = 10 \<or> c = 13 then skip_space cs else c # cs)"
| "skip_space [] = []"

definition hex_value :: "nat \<Rightarrow> nat option" where
  "hex_value c =
     (if 48 \<le> c \<and> c \<le> 57 then Some (c - 48)
      else if 97 \<le> c \<and> c \<le> 102 then Some (c - 87)
      else if 65 \<le> c \<and> c \<le> 70 then Some (c - 55) else None)"

fun read_hex4 :: "pystr \<Rightarrow> (nat \<times> pystr) option" where
  "read_hex4 (a # b # c # d # cs) =
     (case (hex_value a, hex_value b, hex_value c, hex_value d) of
        (Some w, Some x, Some y, Some z) \<Rightarrow> Some (((w * 16 + x) * 16 + y) * 16 + z, cs)
      | _ \<Rightarrow> None)"
| "read_hex4 _ = None"

definition simple_escape :: "nat \<Rightarrow> nat option" where
  "simple_escape c = map_of [(34, 34), (92, 92), (47, 47), (98, 8), (102, 12), (110, 10), (114, 13), (116, 9)] c"

text \<open>A low surrogate escape that completes the given high surrogate.\<close>

fun read_low :: "nat \<Rightarrow> pystr \<Rightarrow> (nat \<times> pystr) option" where
  "read_low u (a # b # cs) =
     (if a = 92 \<and> b = 117 then
        (case read_hex4 cs of
           Some (v, cs') \<Rightarrow>
             if 0xD800 \<le> u \<and> u \<le> 0xDBFF \<and> 0xDC00 \<le> v \<and> v \<le> 0xDFFF
             then Some (0x10000 + (u - 0xD800) * 1024 + (v - 0xDC00), cs') else None
         | None \<Rightarrow> None)
      else None)"
| "read_low u _ = None"

text \<open>One character of a string after its opening quote, and what follows it.\<close>

fun read_char :: "pystr \<Rightarrow> (nat \<times> pystr) option" where
  "read_char [] = None"
| "read_char (c # cs) =
     (if c = 92 then
        (case cs of
           [] \<Rightarrow> None
         | e # cs' \<Rightarrow>
             if e = 117 then
               (case read_hex4 cs' of
                  None \<Rightarrow> None
                | Some (u, cs'') \<Rightarrow>
                    (case read_low u cs'' of None \<Rightarrow> Some (u, cs'') | Some r \<Rightarrow> Some r))
             else map_option (\<lambda>x. (x, cs')) (simple_escape e))
      else if c < 32 then None else Some (c, cs))"

lemma read_hex4_shorter: "read_hex4 cs = Some (u, cs') \<Longrightarrow> length cs' < length cs"
  by (cases cs rule: read_hex4.cases) (auto split: option.splits)

lemma read_low_shorter: "read_low u cs = Some (v, cs') \<Longrightarrow> length cs' < length cs"
  by (cases "(u, cs)" rule: read_low.cases)
    (auto split: option.splits if_splits dest: read_hex4_shorter)

lemma read_char_shorter: "read_char cs = Some (c, cs') \<Longrightarrow> length cs' < length cs"
  by (cases cs)
    (auto split: list.splits option.splits if_splits dest!: read_hex4_shorter read_low_shorter)

function read_string :: "pystr \<Rightarrow> (pystr \<times> pystr) option" where
  "read_string cs =
     (if cs \<noteq> [] \<and> hd cs = 34 then Some ([], tl cs)
      else
        (case read_char cs of
           None \<Rightarrow> None
         | Some (c, cs') \<Rightarrow> map_option (\<lambda>(s, rest). (c # s, rest)) (read_string cs')))"
  by pat_completeness auto
termination
  by (relation "measure length") (auto dest: read_char_shorter)

declare read_string.simps [simp del]

definition is_digit :: "nat \<Rightarrow> bool" where
  "is_digit c \<longleftrightarrow> 48 \<le> c \<and> c \<le> 57"

definition digits_value :: "pystr \<Rightarrow> nat" where
  "digits_value ds = foldl (\<lambda>n c. n * 10 + (c - 48)) 0 ds"

text \<open>An integer part: \<open>0\<close>, or digits that do not start with it.\<close>

definition read_integer :: "pystr \<Rightarrow> (pystr \<times> pystr) option" where
  "read_integer cs =
     (let ds = takeWhile is_digit cs in
      if ds = [] then None
      else if hd ds = 48 then Some ([48], tl cs)
      else Some (ds, dropWhile is_digit cs))"

definition read_fraction :: "pystr \<Rightarrow> pystr option" where
  "read_fraction cs =
     (if cs \<noteq> [] \<and> hd cs = 46 \<and> takeWhile is_digit (tl cs) \<noteq> []
      then Some (dropWhile is_digit (tl cs)) else None)"

definition read_exponent :: "pystr \<Rightarrow> pystr option" where
  "read_exponent cs =
     (case cs of
        e # cs' \<Rightarrow>
          if e = 101 \<or> e = 69 then
            (let cs'' = (case cs' of s # r \<Rightarrow> if s = 43 \<or> s = 45 then r else cs' | [] \<Rightarrow> [])
             in if takeWhile is_digit cs'' = [] then None else Some (dropWhile is_digit cs''))
          else None
      | [] \<Rightarrow> None)"

text \<open>A fraction or an exponent makes it a float; a malformed one is not part of the number.\<close>

definition read_number :: "bool \<Rightarrow> pystr \<Rightarrow> (json \<times> pystr) option" where
  "read_number negative cs =
     (case read_integer cs of
        None \<Rightarrow> None
      | Some (ds, rest) \<Rightarrow>
          (case read_fraction rest of
             Some rest' \<Rightarrow>
               Some (JFloat, case read_exponent rest' of Some rest'' \<Rightarrow> rest'' | None \<Rightarrow> rest')
           | None \<Rightarrow>
             (case read_exponent rest of
                Some rest' \<Rightarrow> Some (JFloat, rest')
              | None \<Rightarrow>
                if digit_limit < length ds then None
                else Some (JInt (if negative then - int (digits_value ds) else int (digits_value ds)), rest))))"

definition read_word :: "string \<Rightarrow> pystr \<Rightarrow> pystr option" where
  "read_word w cs = (if prefix (ascii w) cs then Some (drop (length w) cs) else None)"

text \<open>A value without parts.\<close>

definition read_scalar :: "pystr \<Rightarrow> (json \<times> pystr) option" where
  "read_scalar cs =
     (case cs of
        [] \<Rightarrow> None
      | c # cs' \<Rightarrow>
          if c = 34 then map_option (\<lambda>(s, rest). (JString s, rest)) (read_string cs')
          else if c = 110 then map_option (Pair JNull) (read_word ''null'' cs)
          else if c = 116 then map_option (Pair (JBool True)) (read_word ''true'' cs)
          else if c = 102 then map_option (Pair (JBool False)) (read_word ''false'' cs)
          else if c = 78 then map_option (Pair JFloat) (read_word ''NaN'' cs)
          else if c = 73 then map_option (Pair JFloat) (read_word ''Infinity'' cs)
          else if c = 45 then
            (case read_word ''Infinity'' cs' of
               Some rest \<Rightarrow> Some (JFloat, rest)
             | None \<Rightarrow> read_number True cs')
          else read_number False cs)"

text \<open>
  Values, the elements of an array after its opening bracket or a comma, the members of an object
  after its opening brace or a comma. The guards on lengths only serve the termination argument:
  what is left is always shorter (\<open>parse_shorter\<close>).
\<close>

function
  parse_value :: "pystr \<Rightarrow> (json \<times> pystr) option" and
  parse_elements :: "pystr \<Rightarrow> (json list \<times> pystr) option" and
  parse_members :: "pystr \<Rightarrow> ((pystr \<times> json) list \<times> pystr) option"
where
  "parse_value cs =
     (case cs of
        [] \<Rightarrow> None
      | c # cs' \<Rightarrow>
          if c = 123 then
            (case skip_space cs' of
               [] \<Rightarrow> None
             | d # ds \<Rightarrow>
                 if d = 125 then Some (JObject [], ds)
                 else if length (d # ds) < length cs
                 then map_option (\<lambda>(kvs, rest). (JObject kvs, rest)) (parse_members (d # ds))
                 else None)
          else if c = 91 then
            (case skip_space cs' of
               [] \<Rightarrow> None
             | d # ds \<Rightarrow>
                 if d = 93 then Some (JArray [], ds)
                 else if length (d # ds) < length cs
                 then map_option (\<lambda>(vs, rest). (JArray vs, rest)) (parse_elements (d # ds))
                 else None)
          else read_scalar cs)"
| "parse_elements cs =
     (case parse_value cs of
        None \<Rightarrow> None
      | Some (v, rest) \<Rightarrow>
          (case skip_space rest of
             [] \<Rightarrow> None
           | d # ds \<Rightarrow>
               if d = 93 then Some ([v], ds)
               else if d = 44 \<and> length (skip_space ds) < length cs
               then map_option (\<lambda>(vs, rest'). (v # vs, rest')) (parse_elements (skip_space ds))
               else None))"
| "parse_members cs =
     (if cs = [] \<or> hd cs \<noteq> 34 then None
      else case read_string (tl cs) of
        None \<Rightarrow> None
      | Some (k, rest) \<Rightarrow>
          (case skip_space rest of
             [] \<Rightarrow> None
           | d # ds \<Rightarrow>
               if d = 58 \<and> length (skip_space ds) < length cs then
                 (case parse_value (skip_space ds) of
                    None \<Rightarrow> None
                  | Some (v, rest') \<Rightarrow>
                      (case skip_space rest' of
                         [] \<Rightarrow> None
                       | e # es \<Rightarrow>
                           if e = 125 then Some ([(k, v)], es)
                           else if e = 44 \<and> length (skip_space es) < length cs
                           then map_option (\<lambda>(kvs, rest''). ((k, v) # kvs, rest''))
                                  (parse_members (skip_space es))
                           else None))
               else None))"
  by pat_completeness auto
termination
  by (relation "measure (\<lambda>x. case x of Inl cs \<Rightarrow> 2 * length cs
      | Inr (Inl cs) \<Rightarrow> 2 * length cs + 1 | Inr (Inr cs) \<Rightarrow> 2 * length cs + 1)") auto

declare parse_value.simps [simp del] parse_elements.simps [simp del] parse_members.simps [simp del]

definition json_loads :: "pystr \<Rightarrow> json option" where
  "json_loads cs =
     (case parse_value (skip_space cs) of
        None \<Rightarrow> None
      | Some (v, rest) \<Rightarrow> if skip_space rest = [] then Some v else None)"

text \<open>A repeated key: the last value counts.\<close>

definition json_get :: "(pystr \<times> json) list \<Rightarrow> pystr \<Rightarrow> json option" where
  "json_get kvs k = map_of (rev kvs) k"

section \<open>The length guards hold\<close>

lemma skip_space_length: "length (skip_space cs) \<le> length cs"
  by (induction cs rule: skip_space.induct) auto

lemma skip_space_Cons: "skip_space cs = d # ds \<Longrightarrow> length ds < length cs"
  using skip_space_length [of cs] by simp

lemma read_string_shorter: "read_string cs = Some (s, rest) \<Longrightarrow> length rest < length cs"
proof (induction cs arbitrary: s rest rule: read_string.induct)
  case (1 cs)
  show ?case
  proof (cases "cs \<noteq> [] \<and> hd cs = 34")
    case True
    with "1.prems" show ?thesis
      by (subst (asm) read_string.simps) (cases cs, auto)
  next
    case False
    with "1.prems" obtain c cs' s' where "read_char cs = Some (c, cs')" "read_string cs' = Some (s', rest)"
      by (auto simp: read_string.simps [of cs] split: option.splits if_splits)
    with "1.IH" [OF False] read_char_shorter show ?thesis
      by fastforce
  qed
qed

lemma dropWhile_shorter: "takeWhile P cs \<noteq> [] \<Longrightarrow> length (dropWhile P cs) < length cs"
  using length_append [of "takeWhile P cs" "dropWhile P cs"] by simp

lemma read_integer_shorter: "read_integer cs = Some (ds, rest) \<Longrightarrow> length rest < length cs"
  by (cases cs) (auto simp: read_integer_def Let_def split: if_splits intro: le_imp_less_Suc length_dropWhile_le)

lemma read_fraction_shorter: "read_fraction cs = Some rest \<Longrightarrow> length rest < length cs"
  by (cases cs)
    (auto simp: read_fraction_def split: if_splits intro: le_imp_less_Suc length_dropWhile_le)

lemma read_exponent_shorter: "read_exponent cs = Some rest \<Longrightarrow> length rest < length cs"
  by (auto simp: read_exponent_def Let_def split: if_splits list.splits
      intro!: le_imp_less_Suc le_SucI length_dropWhile_le)

lemma read_number_shorter: "read_number b cs = Some (v, rest) \<Longrightarrow> length rest < length cs"
  by (auto simp: read_number_def split: option.splits if_splits
      dest!: read_integer_shorter read_fraction_shorter read_exponent_shorter)

lemma read_word_shorter: "read_word (a # w) cs = Some rest \<Longrightarrow> length rest < length cs"
  by (cases cs) (auto simp: read_word_def ascii_def split: if_splits)

lemma read_scalar_shorter: "read_scalar cs = Some (v, rest) \<Longrightarrow> length rest < length cs"
  by (cases cs)
    (auto simp: read_scalar_def split: if_splits option.splits
      dest!: read_string_shorter read_word_shorter read_number_shorter)

lemma parse_shorter:
  "(\<forall>v rest. parse_value cs = Some (v, rest) \<longrightarrow> length rest < length cs) \<and>
   (\<forall>vs rest. parse_elements cs = Some (vs, rest) \<longrightarrow> length rest < length cs) \<and>
   (\<forall>kvs rest. parse_members cs = Some (kvs, rest) \<longrightarrow> length rest < length cs)"
proof (induction cs rule: measure_induct_rule [of length])
  case (less cs)
  have IH:
    "parse_elements ys = Some (vs, rest) \<Longrightarrow> length ys < length cs \<Longrightarrow> length rest < length cs"
    "parse_members ys = Some (kvs, rest) \<Longrightarrow> length ys < length cs \<Longrightarrow> length rest < length cs"
    for ys vs rest kvs
    using less [of ys] by fastforce+
  have smaller: "parse_value ys = Some (v, rest) \<Longrightarrow> length ys < length cs \<Longrightarrow> length rest < length cs"
    for ys v rest
    using less [of ys] by fastforce
  have shorter: "length rest < length cs" if "parse_value cs = Some (v, rest)" for v rest
    using that
    by (subst (asm) parse_value.simps)
      (auto split: list.splits if_splits dest: IH(1) IH(2) dest!: skip_space_Cons read_scalar_shorter)
  have elements: "length rest < length cs" if "parse_elements cs = Some (vs, rest)" for vs rest
    using that
    by (subst (asm) parse_elements.simps)
      (auto split: option.splits list.splits if_splits dest: IH(1) dest!: skip_space_Cons shorter)
  have members: "length rest < length cs" if "parse_members cs = Some (kvs, rest)" for kvs rest
    using that
    by (subst (asm) parse_members.simps)
      (auto split: option.splits list.splits if_splits dest!: skip_space_Cons smaller,
        metis IH(2))
  show ?case
    using shorter elements members by blast
qed

lemma parse_value_shorter: "parse_value cs = Some (v, rest) \<Longrightarrow> length rest < length cs"
  using parse_shorter by blast

section \<open>Reading back what was printed\<close>

lemma digits_nonempty: "digits n \<noteq> []"
  by (subst digits.simps) simp

lemma digits_are_digits: "\<forall>c \<in> set (digits n). is_digit c"
proof (induction n rule: digits.induct)
  case (1 n)
  then show ?case
    by (subst digits.simps) (auto simp: is_digit_def)
qed

lemma digits_value_append: "digits_value (ds @ [c]) = digits_value ds * 10 + (c - 48)"
  by (simp add: digits_value_def)

lemma digits_value_digits: "digits_value (digits n) = n"
proof (induction n rule: digits.induct)
  case (1 n)
  then show ?case
    by (subst digits.simps) (auto simp: digits_value_append digits_value_def [of "[_]"])
qed

lemma hd_digits: "hd (digits n) = 48 \<longleftrightarrow> n = 0"
proof (induction n rule: digits.induct)
  case (1 n)
  then show ?case
    by (subst digits.simps) (auto simp: digits_nonempty)
qed

text \<open>What ends a number.\<close>

definition number_end :: "pystr \<Rightarrow> bool" where
  "number_end cs \<longleftrightarrow> (case cs of [] \<Rightarrow> True | c # _ \<Rightarrow> \<not> is_digit c \<and> c \<noteq> 46 \<and> c \<noteq> 101 \<and> c \<noteq> 69)"

lemma takeWhile_digits:
  "number_end rest \<Longrightarrow> takeWhile is_digit (digits n @ rest) = digits n"
  "number_end rest \<Longrightarrow> dropWhile is_digit (digits n @ rest) = rest"
  using digits_are_digits [of n]
  by (cases rest; simp add: number_end_def takeWhile_append2 dropWhile_append2)+

lemma read_integer_digits: "number_end rest \<Longrightarrow> read_integer (digits n @ rest) = Some (digits n, rest)"
proof (cases "n = 0")
  case True
  assume "number_end rest"
  with True takeWhile_digits [of rest 0] show ?thesis
    by (simp add: read_integer_def Let_def digits.simps [of 0])
next
  case False
  assume "number_end rest"
  with False takeWhile_digits [of rest n] show ?thesis
    by (simp add: read_integer_def Let_def hd_digits digits_nonempty)
qed

lemma read_number_digits:
  assumes "number_end rest" "length (digits n) \<le> digit_limit"
  shows "read_number b (digits n @ rest) = Some (JInt (if b then - int n else int n), rest)"
proof -
  have "read_fraction rest = None" "read_exponent rest = None"
    using assms(1) by (cases rest; simp add: number_end_def read_fraction_def read_exponent_def)+
  with assms show ?thesis
    by (simp add: read_number_def read_integer_digits digits_value_digits)
qed

lemma digits_head: "digits n = c # cs \<Longrightarrow> is_digit c"
  using digits_are_digits [of n] by simp

lemma parse_int_text:
  assumes "int_text n = Some t" "number_end rest"
  shows "parse_value (t @ rest) = Some (JInt n, rest)"
proof (cases "n < 0")
  case True
  then have t: "t = 45 # digits (nat \<bar>n\<bar>)" "length (digits (nat \<bar>n\<bar>)) \<le> digit_limit"
    using assms(1) by (auto simp: int_text_def Let_def split: if_splits)
  obtain c cs where c: "digits (nat \<bar>n\<bar>) = c # cs" "is_digit c"
    using digits_head digits_nonempty by (metis neq_Nil_conv)
  then have "read_word ''Infinity'' (digits (nat \<bar>n\<bar>) @ rest) = None"
    by (auto simp: read_word_def ascii_def is_digit_def)
  with t read_number_digits [OF assms(2) t(2), of True] True show ?thesis
    by (subst parse_value.simps) (simp add: read_scalar_def)
next
  case False
  then have t: "t = digits (nat \<bar>n\<bar>)" "length (digits (nat \<bar>n\<bar>)) \<le> digit_limit"
    using assms(1) by (auto simp: int_text_def Let_def split: if_splits)
  obtain c cs where c: "digits (nat \<bar>n\<bar>) = c # cs" "is_digit c"
    using digits_head digits_nonempty by (metis neq_Nil_conv)
  with t read_number_digits [OF assms(2) t(2), of False] False show ?thesis
    by (subst parse_value.simps) (auto simp: read_scalar_def is_digit_def)
qed

lemma hex_value_digit: "d < 16 \<Longrightarrow> hex_value (hex_digit d) = Some d"
  by (simp add: hex_value_def hex_digit_def)

lemma read_hex4_hex4:
  assumes "n < 65536"
  shows "read_hex4 (hex4 n @ cs) = Some (n, cs)"
proof -
  have "n div 4096 = n div 16 div 16 div 16" "n div 256 = n div 16 div 16"
    by (simp_all add: div_mult2_eq [symmetric])
  moreover have "n div 16 div 16 div 16 < 16"
    using assms by simp
  moreover have "n div 16 div 16 = n div 16 div 16 div 16 * 16 + n div 16 div 16 mod 16"
    "n div 16 = n div 16 div 16 * 16 + n div 16 mod 16" "n = n div 16 * 16 + n mod 16"
    by simp_all
  ultimately show ?thesis
    by (simp add: hex4_def hex_value_digit)
qed

text \<open>The code points of encodable text.\<close>

definition scalar :: "nat \<Rightarrow> bool" where
  "scalar c \<longleftrightarrow> c < 0x110000 \<and> \<not> (0xD800 \<le> c \<and> c \<le> 0xDFFF)"

lemma read_low_none: "\<not> (0xD800 \<le> u \<and> u \<le> 0xDBFF) \<Longrightarrow> read_low u cs = None"
  by (cases "(u, cs)" rule: read_low.cases) (auto split: option.splits)

lemma read_char_escape:
  assumes "scalar c"
  shows "read_char (escape c @ rest) = Some (c, rest)"
proof -
  consider "c \<in> {34, 92, 10, 13, 9, 12, 8}" | "32 \<le> c \<and> c \<le> 126 \<and> c \<notin> {34, 92}"
    | "escape c = [92, 117] @ hex4 c" "c < 0x10000"
    | "0x10000 \<le> c"
    by (cases "c \<in> {34, 92, 10, 13, 9, 12, 8}"; cases "32 \<le> c \<and> c \<le> 126"; cases "c < 0x10000")
      (auto simp: escape_def)
  then show ?thesis
  proof cases
    case 1
    then show ?thesis
      by (auto simp: escape_def simple_escape_def)
  next
    case 2
    then have "escape c = [c]"
      by (simp add: escape_def)
    with 2 show ?thesis
      by simp
  next
    case 3
    moreover have "read_low c rest = None"
      using assms by (intro read_low_none) (auto simp: scalar_def)
    ultimately show ?thesis
      using read_hex4_hex4 [of c rest] by simp
  next
    case 4
    let ?hi = "0xD800 + (c - 0x10000) div 1024" and ?lo = "0xDC00 + (c - 0x10000) mod 1024"
    have hi: "0xD800 \<le> ?hi" "?hi \<le> 0xDBFF" and lo: "0xDC00 \<le> ?lo" "?lo \<le> 0xDFFF"
      using assms 4 by (auto simp: scalar_def)
    have "escape c = [92, 117] @ hex4 ?hi @ [92, 117] @ hex4 ?lo"
      using 4 by (simp add: escape_def)
    moreover have "read_hex4 (hex4 ?hi @ cs) = Some (?hi, cs)" "read_hex4 (hex4 ?lo @ cs) = Some (?lo, cs)" for cs
      using hi lo by (simp_all add: read_hex4_hex4)
    moreover have "0x10000 + (?hi - 0xD800) * 1024 + (?lo - 0xDC00) = c"
      using 4 by simp
    ultimately show ?thesis
      using hi lo by simp
  qed
qed

lemma escape_head: "\<exists>d ds. escape c = d # ds \<and> d \<noteq> 34"
  by (auto simp: escape_def)

lemma read_string_text:
  "\<forall>c \<in> set s. scalar c \<Longrightarrow> read_string (concat (map escape s) @ 34 # rest) = Some (s, rest)"
proof (induction s)
  case Nil
  then show ?case
    by (subst read_string.simps) simp
next
  case (Cons c s)
  obtain d ds where "escape c = d # ds" "d \<noteq> 34"
    using escape_head by blast
  with Cons read_char_escape [of c "concat (map escape s) @ 34 # rest"] show ?case
    by (subst read_string.simps) simp
qed

lemma encodable_scalars: "utf8_encode s = Some bs \<Longrightarrow> \<forall>c \<in> set s. scalar c"
proof (induction s arbitrary: bs)
  case (Cons c s)
  then show ?case
    by (auto simp: utf8_char_def scalar_def split: option.splits if_splits)
qed simp

fun payload_json :: "payload_value \<Rightarrow> json" where
  "payload_json (IntValue n) = JInt n"
| "payload_json (StrValue s) = JString s"

fun encodable :: "payload_value \<Rightarrow> bool" where
  "encodable (IntValue n) = True"
| "encodable (StrValue s) = (\<forall>c \<in> set s. scalar c)"

lemma parse_value_text:
  assumes "value_text v = Some t" "encodable v" "number_end rest"
  shows "parse_value (t @ rest) = Some (payload_json v, rest)"
proof (cases v)
  case (IntValue n)
  with assms show ?thesis
    by (simp add: parse_int_text)
next
  case (StrValue s)
  with assms show ?thesis
    by (subst parse_value.simps) (auto simp: string_text_def read_scalar_def read_string_text)
qed

lemma digits_start: "\<exists>c cs. digits n = c # cs \<and> c \<notin> {32, 9, 10, 13}"
proof -
  obtain c cs where "digits n = c # cs" "is_digit c"
    using digits_head digits_nonempty by (metis neq_Nil_conv)
  then show ?thesis
    by (auto simp: is_digit_def)
qed

lemma value_text_head: "value_text v = Some t \<Longrightarrow> \<exists>c cs. t = c # cs \<and> c \<notin> {32, 9, 10, 13}"
proof (cases v)
  case (IntValue n)
  assume "value_text v = Some t"
  then have "t = 45 # digits (nat \<bar>n\<bar>) \<or> t = digits (nat \<bar>n\<bar>)"
    using IntValue by (auto simp: int_text_def Let_def split: if_splits)
  then show ?thesis
    using digits_start [of "nat \<bar>n\<bar>"] by auto
qed (auto simp: string_text_def)

lemma skip_value_text: "value_text v = Some t \<Longrightarrow> skip_space (t @ rest) = t @ rest"
  using value_text_head [of v t] by auto

lemma parse_members_text:
  assumes "members_text kvs = Some t" "kvs \<noteq> []" "\<forall>(k, v) \<in> set kvs. (\<forall>c \<in> set k. scalar c) \<and> encodable v"
  shows "parse_members (t @ 125 # rest) = Some (map (\<lambda>(k, v). (k, payload_json v)) kvs, rest)"
  using assms
proof (induction kvs arbitrary: t rule: members_text.induct)
  case (2 k v)
  then obtain tv where tv: "value_text v = Some tv" "t = string_text k @ [58, 32] @ tv"
    by auto
  from 2 have "parse_value (tv @ 125 # rest) = Some (payload_json v, 125 # rest)"
    by (intro parse_value_text [OF tv(1)]) (auto simp: number_end_def is_digit_def)
  with 2 tv skip_value_text [OF tv(1), of "125 # rest"] show ?case
    by (subst parse_members.simps) (simp add: string_text_def read_string_text)
next
  case (3 k v kv kvs)
  then obtain tv ts where tv: "value_text v = Some tv" "members_text (kv # kvs) = Some ts"
    "t = string_text k @ [58, 32] @ tv @ [44, 32] @ ts"
    by (auto split: option.splits)
  from 3 have first: "parse_value (tv @ 44 # 32 # ts @ 125 # rest) =
      Some (payload_json v, 44 # 32 # ts @ 125 # rest)"
    by (intro parse_value_text [OF tv(1)]) (auto simp: number_end_def is_digit_def)
  obtain k' v' where kv: "kv = (k', v')"
    by fastforce
  from tv(2) have "\<exists>ts'. ts = 34 # ts'"
    by (cases kvs) (auto simp: kv string_text_def split: option.splits)
  then have skip: "skip_space (ts @ 125 # rest) = ts @ 125 # rest"
    by auto
  have "parse_members (ts @ 125 # rest) = Some (map (\<lambda>(k, v). (k, payload_json v)) (kv # kvs), rest)"
    using 3 tv(2) by simp
  with 3 tv first skip skip_value_text [OF tv(1), of "44 # 32 # ts @ 125 # rest"] show ?case
    by (subst parse_members.simps) (simp add: string_text_def read_string_text)
qed simp

lemma json_roundtrip:
  assumes "json_dump kvs = Some t" "kvs \<noteq> []"
    and "\<forall>(k, v) \<in> set kvs. (\<forall>c \<in> set k. scalar c) \<and> encodable v"
  shows "json_loads t = Some (JObject (map (\<lambda>(k, v). (k, payload_json v)) kvs))"
proof -
  obtain ts where ts: "members_text kvs = Some ts" "t = 123 # ts @ [125]"
    using assms(1) by (auto simp: json_dump_def)
  have "\<exists>ts'. ts = 34 # ts'"
    using ts(1) assms(2) by (cases kvs rule: members_text.cases) (auto simp: string_text_def split: option.splits)
  then have "skip_space t = t" "parse_value t = Some (JObject (map (\<lambda>(k, v). (k, payload_json v)) kvs), [])"
    using ts(2) parse_members_text [OF ts(1) assms(2,3), of "[]"]
    by (auto, subst parse_value.simps, simp)
  then show ?thesis
    by (simp add: json_loads_def)
qed

end
