(* ===== verification/Cursor_File.thy ===== *)
theory Cursor_File
  imports Json Effects Py_Values
begin

text \<open>
  \<open>_save_cursor_to_file\<close> and \<open>_load_cursor_from_file\<close> of \<open>bridge/pipeline.py\<close>. The operating system is
  a record of the calls the two functions make (\<open>os_calls\<close>); \<open>disk\<close> is a file system with a page
  cache that loses unsynced data and unsynced directory entries in a crash, on which they run.
\<close>

section \<open>System calls\<close>

text \<open>
  A file is named by its path in \<open>os_write\<close>, \<open>os_fsync\<close> and \<open>os_close\<close>, which stand for the calls on
  the open file object. \<open>os_directory\<close> is \<open>os.path.dirname(os.path.abspath(path)) or "."\<close>.
\<close>

record 'w os_calls =
  os_exists :: "pystr \<Rightarrow> 'w \<Rightarrow> bool"
  os_read_text :: "pystr \<Rightarrow> ('w, pystr) eff"
  os_create :: "pystr \<Rightarrow> ('w, unit) eff"
  os_write :: "pystr \<Rightarrow> pystr \<Rightarrow> ('w, unit) eff"
  os_fsync :: "pystr \<Rightarrow> ('w, unit) eff"
  os_close :: "pystr \<Rightarrow> ('w, unit) eff"
  os_replace :: "pystr \<Rightarrow> pystr \<Rightarrow> ('w, unit) eff"
  os_directory :: "pystr \<Rightarrow> pystr"
  os_open_dir :: "pystr \<Rightarrow> ('w, unit) eff"
  os_fsync_dir :: "pystr \<Rightarrow> ('w, unit) eff"
  os_close_dir :: "pystr \<Rightarrow> ('w, unit) eff"

section \<open>Saving\<close>

text \<open>\<open>{EINVAL, ENOTSUP, EOPNOTSUPP}\<close>, with the Linux numbers.\<close>

definition DIR_FSYNC_UNSUPPORTED :: "int set" where
  "DIR_FSYNC_UNSUPPORTED = {22, 95}"

definition coordinate :: "pyval \<Rightarrow> string \<Rightarrow> pyval" where
  "coordinate position name =
     (let attribute = (case py_getattr position name of None \<Rightarrow> PNone | Some v \<Rightarrow> v) in
      case position of
        PDict d \<Rightarrow> (case py_get d name of None \<Rightarrow> attribute | Some v \<Rightarrow> v)
      | _ \<Rightarrow> attribute)"

text \<open>An \<open>int\<close> that is not a \<open>bool\<close>.\<close>

fun plain_int :: "pyval \<Rightarrow> int option" where
  "plain_int (PInt n) = Some n"
| "plain_int (PIntSub n) = Some n"
| "plain_int _ = None"

definition cursor_coordinates :: "pyval \<Rightarrow> exn + int \<times> int" where
  "cursor_coordinates position =
     (if position = PNone then Inl ValueError
      else
        (let stream_id = coordinate position ''stream_id'';
             version = coordinate position ''last_consumed_version''
         in if stream_id = PNone \<or> version = PNone then Inl ValueError
            else (case (plain_int stream_id, plain_int version) of
                (Some i, Some v) \<Rightarrow> Inr (i, v)
              | _ \<Rightarrow> Inl ValueError)))"

definition cursor_payload :: "int \<Rightarrow> int \<Rightarrow> pystr option \<Rightarrow> (pystr \<times> payload_value) list" where
  "cursor_payload stream_id version stream_name =
     [(ascii ''stream_id'', IntValue stream_id), (ascii ''last_consumed_version'', IntValue version)] @
     (case stream_name of None \<Rightarrow> [] | Some name \<Rightarrow> [(ascii ''stream_name'', StrValue name)])"

definition sync_directory :: "'w os_calls \<Rightarrow> pystr \<Rightarrow> ('w, unit) eff" where
  "sync_directory os path =
     (let dir_path = os_directory os path in
      catch
        (thn (os_open_dir os dir_path)
           (finally_do (os_fsync_dir os dir_path) (os_close_dir os dir_path)))
        (\<lambda>e. \<exists>n \<in> DIR_FSYNC_UNSUPPORTED. e = OSError n)
        (\<lambda>_. ret ()))"

definition save_cursor_to_file ::
  "'w os_calls \<Rightarrow> pystr option \<Rightarrow> pyval \<Rightarrow> pystr option \<Rightarrow> ('w, unit) eff" where
  "save_cursor_to_file os path position stream_name =
     (case path of
        None \<Rightarrow> ret ()
      | Some path \<Rightarrow>
        if path = [] then ret ()
        else
          bnd (liftE (cursor_coordinates position)) (\<lambda>(stream_id, version).
          let tmp_path = path @ ascii ''.tmp'' in
          thn (os_create os tmp_path)
          (thn (finally_do
                 (bnd (liftE (case json_dump (cursor_payload stream_id version stream_name) of
                               None \<Rightarrow> Inl ValueError | Some text \<Rightarrow> Inr text)) (\<lambda>text.
                  thn (os_write os tmp_path text) (os_fsync os tmp_path)))
                 (os_close os tmp_path))
          (thn (os_replace os tmp_path path)
               (sync_directory os path)))))"

section \<open>Loading\<close>

text \<open>\<open>native_cursor\<close> is \<open>fdb.CdcCursor\<close>, if the binding has it.\<close>

definition persisted_cursor :: "int \<Rightarrow> int \<Rightarrow> pyval" where
  "persisted_cursor stream_id version =
     PObj [(''stream_id'', PInt stream_id), (''last_consumed_version'', PInt version)]"

definition parse_cursor :: "pystr \<Rightarrow> pystr option \<Rightarrow> exn + int \<times> int" where
  "parse_cursor text stream_name =
     (case json_loads text of
        Some (JObject data) \<Rightarrow>
          (case (json_get data (ascii ''stream_id''), json_get data (ascii ''last_consumed_version'')) of
             (Some raw_stream_id, Some raw_version) \<Rightarrow>
               (case (raw_stream_id, raw_version) of
                  (JInt i, JInt v) \<Rightarrow>
                    if stream_name \<noteq> None \<and>
                       json_get data (ascii ''stream_name'') \<noteq> map_option JString stream_name
                    then Inl ValueError else Inr (i, v)
                | _ \<Rightarrow> Inl ValueError)
           | _ \<Rightarrow> Inl ValueError)
      | _ \<Rightarrow> Inl ValueError)"

definition load_cursor_from_file ::
  "'w os_calls \<Rightarrow> (int \<Rightarrow> int \<Rightarrow> ('w, pyval) eff) option \<Rightarrow> pystr option \<Rightarrow> pystr option \<Rightarrow>
     ('w, pyval option) eff" where
  "load_cursor_from_file os native_cursor path stream_name =
     (case path of
        None \<Rightarrow> ret None
      | Some path \<Rightarrow>
        if path = [] then ret None
        else
          bnd (gets (os_exists os path)) (\<lambda>found.
          if \<not> found then ret None
          else
            bnd (os_read_text os path) (\<lambda>text.
            bnd (liftE (parse_cursor text stream_name)) (\<lambda>(stream_id, version).
            case native_cursor of
              Some cursor_class \<Rightarrow> bnd (cursor_class stream_id version) (\<lambda>c. ret (Some c))
            | None \<Rightarrow> ret (Some (persisted_cursor stream_id version))))))"

end
