(* ===== verification/Disk.thy ===== *)
theory Disk
  imports Cursor_File
begin

text \<open>
  A file system the cursor functions run on. A file's data survives a crash only if it was synced,
  and of the directory any version since its last sync may be found. Every call takes the next
  fault: none, or the exception it raises instead of taking effect (a full disk, an interrupt that
  ends the process). Stopping the process after any call is a fault at the next one.
\<close>

section \<open>The file system\<close>

text \<open>
  \<open>dk_names\<close> lists the directory's versions, the current one first; \<open>dk_files\<close> gives every file's
  content and whether it is synced; \<open>dk_next\<close> is the next unused file.
\<close>

record disk =
  dk_names :: "(pystr \<rightharpoonup> nat) list"
  dk_files :: "nat \<Rightarrow> pystr \<times> bool"
  dk_next :: nat
  dk_faults :: "exn option list"

definition names_now :: "disk \<Rightarrow> pystr \<rightharpoonup> nat" where
  "names_now d = hd (dk_names d)"

definition syscall :: "(disk \<Rightarrow> exn + disk) \<Rightarrow> (disk, unit) eff" where
  "syscall f = (\<lambda>d.
     let d' = d\<lparr>dk_faults := tl (dk_faults d)\<rparr> in
     case dk_faults d of
       Some e # _ \<Rightarrow> (Inl e, d')
     | _ \<Rightarrow> (case f d' of Inl e \<Rightarrow> (Inl e, d') | Inr d'' \<Rightarrow> (Inr (), d'')))"

definition on_file :: "pystr \<Rightarrow> (pystr \<times> bool \<Rightarrow> pystr \<times> bool) \<Rightarrow> disk \<Rightarrow> exn + disk" where
  "on_file path f d =
     (case names_now d path of
        None \<Rightarrow> Inl (OSError 2)
      | Some i \<Rightarrow> Inr (d\<lparr>dk_files := (dk_files d)(i := f (dk_files d i))\<rparr>))"

definition create_file :: "pystr \<Rightarrow> disk \<Rightarrow> exn + disk" where
  "create_file path d =
     (case names_now d path of
        Some i \<Rightarrow> Inr (d\<lparr>dk_files := (dk_files d)(i := ([], False))\<rparr>)
      | None \<Rightarrow> Inr (d\<lparr>dk_names := (names_now d)(path \<mapsto> dk_next d) # dk_names d,
          dk_files := (dk_files d)(dk_next d := ([], False)), dk_next := Suc (dk_next d)\<rparr>))"

definition rename_file :: "pystr \<Rightarrow> pystr \<Rightarrow> disk \<Rightarrow> exn + disk" where
  "rename_file a b d =
     (case names_now d a of
        None \<Rightarrow> Inl (OSError 2)
      | Some i \<Rightarrow> Inr (d\<lparr>dk_names := (names_now d)(b \<mapsto> i, a := None) # dk_names d\<rparr>))"

definition read_file :: "pystr \<Rightarrow> (disk, pystr) eff" where
  "read_file path = (\<lambda>d.
     case names_now d path of None \<Rightarrow> (Inl (OSError 2), d) | Some i \<Rightarrow> (Inr (fst (dk_files d i)), d))"

definition disk_os :: "disk os_calls" where
  "disk_os =
     \<lparr>os_exists = (\<lambda>path d. names_now d path \<noteq> None),
      os_read_text = read_file,
      os_create = (\<lambda>path. syscall (create_file path)),
      os_write = (\<lambda>path text. syscall (on_file path (\<lambda>(t, _). (t @ text, False)))),
      os_fsync = (\<lambda>path. syscall (on_file path (\<lambda>(t, _). (t, True)))),
      os_close = (\<lambda>path. syscall Inr),
      os_replace = (\<lambda>a b. syscall (rename_file a b)),
      os_directory = (\<lambda>path. []),
      os_open_dir = (\<lambda>path. syscall Inr),
      os_fsync_dir = (\<lambda>path. syscall (\<lambda>d. Inr (d\<lparr>dk_names := [names_now d]\<rparr>))),
      os_close_dir = (\<lambda>path. syscall Inr)\<rparr>"

section \<open>Crashes\<close>

text \<open>What a path may hold after a crash: \<open>None\<close> if there may be no file.\<close>

definition found :: "(nat \<Rightarrow> pystr \<times> bool) \<Rightarrow> nat option \<Rightarrow> pystr option \<Rightarrow> bool" where
  "found files entry content \<longleftrightarrow>
     (case entry of
        None \<Rightarrow> content = None
      | Some i \<Rightarrow> \<exists>t. content = Some t \<and> (snd (files i) \<longrightarrow> t = fst (files i)))"

definition may_hold :: "disk \<Rightarrow> pystr \<Rightarrow> pystr option \<Rightarrow> bool" where
  "may_hold d path content \<longleftrightarrow> (\<exists>names \<in> set (dk_names d). found (dk_files d) (names path) content)"

text \<open>A disk found after a crash: one directory version, synced files as they were, others with any content.\<close>

definition crashed :: "disk \<Rightarrow> disk \<Rightarrow> bool" where
  "crashed d d' \<longleftrightarrow>
     (\<exists>names \<in> set (dk_names d). dk_names d' = [names]) \<and> dk_faults d' = [] \<and>
     (\<forall>i. snd (dk_files d i) \<longrightarrow> fst (dk_files d' i) = fst (dk_files d i))"

definition content_now :: "disk \<Rightarrow> pystr \<Rightarrow> pystr option" where
  "content_now d path = map_option (\<lambda>i. fst (dk_files d i)) (names_now d path)"

lemma crashed_may_hold: "crashed d d' \<Longrightarrow> may_hold d path (content_now d' path)"
  by (auto simp: crashed_def may_hold_def found_def content_now_def names_now_def split: option.splits)

text \<open>
  The files of different uses are different ones: no version of the directory gives the path the
  file now under the temporary name, and unused files are nowhere.
\<close>

definition wf_disk :: "pystr \<Rightarrow> pystr \<Rightarrow> disk \<Rightarrow> bool" where
  "wf_disk path tmp d \<longleftrightarrow> dk_names d \<noteq> [] \<and>
     (\<forall>names \<in> set (dk_names d).
        (\<forall>i. names_now d tmp = Some i \<longrightarrow> names path \<noteq> Some i) \<and>
        (\<forall>p i. names p = Some i \<longrightarrow> i < dk_next d))"

section \<open>Rules for the calls\<close>

lemma wp_syscall [wp_simps]:
  "wp (syscall f) Q E d \<longleftrightarrow>
     (let d' = d\<lparr>dk_faults := tl (dk_faults d)\<rparr> in
      case dk_faults d of
        Some e # _ \<Rightarrow> E e d'
      | _ \<Rightarrow> (case f d' of Inl e \<Rightarrow> E e d' | Inr d'' \<Rightarrow> Q () d''))"
  by (auto simp: wp_def syscall_def Let_def split: list.splits option.splits sum.splits)

text \<open>
  What holds all along a save: the disk is well formed and after a crash the path has one of the
  contents \<open>old\<close>; and, if \<open>strict\<close>, no coming call fails with an error the code tolerates.
\<close>

definition stable :: "pystr \<Rightarrow> pystr \<Rightarrow> bool \<Rightarrow> pystr option set \<Rightarrow> disk \<Rightarrow> bool" where
  "stable path tmp strict old d \<longleftrightarrow> wf_disk path tmp d \<and> (\<forall>c. may_hold d path c \<longrightarrow> c \<in> old) \<and>
     (strict \<longrightarrow> (\<forall>n \<in> DIR_FSYNC_UNSUPPORTED. Some (OSError n) \<notin> set (dk_faults d)))"

definition holds :: "disk \<Rightarrow> pystr \<Rightarrow> pystr \<times> bool \<Rightarrow> bool" where
  "holds d path file \<longleftrightarrow> (\<exists>i. names_now d path = Some i \<and> dk_files d i = file)"

lemma found_update [simp]: "entry \<noteq> Some i \<Longrightarrow> found (files(i := f)) entry c = found files entry c"
  by (auto simp: found_def split: option.splits)

lemma disk_faults [simp]:
  "names_now (d\<lparr>dk_faults := fs\<rparr>) = names_now d" "may_hold (d\<lparr>dk_faults := fs\<rparr>) = may_hold d"
  "wf_disk path tmp (d\<lparr>dk_faults := fs\<rparr>) = wf_disk path tmp d" "holds (d\<lparr>dk_faults := fs\<rparr>) = holds d"
  by (simp_all add: names_now_def may_hold_def wf_disk_def holds_def fun_eq_iff)

lemma stable_next_fault: "stable path tmp strict old d \<Longrightarrow> stable path tmp strict old (d\<lparr>dk_faults := tl (dk_faults d)\<rparr>)"
  by (cases "dk_faults d") (auto simp: stable_def)

text \<open>The current version of the directory is one of them.\<close>

lemma wf_now:
  assumes "wf_disk path tmp d"
  shows "names_now d \<in> set (dk_names d)" "names_now d p = Some i \<Longrightarrow> i < dk_next d"
    "names_now d tmp = Some i \<Longrightarrow> names \<in> set (dk_names d) \<Longrightarrow> names path \<noteq> Some i"
    "names \<in> set (dk_names d) \<Longrightarrow> names p = Some i \<Longrightarrow> i < dk_next d"
  using assms hd_in_set [of "dk_names d"] unfolding wf_disk_def names_now_def by blast+

definition untolerated :: "bool \<Rightarrow> exn \<Rightarrow> bool" where
  "untolerated strict e \<longleftrightarrow> (strict \<longrightarrow> (\<forall>n \<in> DIR_FSYNC_UNSUPPORTED. e \<noteq> OSError n))"

text \<open>A system call, given what it does when no fault occurs.\<close>

lemma stable_call:
  assumes "stable path tmp strict old d"
    and "\<And>d'. d' = d\<lparr>dk_faults := tl (dk_faults d)\<rparr> \<Longrightarrow> stable path tmp strict old d' \<Longrightarrow>
      case f d' of Inl e \<Rightarrow> E e d' | Inr d'' \<Rightarrow> Q () d''"
    and "\<And>d' e. stable path tmp strict old d' \<Longrightarrow> untolerated strict e \<Longrightarrow> E e d'"
  shows "wp (syscall f) Q E d"
proof -
  have "untolerated strict e" if "Some e \<in> set (dk_faults d)" for e
    using assms(1) that by (auto simp: stable_def untolerated_def)
  then show ?thesis
    unfolding wp_syscall Let_def
    using assms(2) [OF refl stable_next_fault [OF assms(1)]]
      assms(3) [OF stable_next_fault [OF assms(1)]]
    by (cases "dk_faults d") (auto split: option.splits list.splits)
qed

lemma update_stable:
  assumes "stable path tmp strict old d" "names_now d tmp = Some i"
  shows "stable path tmp strict old (d\<lparr>dk_files := (dk_files d)(i := f)\<rparr>)"
    and "holds (d\<lparr>dk_files := (dk_files d)(i := f)\<rparr>) tmp f"
proof -
  have "wf_disk path tmp d"
    using assms(1) by (simp add: stable_def)
  note now = wf_now [OF this]
  have "may_hold (d\<lparr>dk_files := (dk_files d)(i := f)\<rparr>) path c = may_hold d path c" for c
    using now(3) [OF assms(2)] by (simp add: may_hold_def cong: bex_cong)
  with assms(1) show "stable path tmp strict old (d\<lparr>dk_files := (dk_files d)(i := f)\<rparr>)"
    by (simp add: stable_def wf_disk_def names_now_def)
  show "holds (d\<lparr>dk_files := (dk_files d)(i := f)\<rparr>) tmp f"
    using assms(2) by (simp add: holds_def names_now_def)
qed

lemma create_stable:
  assumes "stable path tmp strict old d" "path \<noteq> tmp"
  shows "wp (os_create disk_os tmp) (\<lambda>_ d. stable path tmp strict old d \<and> holds d tmp ([], False))
    (\<lambda>_. stable path tmp strict old) d"
  unfolding disk_os_def os_calls.simps
proof (rule stable_call [OF assms(1)], goal_cases)
  case (1 d')
  note now = wf_now [of path tmp d']
  have wf: "wf_disk path tmp d'"
    using 1(2) by (simp add: stable_def)
  show ?case
  proof (cases "names_now d' tmp")
    case None
    let ?d = "d'\<lparr>dk_names := (names_now d')(tmp \<mapsto> dk_next d') # dk_names d',
      dk_files := (dk_files d')(dk_next d' := ([], False)), dk_next := Suc (dk_next d')\<rparr>"
    have fresh: "names p \<noteq> Some (dk_next d')" if "names \<in> set (dk_names d')" for names p
      using now(4) [OF wf that] by auto
    have "may_hold ?d path c \<longleftrightarrow> may_hold d' path c" for c
      using assms(2) fresh now(1) [OF wf] by (auto simp: may_hold_def)
    moreover have "wf_disk path tmp ?d"
      using assms(2) fresh now(1,2,4) [OF wf] by (auto simp: wf_disk_def names_now_def less_Suc_eq)
    ultimately show ?thesis
      using 1(2) None by (simp add: create_file_def stable_def holds_def names_now_def)
  next
    case (Some i)
    with update_stable [OF 1(2) Some] show ?thesis
      by (simp add: create_file_def)
  qed
qed auto

lemma on_file_stable:
  assumes "stable path tmp strict old d" "holds d tmp file"
  shows "wp (syscall (on_file tmp f)) (\<lambda>_ d. stable path tmp strict old d \<and> holds d tmp (f file))
    (\<lambda>_. stable path tmp strict old) d"
proof (rule stable_call [OF assms(1)], goal_cases)
  case (1 d')
  then obtain i where "names_now d' tmp = Some i" "dk_files d' i = file"
    using assms(2) by (auto simp: holds_def)
  with update_stable [OF 1(2)] show ?case
    by (simp add: on_file_def)
qed auto

lemma close_stable:
  assumes "stable path tmp strict old d" "P d" "\<And>d fs. P (d\<lparr>dk_faults := fs\<rparr>) = P d"
  shows "wp (syscall Inr) (\<lambda>_ d. stable path tmp strict old d \<and> P d)
    (\<lambda>e d. stable path tmp strict old d \<and> untolerated strict e) d"
  by (rule stable_call [OF assms(1)]) (use assms(2,3) in auto)

lemma rename_stable:
  assumes "stable path tmp strict old d" "holds d tmp (text, True)" "path \<noteq> tmp"
  shows "wp (syscall (rename_file tmp path))
    (\<lambda>_ d. stable path tmp strict (insert (Some text) old) d \<and> holds d path (text, True))
    (\<lambda>_. stable path tmp strict old) d"
proof (rule stable_call [OF assms(1)], goal_cases)
  case (1 d')
  then obtain i where i: "names_now d' tmp = Some i" "dk_files d' i = (text, True)"
    using assms(2) by (auto simp: holds_def)
  have wf: "wf_disk path tmp d'"
    using 1(2) by (simp add: stable_def)
  let ?d = "d'\<lparr>dk_names := (names_now d')(path \<mapsto> i, tmp := None) # dk_names d'\<rparr>"
  have "may_hold ?d path c \<longleftrightarrow> c = Some text \<or> may_hold d' path c" for c
    using i(2) assms(3) by (auto simp: may_hold_def found_def)
  moreover have "wf_disk path tmp ?d"
    using assms(3) wf_now(2,4) [OF wf] i(1) by (auto simp: wf_disk_def names_now_def split: if_splits)
  ultimately show ?case
    using 1(2) i assms(3) by (auto simp: rename_file_def stable_def holds_def names_now_def)
qed auto

text \<open>After the directory is synced the path has the content it has now.\<close>

lemma sync_dir_stable:
  assumes "stable path tmp strict old d" "holds d path (text, True)"
  shows "wp (syscall (\<lambda>d. Inr (d\<lparr>dk_names := [names_now d]\<rparr>)))
    (\<lambda>_ d. stable path tmp strict old d \<and> (\<forall>c. may_hold d path c \<longrightarrow> c = Some text))
    (\<lambda>e d. stable path tmp strict old d \<and> untolerated strict e) d"
proof (rule stable_call [OF assms(1)], goal_cases)
  case (1 d')
  have wf: "wf_disk path tmp d'"
    using 1(2) by (simp add: stable_def)
  let ?d = "d'\<lparr>dk_names := [names_now d']\<rparr>"
  have "may_hold ?d path c \<Longrightarrow> may_hold d' path c" for c
    using wf_now(1) [OF wf] by (auto simp: may_hold_def)
  moreover have "wf_disk path tmp ?d"
    using wf_now [OF wf] by (auto simp: wf_disk_def names_now_def)
  moreover have "may_hold ?d path c \<Longrightarrow> c = Some text" for c
    using assms(2) 1(1) by (auto simp: may_hold_def found_def holds_def)
  ultimately show ?case
    using 1(2) by (auto simp: stable_def names_now_def)
qed auto

lemma wp_nested:
  assumes "wp m Q' E' s" "\<And>x t. Q' x t \<Longrightarrow> wp (k x) Q E t" "\<And>e t. E' e t \<Longrightarrow> E e t"
  shows "wp (bnd m k) Q E s"
  unfolding wp_bnd using assms by (rule wp_weaken)

lemma wp_nested_thn:
  assumes "wp m Q' E' s" "\<And>x t. Q' x t \<Longrightarrow> wp k Q E t" "\<And>e t. E' e t \<Longrightarrow> E e t"
  shows "wp (thn m k) Q E s"
  unfolding wp_thn using assms by (rule wp_weaken)

lemma sync_directory_stable:
  assumes "stable path tmp strict old d" "holds d path (text, True)"
  shows "wp (sync_directory disk_os path)
    (\<lambda>_ d. stable path tmp strict old d \<and> (strict \<longrightarrow> (\<forall>c. may_hold d path c \<longrightarrow> c = Some text)))
    (\<lambda>_. stable path tmp strict old) d"
proof -
  have "wp (thn (syscall Inr) (finally_do (syscall (\<lambda>d. Inr (d\<lparr>dk_names := [names_now d]\<rparr>))) (syscall Inr)))
      (\<lambda>_ d. stable path tmp strict old d \<and> (\<forall>c. may_hold d path c \<longrightarrow> c = Some text))
      (\<lambda>e d. stable path tmp strict old d \<and> untolerated strict e) d"
  proof (rule wp_nested_thn [OF close_stable [OF assms(1), where P = "\<lambda>d. holds d path (text, True)"]],
      goal_cases)
    case (3 x t)
    then have t: "stable path tmp strict old t" "holds t path (text, True)"
      by auto
    show ?case
      unfolding wp_finally
    proof (rule wp_weaken [OF sync_dir_stable [OF t]], goal_cases)
      case (1 x u)
      then show ?case
        by (auto intro!: wp_weaken [OF close_stable [where P = "\<lambda>d. \<forall>c. may_hold d path c \<longrightarrow> c = Some text"]])
    next
      case (2 e u)
      then show ?case
        by (auto intro!: wp_weaken [OF close_stable [where P = "\<lambda>_. True"]])
    qed
  qed (use assms in auto)
  then show ?thesis
    unfolding sync_directory_def disk_os_def Let_def os_calls.simps wp_catch
    by (rule wp_weaken) (auto simp: wp_ret untolerated_def)
qed

lemma save_stable:
  assumes "stable path (path @ ascii ''.tmp'') strict old d" "path \<noteq> []"
    and "cursor_coordinates position = Inr (i, v)" "json_dump (cursor_payload i v name) = Some text"
  shows "wp (save_cursor_to_file disk_os (Some path) position name)
    (\<lambda>_ d. stable path (path @ ascii ''.tmp'') strict (insert (Some text) old) d \<and>
      (strict \<longrightarrow> (\<forall>c. may_hold d path c \<longrightarrow> c = Some text)))
    (\<lambda>_. stable path (path @ ascii ''.tmp'') strict (insert (Some text) old)) d"
proof -
  let ?tmp = "path @ ascii ''.tmp''"
  have tmp: "path \<noteq> ?tmp"
    by (simp add: ascii_def)
  have more: "stable path ?tmp strict old d \<Longrightarrow> stable path ?tmp strict (insert (Some text) old) d" for d
    by (auto simp: stable_def)
  have dump: "wp (finally_do (thn (os_write disk_os ?tmp text) (os_fsync disk_os ?tmp)) (os_close disk_os ?tmp))
      (\<lambda>_ d. stable path ?tmp strict old d \<and> holds d ?tmp (text, True))
      (\<lambda>_. stable path ?tmp strict old) d"
    if "stable path ?tmp strict old d" "holds d ?tmp ([], False)" for d
  proof -
    have "wp (thn (os_write disk_os ?tmp text) (os_fsync disk_os ?tmp))
        (\<lambda>_ d. stable path ?tmp strict old d \<and> holds d ?tmp (text, True))
        (\<lambda>_. stable path ?tmp strict old) d"
      unfolding disk_os_def os_calls.simps
      by (rule wp_nested_thn [OF on_file_stable [OF that]])
        (auto intro!: wp_weaken [OF on_file_stable])
    then show ?thesis
      unfolding wp_finally
    proof (rule wp_weaken, goal_cases)
      case (1 x u)
      then show ?case
        unfolding disk_os_def os_calls.simps
        by (auto intro!: wp_weaken [OF close_stable [where P = "\<lambda>d. holds d ?tmp (text, True)"]])
    next
      case (2 e u)
      then show ?case
        unfolding disk_os_def os_calls.simps
        by (auto intro!: wp_weaken [OF close_stable [where P = "\<lambda>_. True"]])
    qed
  qed
  have replace: "wp (thn (os_replace disk_os ?tmp path) (sync_directory disk_os path))
      (\<lambda>_ d. stable path ?tmp strict (insert (Some text) old) d \<and>
        (strict \<longrightarrow> (\<forall>c. may_hold d path c \<longrightarrow> c = Some text)))
      (\<lambda>_. stable path ?tmp strict (insert (Some text) old)) d"
    if "stable path ?tmp strict old d" "holds d ?tmp (text, True)" for d
  proof (rule wp_nested_thn)
    show "wp (os_replace disk_os ?tmp path)
        (\<lambda>_ d. stable path ?tmp strict (insert (Some text) old) d \<and> holds d path (text, True))
        (\<lambda>_. stable path ?tmp strict old) d"
      unfolding disk_os_def os_calls.simps by (rule rename_stable [OF that tmp])
  qed (auto intro: sync_directory_stable more)
  show ?thesis
    using assms(2-4)
    by (auto simp: save_cursor_to_file_def bnd_liftE Let_def
        intro!: wp_nested_thn [OF create_stable [OF assms(1) tmp]] wp_nested_thn [OF dump] replace more)
qed

end
