(* ===== verification/Checkpoint_Safety.thy ===== *)
theory Checkpoint_Safety
  imports Disk
begin

text \<open>
  The cursor file as a whole: what a checkpoint guarantees about the cursor a restarted bridge
  reads, whatever call fails and whenever the machine goes down.
\<close>

section \<open>Reading what was written\<close>

lemma int_text_dump:
  "json_dump (cursor_payload i v name) \<noteq> None \<longleftrightarrow> int_text i \<noteq> None \<and> int_text v \<noteq> None"
  by (cases name) (auto simp: json_dump_def cursor_payload_def split: option.splits)

lemma parse_dumped_cursor:
  assumes "json_dump (cursor_payload i v (Some m)) = Some text" "\<forall>c \<in> set m. scalar c"
  shows "parse_cursor text name =
    (if name \<noteq> None \<and> name \<noteq> Some m then Inl ValueError else Inr (i, v))"
proof -
  have "json_loads text = Some (JObject (map (\<lambda>(k, v). (k, payload_json v)) (cursor_payload i v (Some m))))"
    using assms by (intro json_roundtrip) (auto simp: cursor_payload_def ascii_def scalar_def)
  then show ?thesis
    by (cases name) (auto simp: parse_cursor_def cursor_payload_def json_get_def ascii_def)
qed

lemma load_content:
  "load_cursor_from_file disk_os None (Some path) name d =
     ((case content_now d path of
         None \<Rightarrow> Inr None
       | Some text \<Rightarrow>
           if path = [] then Inr None
           else bindE (parse_cursor text name) (\<lambda>(i, v). Inr (Some (persisted_cursor i v)))), d)"
  by (auto simp: load_cursor_from_file_def disk_os_def read_file_def content_now_def run_simps
      split: option.splits sum.splits)

lemma may_hold_crashed:
  assumes "may_hold d path c"
  shows "\<exists>d'. crashed d d' \<and> content_now d' path = c"
proof -
  obtain names where names: "names \<in> set (dk_names d)" "found (dk_files d) (names path) c"
    using assms by (auto simp: may_hold_def)
  let ?files = "case (names path, c) of
      (Some i, Some t) \<Rightarrow> (dk_files d)(i := (t, snd (dk_files d i))) | _ \<Rightarrow> dk_files d"
  let ?d = "d\<lparr>dk_names := [names], dk_faults := [], dk_files := ?files\<rparr>"
  have "crashed d ?d" "content_now ?d path = c"
    using names by (auto simp: crashed_def content_now_def names_now_def found_def split: option.splits)
  then show ?thesis
    by blast
qed

definition wf_cursor_disk :: "pystr \<Rightarrow> disk \<Rightarrow> bool" where
  "wf_cursor_disk path d \<longleftrightarrow> wf_disk path (path @ ascii ''.tmp'') d"

lemma stable_start:
  "wf_cursor_disk path d \<Longrightarrow> (strict \<Longrightarrow> \<forall>n \<in> DIR_FSYNC_UNSUPPORTED. Some (OSError n) \<notin> set (dk_faults d)) \<Longrightarrow>
     stable path (path @ ascii ''.tmp'') strict {c. may_hold d path c} d"
  by (simp add: stable_def wf_cursor_disk_def)

text \<open>A save that returned had a text to write.\<close>

lemma save_dumps:
  assumes "save_cursor_to_file os (Some path) position name d = (Inr (), d')" "path \<noteq> []"
    "cursor_coordinates position = Inr (i, v)"
  shows "\<exists>text. json_dump (cursor_payload i v name) = Some text"
  using assms
  by (cases "json_dump (cursor_payload i v name)")
    (auto simp: save_cursor_to_file_def bnd_liftE Let_def finally_do_def run_simps
      split: prod.splits sum.splits)

section \<open>Properties\<close>

text \<open>C4: A checkpoint that returned is durable. Whatever the disk held and whenever the machine goes
  down afterwards, the next start reads back the cursor that was saved, for the stream it was saved
  for; provided the file system can sync a directory (the code tolerates one that cannot).\<close>

theorem saved_cursor_survives:
  assumes "wf_cursor_disk path d" "path \<noteq> []" "utf8_encode name = Some bs"
    and "\<forall>n \<in> DIR_FSYNC_UNSUPPORTED. Some (OSError n) \<notin> set (dk_faults d)"
    and "cursor_coordinates position = Inr (i, v)"
    and "save_cursor_to_file disk_os (Some path) position (Some name) d = (Inr (), d')"
    and "crashed d' d''"
  shows "load_cursor_from_file disk_os None (Some path) (Some name) d'' =
    (Inr (Some (persisted_cursor i v)), d'')"
proof -
  obtain content where dumped: "json_dump (cursor_payload i v (Some name)) = Some content"
    using save_dumps [OF assms(6,2,5)] by auto
  note saved = save_stable [OF stable_start [OF assms(1), of True] assms(2,5) dumped]
  have "\<forall>c. may_hold d' path c \<longrightarrow> c = Some content"
    using wp_InrD [OF saved assms(6)] assms(4) by simp
  then have now: "content_now d'' path = Some content"
    using crashed_may_hold [OF assms(7)] by simp
  have "parse_cursor content (Some name) = Inr (i, v)"
    using parse_dumped_cursor [OF dumped encodable_scalars [OF assms(3)]] by simp
  with now assms(2) show ?thesis
    by (simp add: load_content)
qed

text \<open>C6: An interrupted checkpoint loses nothing. If a save fails at any call, or the machine goes down
  during or after it, the next start behaves as it could have without the save, or it reads the new
  cursor: never a damaged file.\<close>

theorem interrupted_save_is_atomic:
  assumes "wf_cursor_disk path d" "path \<noteq> []" "utf8_encode name = Some bs"
    and "cursor_coordinates position = Inr (i, v)" "int_text i \<noteq> None" "int_text v \<noteq> None"
    and "save_cursor_to_file disk_os (Some path) position (Some name) d = (r, d')"
    and "crashed d' d''"
  shows "fst (load_cursor_from_file disk_os None (Some path) (Some name) d'') =
      Inr (Some (persisted_cursor i v)) \<or>
    (\<exists>d0. crashed d d0 \<and> fst (load_cursor_from_file disk_os None (Some path) (Some name) d'') =
      fst (load_cursor_from_file disk_os None (Some path) (Some name) d0))"
proof -
  obtain content where dumped: "json_dump (cursor_payload i v (Some name)) = Some content"
    using int_text_dump [of i v "Some name"] assms(5,6) by auto
  note saved = save_stable [OF stable_start [OF assms(1), of False] assms(2,4) dumped]
  have "\<forall>c. may_hold d' path c \<longrightarrow> c = Some content \<or> may_hold d path c"
    using wp_InrD [OF saved] wp_InlD [OF saved] assms(7)
    by (cases r) (auto simp: stable_def)
  then consider "content_now d'' path = Some content" | "may_hold d path (content_now d'' path)"
    using crashed_may_hold [OF assms(8)] by blast
  then show ?thesis
  proof cases
    case 1
    then show ?thesis
      using parse_dumped_cursor [OF dumped encodable_scalars [OF assms(3)], of "Some name"] assms(2)
      by (simp add: load_content)
  next
    case 2
    from may_hold_crashed [OF this] show ?thesis
      by (metis fst_conv load_content)
  qed
qed

text \<open>C30: A cursor file of another stream is never resumed from: loading it for a stream of a different
  name raises \<open>ValueError\<close>.\<close>

theorem foreign_cursor_rejected:
  assumes "json_dump (cursor_payload i v (Some other)) = Some text" "utf8_encode other = Some bs"
    and "content_now d path = Some text" "path \<noteq> []" "name \<noteq> other"
  shows "load_cursor_from_file disk_os None (Some path) (Some name) d = (Inl ValueError, d)"
  using assms parse_dumped_cursor [OF assms(1) encodable_scalars [OF assms(2)], of "Some name"]
  by (simp add: load_content)

section \<open>Witnesses\<close>

definition demo_disk :: disk where
  "demo_disk = \<lparr>dk_names = [Map.empty], dk_files = (\<lambda>_. ([], False)), dk_next = 0, dk_faults = []\<rparr>"

definition demo_text :: pystr where
  "demo_text = ascii ''{\"stream_id\": 5, \"last_consumed_version\": 7, \"stream_name\": \"s\"}''"

lemma demo_dump: "json_dump (cursor_payload 5 7 (Some (ascii ''s''))) = Some demo_text"
  by (simp add: json_dump_def cursor_payload_def int_text_def digits.simps digit_limit_def
      string_text_def escape_def ascii_def demo_text_def)

definition saved_disk :: disk where
  "saved_disk = \<lparr>dk_names = [[ascii ''c'' \<mapsto> 0]], dk_files = (\<lambda>_. ([], False))(0 := (demo_text, True)),
     dk_next = 1, dk_faults = []\<rparr>"

lemma demo_save:
  "save_cursor_to_file disk_os (Some (ascii ''c'')) (persisted_cursor 5 7) (Some (ascii ''s'')) demo_disk =
     (Inr (), saved_disk)"
  using demo_dump
  by (simp add: save_cursor_to_file_def bnd_liftE Let_def run_simps cursor_coordinates_def coordinate_def
      persisted_cursor_def disk_os_def demo_disk_def saved_disk_def finally_do_def syscall_def on_file_def
      create_file_def rename_file_def sync_directory_def names_now_def ascii_def fun_upd_twist)

lemma demo_wf: "wf_cursor_disk (ascii ''c'') (demo_disk\<lparr>dk_faults := fs\<rparr>)"
  by (simp add: wf_cursor_disk_def wf_disk_def demo_disk_def names_now_def)

lemma demo_coordinates: "cursor_coordinates (persisted_cursor 5 7) = Inr (5, 7)"
  by (simp add: cursor_coordinates_def coordinate_def persisted_cursor_def)

lemma demo_name: "utf8_encode (ascii ''s'') = Some [115]"
  by (simp add: ascii_def utf8_char_def)

theorem saved_cursor_survives_witness:
  "load_cursor_from_file disk_os None (Some (ascii ''c'')) (Some (ascii ''s'')) saved_disk =
     (Inr (Some (persisted_cursor 5 7)), saved_disk)"
proof -
  have "wf_cursor_disk (ascii ''c'') demo_disk"
    using demo_wf [of "[]"] by (simp add: demo_disk_def)
  moreover have "crashed saved_disk saved_disk"
    by (simp add: crashed_def saved_disk_def)
  ultimately show ?thesis
    using demo_save by (intro saved_cursor_survives [OF _ _ demo_name _ demo_coordinates])
      (simp_all add: ascii_def demo_disk_def)
qed

text \<open>The process is interrupted at the rename: the next start finds no cursor, as before.\<close>

definition interrupted_disk :: disk where
  "interrupted_disk = \<lparr>dk_names = [[ascii ''c.tmp'' \<mapsto> 0], Map.empty],
     dk_files = (\<lambda>_. ([], False))(0 := (demo_text, True)), dk_next = 1, dk_faults = []\<rparr>"

lemma demo_interrupted:
  "save_cursor_to_file disk_os (Some (ascii ''c'')) (persisted_cursor 5 7) (Some (ascii ''s''))
     (demo_disk\<lparr>dk_faults := [None, None, None, None, Some KeyboardInterrupt]\<rparr>) =
     (Inl KeyboardInterrupt, interrupted_disk)"
  using demo_dump
  by (simp add: save_cursor_to_file_def bnd_liftE Let_def run_simps cursor_coordinates_def coordinate_def
      persisted_cursor_def disk_os_def demo_disk_def interrupted_disk_def finally_do_def syscall_def on_file_def
      create_file_def rename_file_def names_now_def ascii_def)

theorem interrupted_save_is_atomic_witness:
  "fst (load_cursor_from_file disk_os None (Some (ascii ''c'')) (Some (ascii ''s''))
     (interrupted_disk\<lparr>dk_names := [Map.empty]\<rparr>)) \<in> {Inr (Some (persisted_cursor 5 7)), Inr None}"
proof -
  have "crashed interrupted_disk (interrupted_disk\<lparr>dk_names := [Map.empty]\<rparr>)"
    by (simp add: crashed_def interrupted_disk_def)
  from interrupted_save_is_atomic [OF demo_wf _ demo_name demo_coordinates _ _ demo_interrupted this]
  consider "fst (load_cursor_from_file disk_os None (Some (ascii ''c'')) (Some (ascii ''s''))
      (interrupted_disk\<lparr>dk_names := [Map.empty]\<rparr>)) = Inr (Some (persisted_cursor 5 7))"
    | d0 where "crashed (demo_disk\<lparr>dk_faults := [None, None, None, None, Some KeyboardInterrupt]\<rparr>) d0"
      "fst (load_cursor_from_file disk_os None (Some (ascii ''c'')) (Some (ascii ''s''))
      (interrupted_disk\<lparr>dk_names := [Map.empty]\<rparr>)) =
       fst (load_cursor_from_file disk_os None (Some (ascii ''c'')) (Some (ascii ''s'')) d0)"
    by (auto simp: ascii_def int_text_def digits.simps digit_limit_def)
  then show ?thesis
    by cases (auto simp: load_content content_now_def names_now_def crashed_def demo_disk_def)
qed

theorem foreign_cursor_rejected_witness:
  "load_cursor_from_file disk_os None (Some (ascii ''c'')) (Some (ascii ''t'')) saved_disk =
     (Inl ValueError, saved_disk)"
  by (rule foreign_cursor_rejected [OF demo_dump demo_name])
    (simp_all add: content_now_def names_now_def saved_disk_def ascii_def)

end
