(* ===== verification/Config.thy ===== *)
theory Config
  imports Cursor_File "HOL-Library.AList"
begin

text \<open>
  \<open>bridge/config.py\<close>: the configuration records and \<open>from_dict\<close>, which checks a nested dictionary
  and builds them. A dictionary is a list of key-value pairs without repeated keys.
\<close>

section \<open>The configuration\<close>

record fdb_config =
  cf_api_version :: int
  cf_cluster_file :: "pystr option"

record cdc_config =
  cf_stream_name :: pystr
  cf_begin_key :: bytes
  cf_end_key :: bytes
  cf_max_record_bytes :: int
  cf_cursor_file :: "pystr option"

record kafka_config =
  cf_bootstrap_servers :: pystr
  cf_topic :: pystr
  cf_transactional_id :: "pystr option"

record pipeline_config =
  cf_flush_timeout_seconds :: pyfloat
  cf_backoff_base_seconds :: pyfloat
  cf_backoff_max_seconds :: pyfloat
  cf_shutdown_timeout_seconds :: pyfloat

record bridge_config =
  cf_fdb :: fdb_config
  cf_cdc :: cdc_config
  cf_kafka :: kafka_config
  cf_pipeline :: pipeline_config

section \<open>Helpers\<close>

fun require_dict :: "pyval \<Rightarrow> exn + (pyval \<times> pyval) list" where
  "require_dict PNone = Inr []"
| "require_dict (PDict d) = Inr d"
| "require_dict _ = Inl TypeError"

text \<open>
  Sorting or joining the unknown keys raises \<open>TypeError\<close> as soon as one of them is not a string.
\<close>

definition reject_unknown_keys :: "(pyval \<times> pyval) list \<Rightarrow> string list \<Rightarrow> exn + unit" where
  "reject_unknown_keys d names =
     (let unknown = filter (\<lambda>k. k \<notin> (\<lambda>n. PStr (ascii n)) ` set names) (map fst d) in
      if unknown = [] then Inr ()
      else if \<exists>k \<in> set unknown. \<forall>s. k \<noteq> PStr s then Inl TypeError
      else Inl ValueError)"

text \<open>\<open>bytes.fromhex\<close>: pairs of hexadecimal digits, with ASCII white space between the pairs.\<close>

fun from_hex :: "pystr \<Rightarrow> bytes option" where
  "from_hex [] = Some []"
| "from_hex (c # cs) =
     (if c = 32 \<or> 9 \<le> c \<and> c \<le> 13 then from_hex cs
      else
        (case cs of
           [] \<Rightarrow> None
         | d # ds \<Rightarrow>
             (case (hex_value c, hex_value d) of
                (Some x, Some y) \<Rightarrow> map_option (\<lambda>bs. of_nat (16 * x + y) # bs) (from_hex ds)
              | _ \<Rightarrow> None)))"

fun parse_key :: "pyval \<Rightarrow> exn + bytes" where
  "parse_key (PStr key) = (case from_hex key of None \<Rightarrow> Inl ValueError | Some bs \<Rightarrow> Inr bs)"
| "parse_key (PBytes key) = Inr key"
| "parse_key (PByteArray key) = Inr key"
| "parse_key _ = Inl TypeError"

text \<open>\<open>not s.strip()\<close>: only characters Python counts as white space.\<close>

definition is_space :: "nat \<Rightarrow> bool" where
  "is_space c \<longleftrightarrow> 9 \<le> c \<and> c \<le> 13 \<or> 28 \<le> c \<and> c \<le> 32 \<or> c = 133 \<or> c = 160 \<or> c = 5760 \<or>
     8192 \<le> c \<and> c \<le> 8202 \<or> c = 8232 \<or> c = 8233 \<or> c = 8239 \<or> c = 8287 \<or> c = 12288"

definition blank :: "pystr \<Rightarrow> bool" where
  "blank s \<longleftrightarrow> list_all is_space s"

definition get_default :: "(pyval \<times> pyval) list \<Rightarrow> string \<Rightarrow> pyval \<Rightarrow> pyval" where
  "get_default d k v = (case py_get d k of None \<Rightarrow> v | Some x \<Rightarrow> x)"

section \<open>Settings\<close>

definition positive_int :: "pyval \<Rightarrow> exn + int" where
  "positive_int v =
     (case plain_int v of
        None \<Rightarrow> Inl TypeError
      | Some n \<Rightarrow> if n < 1 then Inl ValueError else Inr n)"

fun optional_string :: "pyval \<Rightarrow> exn + pystr option" where
  "optional_string PNone = Inr None"
| "optional_string (PStr s) = Inr (Some s)"
| "optional_string _ = Inl TypeError"

fun nonblank_string :: "exn \<Rightarrow> pyval \<Rightarrow> exn + pystr" where
  "nonblank_string wrong_type (PStr s) = (if blank s then Inl ValueError else Inr s)"
| "nonblank_string wrong_type _ = Inl wrong_type"

definition optional_nonblank :: "pyval \<Rightarrow> exn + pystr option" where
  "optional_nonblank v =
     (if v = PNone then Inr None else bindE (nonblank_string TypeError v) (\<lambda>s. Inr (Some s)))"

definition positive_seconds :: "pyval \<Rightarrow> exn + pyfloat" where
  "positive_seconds v =
     (case py_float v of
        None \<Rightarrow> Inl ValueError
      | Some x \<Rightarrow> if py_le x py_zero then Inl ValueError else Inr x)"

section \<open>The parser\<close>

definition fdb_from_dict :: "(pyval \<times> pyval) list \<Rightarrow> exn + fdb_config" where
  "fdb_from_dict d =
     bindE (positive_int (get_default d ''api_version'' (PInt 800))) (\<lambda>api_version.
     bindE (optional_string (get_default d ''cluster_file'' PNone)) (\<lambda>cluster_file.
     Inr \<lparr>cf_api_version = api_version, cf_cluster_file = cluster_file\<rparr>))"

definition cdc_from_dict :: "(pyval \<times> pyval) list \<Rightarrow> exn + cdc_config" where
  "cdc_from_dict d =
     bindE (nonblank_string TypeError (get_default d ''stream_name'' (PStr []))) (\<lambda>stream_name.
     bindE (parse_key (get_default d ''begin_key'' (PStr []))) (\<lambda>begin_key.
     bindE (parse_key (get_default d ''end_key'' (PStr []))) (\<lambda>end_key.
     bindE (ensure ((begin_key \<noteq> []) = (end_key \<noteq> [])) ValueError) (\<lambda>_.
     bindE (ensure (\<not> (begin_key \<noteq> [] \<and> end_key \<le> begin_key)) ValueError) (\<lambda>_.
     bindE (positive_int (get_default d ''max_record_bytes'' (PInt 1000000))) (\<lambda>max_record_bytes.
     bindE (optional_string (get_default d ''cursor_file'' PNone)) (\<lambda>cursor_file.
     Inr \<lparr>cf_stream_name = stream_name, cf_begin_key = begin_key, cf_end_key = end_key,
          cf_max_record_bytes = max_record_bytes, cf_cursor_file = cursor_file\<rparr>)))))))"

definition kafka_from_dict :: "(pyval \<times> pyval) list \<Rightarrow> exn + kafka_config" where
  "kafka_from_dict d =
     bindE (nonblank_string ValueError
       (get_default d ''bootstrap_servers'' (PStr (ascii ''localhost:9092'')))) (\<lambda>bootstrap_servers.
     bindE (nonblank_string ValueError (get_default d ''topic'' (PStr (ascii ''fdb-cdc'')))) (\<lambda>topic.
     bindE (optional_nonblank (get_default d ''transactional_id'' PNone)) (\<lambda>transactional_id.
     Inr \<lparr>cf_bootstrap_servers = bootstrap_servers, cf_topic = topic,
          cf_transactional_id = transactional_id\<rparr>)))"

definition pipeline_from_dict :: "(pyval \<times> pyval) list \<Rightarrow> exn + pipeline_config" where
  "pipeline_from_dict d =
     bindE (positive_seconds (get_default d ''flush_timeout_seconds'' (PFloat (Finite 10)))) (\<lambda>flush_timeout.
     bindE (positive_seconds (get_default d ''backoff_base_seconds'' (PFloat (Finite (1 / 10))))) (\<lambda>backoff_base.
     bindE (positive_seconds (get_default d ''backoff_max_seconds'' (PFloat (Finite 2)))) (\<lambda>backoff_max.
     bindE (positive_seconds (get_default d ''shutdown_timeout_seconds'' (PFloat (Finite 15))))
       (\<lambda>shutdown_timeout.
     bindE (to_double flush_timeout) (\<lambda>flush_timeout.
     bindE (to_double backoff_base) (\<lambda>backoff_base.
     bindE (to_double backoff_max) (\<lambda>backoff_max.
     bindE (to_double shutdown_timeout) (\<lambda>shutdown_timeout.
     Inr \<lparr>cf_flush_timeout_seconds = flush_timeout, cf_backoff_base_seconds = backoff_base,
          cf_backoff_max_seconds = backoff_max, cf_shutdown_timeout_seconds = shutdown_timeout\<rparr>))))))))"

definition from_dict :: "pyval \<Rightarrow> exn + bridge_config" where
  "from_dict data =
     (case data of
        PDict d \<Rightarrow>
          bindE (reject_unknown_keys d [''fdb'', ''cdc'', ''kafka'', ''pipeline'']) (\<lambda>_.
          bindE (require_dict (get_default d ''fdb'' PNone)) (\<lambda>fdb_dict.
          bindE (require_dict (get_default d ''cdc'' PNone)) (\<lambda>cdc_dict.
          bindE (require_dict (get_default d ''kafka'' PNone)) (\<lambda>kafka_dict.
          bindE (require_dict (get_default d ''pipeline'' PNone)) (\<lambda>pipeline_dict.
          bindE (reject_unknown_keys fdb_dict [''api_version'', ''cluster_file'']) (\<lambda>_.
          bindE (reject_unknown_keys cdc_dict [''stream_name'', ''begin_key'', ''end_key'',
            ''max_record_bytes'', ''cursor_file'']) (\<lambda>_.
          bindE (reject_unknown_keys kafka_dict [''bootstrap_servers'', ''topic'', ''transactional_id'']) (\<lambda>_.
          bindE (reject_unknown_keys pipeline_dict [''flush_timeout_seconds'', ''backoff_base_seconds'',
            ''backoff_max_seconds'', ''shutdown_timeout_seconds'']) (\<lambda>_.
          bindE (fdb_from_dict fdb_dict) (\<lambda>fdb.
          bindE (cdc_from_dict cdc_dict) (\<lambda>cdc.
          bindE (kafka_from_dict kafka_dict) (\<lambda>kafka.
          bindE (pipeline_from_dict pipeline_dict) (\<lambda>pipeline.
          Inr \<lparr>cf_fdb = fdb, cf_cdc = cdc, cf_kafka = kafka, cf_pipeline = pipeline\<rparr>)))))))))))))
      | _ \<Rightarrow> Inl TypeError)"

section \<open>What is accepted\<close>

text \<open>
  What \<open>from_dict\<close> lets through. For every setting but the intervals this is the documented domain. The
  documentation wants a positive number for an interval (\<open>positive_interval\<close>); the code rejects what is
  \<open>x <= 0\<close>, which lets a \<open>NaN\<close> and an infinity pass too (\<open>not_rejected\<close>).
\<close>

definition positive_interval :: "pyfloat \<Rightarrow> bool" where
  "positive_interval x \<longleftrightarrow> (\<exists>r. x = Finite r \<and> 0 < r)"

definition not_rejected :: "pyfloat \<Rightarrow> bool" where
  "not_rejected x \<longleftrightarrow> \<not> py_le x py_zero"

lemma not_rejected_iff: "not_rejected x \<longleftrightarrow> positive_interval x \<or> x = PosInf \<or> x = NaN"
  by (cases x) (auto simp: not_rejected_def positive_interval_def py_zero_def)

definition valid_seconds :: "pyfloat \<Rightarrow> bool" where
  "valid_seconds x \<longleftrightarrow> not_rejected x \<and> to_double x = Inr x"

definition valid_fdb :: "fdb_config \<Rightarrow> bool" where
  "valid_fdb c \<longleftrightarrow> 1 \<le> cf_api_version c"

definition valid_cdc :: "cdc_config \<Rightarrow> bool" where
  "valid_cdc c \<longleftrightarrow> \<not> blank (cf_stream_name c) \<and> 1 \<le> cf_max_record_bytes c \<and>
     (if cf_begin_key c = [] then cf_end_key c = [] else cf_begin_key c < cf_end_key c)"

definition valid_kafka :: "kafka_config \<Rightarrow> bool" where
  "valid_kafka c \<longleftrightarrow> \<not> blank (cf_bootstrap_servers c) \<and> \<not> blank (cf_topic c) \<and>
     (case cf_transactional_id c of None \<Rightarrow> True | Some t \<Rightarrow> \<not> blank t)"

definition valid_pipeline :: "pipeline_config \<Rightarrow> bool" where
  "valid_pipeline c \<longleftrightarrow> valid_seconds (cf_flush_timeout_seconds c) \<and>
     valid_seconds (cf_backoff_base_seconds c) \<and> valid_seconds (cf_backoff_max_seconds c) \<and>
     valid_seconds (cf_shutdown_timeout_seconds c)"

definition valid_config :: "bridge_config \<Rightarrow> bool" where
  "valid_config c \<longleftrightarrow> valid_fdb (cf_fdb c) \<and> valid_cdc (cf_cdc c) \<and> valid_kafka (cf_kafka c) \<and>
     valid_pipeline (cf_pipeline c)"

definition known_keys :: "(pyval \<times> pyval) list \<Rightarrow> string list \<Rightarrow> bool" where
  "known_keys d names \<longleftrightarrow> fst ` set d \<subseteq> (\<lambda>n. PStr (ascii n)) ` set names"

lemma reject_unknown_keys_Inr [result_simps]:
  "reject_unknown_keys d names = Inr u \<longleftrightarrow> known_keys d names"
  by (auto simp: reject_unknown_keys_def Let_def known_keys_def filter_empty_conv)

lemma positive_int_Inr [result_simps]: "positive_int v = Inr n \<longleftrightarrow> plain_int v = Some n \<and> 1 \<le> n"
  by (auto simp: positive_int_def split: option.splits)

lemma nonblank_Inr [result_simps]: "nonblank_string e v = Inr s \<longleftrightarrow> v = PStr s \<and> \<not> blank s"
  by (cases v) auto

lemma optional_nonblank_Inr [result_simps]:
  "optional_nonblank v = Inr t \<longleftrightarrow>
     (case t of None \<Rightarrow> v = PNone | Some s \<Rightarrow> v = PStr s \<and> \<not> blank s)"
  by (auto simp: optional_nonblank_def result_simps split: option.splits)

lemma positive_seconds_Inr [result_simps]:
  "positive_seconds v = Inr x \<longleftrightarrow> py_float v = Some x \<and> not_rejected x"
  by (auto simp: positive_seconds_def not_rejected_def split: option.splits)

lemma ensure_Inr [result_simps]: "ensure b e = Inr u \<longleftrightarrow> b"
  by (simp add: ensure_def)

text \<open>The errors a parser of the module raises.\<close>

definition config_errors :: "exn + 'a \<Rightarrow> bool" where
  "config_errors r \<longleftrightarrow> (\<forall>e. r = Inl e \<longrightarrow> e = TypeError \<or> e = ValueError \<or> e = OverflowError)"

lemma config_errors_bindE: "config_errors m \<Longrightarrow> (\<And>x. config_errors (f x)) \<Longrightarrow> config_errors (bindE m f)"
  by (cases m) (auto simp: config_errors_def)

lemma config_errors_basic [simp]:
  "config_errors (Inr x)" "config_errors (ensure b ValueError)" "config_errors (positive_int v)"
  "config_errors (optional_string v)" "config_errors (positive_seconds v)" "config_errors (parse_key v)"
  "config_errors (require_dict v)" "config_errors (to_double y)" "config_errors (reject_unknown_keys d names)"
  by (auto simp: config_errors_def ensure_def positive_int_def positive_seconds_def
      reject_unknown_keys_def Let_def result_simps elim!: optional_string.elims parse_key.elims require_dict.elims
      split: option.splits if_splits)

lemma config_errors_nonblank [simp]:
  "e \<in> {TypeError, ValueError} \<Longrightarrow> config_errors (nonblank_string e v)" "config_errors (optional_nonblank v)"
  by (cases v; auto simp: config_errors_def optional_nonblank_def result_simps)+

lemma fdb_valid: "fdb_from_dict d = Inr c \<Longrightarrow> valid_fdb c"
  by (auto simp: fdb_from_dict_def valid_fdb_def bindE_eq_Inr positive_int_Inr)

lemma kafka_valid:
  assumes "kafka_from_dict d = Inr c"
  shows "valid_kafka c"
proof -
  obtain u v w s t i where "nonblank_string ValueError u = Inr s" "nonblank_string ValueError v = Inr t"
    "optional_nonblank w = Inr i"
    and c: "c = \<lparr>cf_bootstrap_servers = s, cf_topic = t, cf_transactional_id = i\<rparr>"
    using assms unfolding kafka_from_dict_def bindE_eq_Inr by blast
  then have "\<not> blank s" "\<not> blank t" "case i of None \<Rightarrow> True | Some t \<Rightarrow> \<not> blank t"
    by (simp_all add: nonblank_Inr optional_nonblank_Inr split: option.splits)
  then show ?thesis
    by (simp add: valid_kafka_def c)
qed

lemma pipeline_valid: "pipeline_from_dict d = Inr c \<Longrightarrow> valid_pipeline c"
  by (auto simp: pipeline_from_dict_def valid_pipeline_def valid_seconds_def bindE_eq_Inr positive_seconds_Inr
      to_double_Inr)

lemma cdc_valid: "cdc_from_dict d = Inr c \<Longrightarrow> valid_cdc c"
  by (auto simp: cdc_from_dict_def valid_cdc_def bindE_eq_Inr nonblank_Inr positive_int_Inr ensure_Inr not_le)

section \<open>A configuration\<close>

definition config_data :: "pystr \<Rightarrow> pyval \<Rightarrow> pyval" where
  "config_data name backoff = PDict
     [(PStr (ascii ''cdc''), PDict [(PStr (ascii ''stream_name''), PStr name)]),
      (PStr (ascii ''pipeline''), PDict [(PStr (ascii ''backoff_base_seconds''), backoff)])]"

definition default_config :: "pystr \<Rightarrow> pyfloat \<Rightarrow> bridge_config" where
  "default_config name backoff =
    \<lparr>cf_fdb = \<lparr>cf_api_version = 800, cf_cluster_file = None\<rparr>,
     cf_cdc = \<lparr>cf_stream_name = name, cf_begin_key = [], cf_end_key = [], cf_max_record_bytes = 1000000,
       cf_cursor_file = None\<rparr>,
     cf_kafka = \<lparr>cf_bootstrap_servers = ascii ''localhost:9092'', cf_topic = ascii ''fdb-cdc'',
       cf_transactional_id = None\<rparr>,
     cf_pipeline = \<lparr>cf_flush_timeout_seconds = Finite 10, cf_backoff_base_seconds = backoff,
       cf_backoff_max_seconds = Finite 2, cf_shutdown_timeout_seconds = Finite 15\<rparr>\<rparr>"

lemmas config_run = from_dict_def fdb_from_dict_def cdc_from_dict_def kafka_from_dict_def
  pipeline_from_dict_def reject_unknown_keys_def get_default_def py_get_def ascii_def positive_int_def
  optional_nonblank_def py_zero_def blank_def is_space_def

lemma config_data_run:
  "\<not> blank name \<Longrightarrow> from_dict (config_data name backoff) =
     bindE (positive_seconds backoff) (\<lambda>x. bindE (to_double x) (\<lambda>x. Inr (default_config name x)))"
  by (cases "positive_seconds backoff"; cases "to_double (projr (positive_seconds backoff))")
    (simp_all add: config_data_def default_config_def config_run positive_seconds_def [of "PFloat _"])

lemma x_not_blank: "\<not> blank [120]"
  by (simp add: blank_def is_space_def)

section \<open>Sections and intervals\<close>

text \<open>The dictionary of the section \<open>pipeline\<close>, and the intervals in it with their fields.\<close>

definition pipeline_section :: "(pyval \<times> pyval) list \<Rightarrow> (pyval \<times> pyval) list" where
  "pipeline_section d = (case get_default d ''pipeline'' PNone of PDict p \<Rightarrow> p | _ \<Rightarrow> [])"

definition interval_settings ::
  "(string \<times> (pipeline_config \<Rightarrow> pyfloat) \<times> (pyfloat \<Rightarrow> pipeline_config \<Rightarrow> pipeline_config)) list" where
  "interval_settings =
     [(''flush_timeout_seconds'', cf_flush_timeout_seconds, \<lambda>x p. p\<lparr>cf_flush_timeout_seconds := x\<rparr>),
      (''backoff_base_seconds'', cf_backoff_base_seconds, \<lambda>x p. p\<lparr>cf_backoff_base_seconds := x\<rparr>),
      (''backoff_max_seconds'', cf_backoff_max_seconds, \<lambda>x p. p\<lparr>cf_backoff_max_seconds := x\<rparr>),
      (''shutdown_timeout_seconds'', cf_shutdown_timeout_seconds, \<lambda>x p. p\<lparr>cf_shutdown_timeout_seconds := x\<rparr>)]"

definition with_interval :: "string \<Rightarrow> pyval \<Rightarrow> (pyval \<times> pyval) list \<Rightarrow> (pyval \<times> pyval) list" where
  "with_interval k v d = AList.update (PStr (ascii ''pipeline''))
     (PDict (AList.update (PStr (ascii k)) v (pipeline_section d))) d"

lemma ascii_inj [simp]: "ascii s = ascii t \<longleftrightarrow> s = t"
proof -
  have "inj (of_char :: char \<Rightarrow> nat)"
    by (rule injI) simp
  then show ?thesis
    by (simp add: ascii_def inj_map_eq_map)
qed

lemma get_default_update:
  "get_default (AList.update (PStr (ascii k)) v d) j x = (if j = k then v else get_default d j x)"
  by (simp add: get_default_def py_get_def AList.update_conv')

lemma known_keys_update:
  "known_keys d names \<Longrightarrow> k \<in> set names \<Longrightarrow> known_keys (AList.update (PStr (ascii k)) v d) names"
  by (auto simp: known_keys_def AList.dom_update)

lemma interval_names:
  "(k, f, g) \<in> set interval_settings \<Longrightarrow> k \<in> set [''flush_timeout_seconds'', ''backoff_base_seconds'',
     ''backoff_max_seconds'', ''shutdown_timeout_seconds'']"
  by (auto simp: interval_settings_def)

text \<open>The sections of an accepted dictionary, and what another \<open>pipeline\<close> section changes.\<close>

definition sections :: "(string \<times> string list) list" where
  "sections = [(''fdb'', [''api_version'', ''cluster_file'']),
     (''cdc'', [''stream_name'', ''begin_key'', ''end_key'', ''max_record_bytes'', ''cursor_file'']),
     (''kafka'', [''bootstrap_servers'', ''topic'', ''transactional_id'']),
     (''pipeline'', [''flush_timeout_seconds'', ''backoff_base_seconds'', ''backoff_max_seconds'',
       ''shutdown_timeout_seconds''])]"

definition known_sections :: "(pyval \<times> pyval) list \<Rightarrow> bool" where
  "known_sections d \<longleftrightarrow> known_keys d (map fst sections) \<and>
     (\<forall>(name, keys) \<in> set sections. \<exists>s. require_dict (get_default d name PNone) = Inr s \<and> known_keys s keys)"

lemma require_dict_section: "require_dict (get_default d ''pipeline'' PNone) = Inr s \<Longrightarrow> s = pipeline_section d"
  by (auto simp: pipeline_section_def elim: require_dict.elims)

lemma from_dict_parts:
  assumes "from_dict (PDict d) = Inr c"
  shows "known_sections d" "valid_fdb (cf_fdb c)" "valid_cdc (cf_cdc c)" "valid_kafka (cf_kafka c)"
    "pipeline_from_dict (pipeline_section d) = Inr (cf_pipeline c)"
    "k \<in> set (snd (last sections)) \<Longrightarrow> from_dict (PDict (with_interval k v d)) =
       bindE (pipeline_from_dict (AList.update (PStr (ascii k)) v (pipeline_section d))) (\<lambda>p. Inr (c\<lparr>cf_pipeline := p\<rparr>))"
proof -
  obtain u1 d1 d2 d3 d4 f a ka p where parts:
    "reject_unknown_keys d [''fdb'', ''cdc'', ''kafka'', ''pipeline''] = Inr u1"
    "require_dict (get_default d ''fdb'' PNone) = Inr d1" "require_dict (get_default d ''cdc'' PNone) = Inr d2"
    "require_dict (get_default d ''kafka'' PNone) = Inr d3" "require_dict (get_default d ''pipeline'' PNone) = Inr d4"
    "known_keys d1 [''api_version'', ''cluster_file'']"
    "known_keys d2 [''stream_name'', ''begin_key'', ''end_key'', ''max_record_bytes'', ''cursor_file'']"
    "known_keys d3 [''bootstrap_servers'', ''topic'', ''transactional_id'']"
    "known_keys d4 [''flush_timeout_seconds'', ''backoff_base_seconds'', ''backoff_max_seconds'', ''shutdown_timeout_seconds'']"
    "fdb_from_dict d1 = Inr f" "cdc_from_dict d2 = Inr a" "kafka_from_dict d3 = Inr ka" "pipeline_from_dict d4 = Inr p"
    "c = \<lparr>cf_fdb = f, cf_cdc = a, cf_kafka = ka, cf_pipeline = p\<rparr>"
    using assms unfolding from_dict_def pyval.case bindE_eq_Inr reject_unknown_keys_Inr by (auto simp: reject_unknown_keys_Inr)
  have d4: "d4 = pipeline_section d"
    using parts(5) by (rule require_dict_section)
  have known: "known_keys d [''fdb'', ''cdc'', ''kafka'', ''pipeline'']"
    using parts(1) by (simp add: reject_unknown_keys_Inr)
  with parts show "known_sections d"
    by (auto simp: known_sections_def sections_def)
  show "valid_fdb (cf_fdb c)" "valid_cdc (cf_cdc c)" "valid_kafka (cf_kafka c)"
    "pipeline_from_dict (pipeline_section d) = Inr (cf_pipeline c)"
    using parts d4 fdb_valid cdc_valid kafka_valid by simp_all
  assume k: "k \<in> set (snd (last sections))"
  let ?s = "AList.update (PStr (ascii k)) v (pipeline_section d)"
  have accepted: "reject_unknown_keys x names = Inr ()" if "known_keys x names" for x names
    using that by (simp add: reject_unknown_keys_Inr)
  have "known_keys ?s [''flush_timeout_seconds'', ''backoff_base_seconds'', ''backoff_max_seconds'', ''shutdown_timeout_seconds'']"
    using k parts(9) d4 by (intro known_keys_update) (simp_all add: sections_def)
  moreover have "known_keys (with_interval k v d) [''fdb'', ''cdc'', ''kafka'', ''pipeline'']"
    unfolding with_interval_def using known by (rule known_keys_update) simp
  ultimately show "from_dict (PDict (with_interval k v d)) =
      bindE (pipeline_from_dict ?s) (\<lambda>p. Inr (c\<lparr>cf_pipeline := p\<rparr>))"
    using parts(2-4,6-12,14)
    by (simp add: from_dict_def accepted with_interval_def [of k v d] get_default_update)
qed

text \<open>Each interval is the number given for it, or the default, which is positive.\<close>

lemma interval_given:
  assumes "pipeline_from_dict s = Inr p" "(k, f, g) \<in> set interval_settings"
  shows "not_rejected (f p)" "\<not> positive_interval (f p) \<Longrightarrow> py_get s k = Some (PFloat (f p))"
proof -
  obtain n where n: "0 < n" "py_float (get_default s k (PFloat (Finite n))) = Some (f p)" "not_rejected (f p)"
  proof -
    have "\<exists>n>0. py_float (get_default s k (PFloat (Finite n))) = Some (f p) \<and> not_rejected (f p)"
      using assms
      by (auto simp: interval_settings_def pipeline_from_dict_def bindE_eq_Inr positive_seconds_Inr to_double_Inr
          intro: exI [of _ 10] exI [of _ "1 / 10"] exI [of _ 2] exI [of _ 15])
    then show ?thesis
      using that by blast
  qed
  show "not_rejected (f p)"
    by (rule n(3))
  assume "\<not> positive_interval (f p)"
  then have "f p = PosInf \<or> f p = NaN"
    using n(3) by (simp add: not_rejected_iff)
  with n(1,2) show "py_get s k = Some (PFloat (f p))"
    by (cases "py_get s k"; auto simp: get_default_def elim!: py_float.elims)
qed

text \<open>Another value for one interval goes through the same checks and changes nothing else.\<close>

lemma interval_replaced:
  assumes "pipeline_from_dict s = Inr p" "(k, f, g) \<in> set interval_settings" "py_float v = Some x" "not_rejected x"
  shows "pipeline_from_dict (AList.update (PStr (ascii k)) v s) = bindE (to_double x) (\<lambda>x. Inr (g x p))"
proof -
  have v: "positive_seconds v = Inr x"
    using assms(3,4) by (simp add: positive_seconds_Inr)
  obtain a b c d where given: "positive_seconds (get_default s ''flush_timeout_seconds'' (PFloat (Finite 10))) = Inr a"
    "positive_seconds (get_default s ''backoff_base_seconds'' (PFloat (Finite (1 / 10)))) = Inr b"
    "positive_seconds (get_default s ''backoff_max_seconds'' (PFloat (Finite 2))) = Inr c"
    "positive_seconds (get_default s ''shutdown_timeout_seconds'' (PFloat (Finite 15))) = Inr d"
    "to_double a = Inr a" "to_double b = Inr b" "to_double c = Inr c" "to_double d = Inr d"
    "p = \<lparr>cf_flush_timeout_seconds = a, cf_backoff_base_seconds = b, cf_backoff_max_seconds = c,
       cf_shutdown_timeout_seconds = d\<rparr>"
    using assms(1) by (auto simp: pipeline_from_dict_def bindE_eq_Inr to_double_Inr)
  note run = pipeline_from_dict_def get_default_update v given
  have "\<forall>(k, f, g) \<in> set interval_settings.
      pipeline_from_dict (AList.update (PStr (ascii k)) v s) = bindE (to_double x) (\<lambda>x. Inr (g x p))"
    unfolding interval_settings_def by (simp add: run)
  with assms(2) show ?thesis
    by blast
qed

lemma double_overflow: "2 ^ 1024 \<le> n \<Longrightarrow> to_double (Finite (of_int n)) = Inl OverflowError"
proof -
  assume n: "2 ^ 1024 \<le> n"
  then have "2 ^ 1024 - 2 ^ 970 \<le> n"
    by simp
  then have "double_limit \<le> of_int n"
    unfolding double_limit_def by (simp only: of_int_le_iff)
  then show ?thesis
    by (simp add: to_double.simps)
qed

lemma from_dict_valid:
  assumes "from_dict data = Inr c"
  shows "valid_config c"
proof -
  obtain d where "data = PDict d"
    using assms by (auto simp: from_dict_def split: pyval.splits)
  then show ?thesis
    using from_dict_parts(2-5) [of d c] assms pipeline_valid by (simp add: valid_config_def)
qed

section \<open>Properties\<close>

text \<open>C29: An accepted configuration is in the documented domain, up to one gap. It has no unknown section and no
  unknown key in a section; a stream name, topic, server list and transactional id that are not blank; a
  key range given by both ends in order or by neither; positive sizes and versions. Every interval is a
  positive number, unless the dictionary gives it as a float that is not a number or infinite, which is
  then taken over as it is.\<close>

theorem config_is_valid:
  assumes "from_dict data = Inr c"
  shows "\<exists>d. data = PDict d \<and> known_sections d \<and> valid_fdb (cf_fdb c) \<and> valid_cdc (cf_cdc c) \<and> valid_kafka (cf_kafka c) \<and>
    (\<forall>(k, field, _) \<in> set interval_settings.
       positive_interval (field (cf_pipeline c)) \<or>
       field (cf_pipeline c) \<in> {NaN, PosInf} \<and>
         py_get (pipeline_section d) k = Some (PFloat (field (cf_pipeline c))))"
proof -
  obtain d where d: "data = PDict d"
    using assms by (auto simp: from_dict_def split: pyval.splits)
  note parts = from_dict_parts [OF assms [unfolded d]]
  have "positive_interval (field (cf_pipeline c)) \<or> field (cf_pipeline c) \<in> {NaN, PosInf} \<and>
      py_get (pipeline_section d) k = Some (PFloat (field (cf_pipeline c)))"
    if "(k, field, set_field) \<in> set interval_settings" for k field set_field
    using interval_given [OF parts(5) that] by (auto simp: not_rejected_iff)
  then show ?thesis
    using d parts(1-4) by blast
qed

theorem config_is_valid_witness:
  "valid_cdc (cf_cdc (default_config [120] (Finite 1))) \<and> positive_interval (Finite 1)"
proof -
  have "from_dict (config_data [120] (PInt 1)) = Inr (default_config [120] (Finite 1))"
    using config_data_run [OF x_not_blank] by (simp add: positive_seconds_def py_zero_def)
  from config_is_valid [OF this] show ?thesis
    by (auto simp: interval_settings_def default_config_def)
qed

text \<open>\<open>from_dict\<close> raises nothing but \<open>TypeError\<close> and \<open>ValueError\<close>, on any value, and \<open>OverflowError\<close> for
  an interval given as an integer that is too large for a double.\<close>

theorem config_error_types:
  assumes "from_dict data = Inl e"
  shows "e = TypeError \<or> e = ValueError \<or> e = OverflowError"
proof -
  have "config_errors (fdb_from_dict d)" "config_errors (cdc_from_dict d)" "config_errors (kafka_from_dict d)"
    "config_errors (pipeline_from_dict d)" for d
    by (auto simp: fdb_from_dict_def cdc_from_dict_def kafka_from_dict_def pipeline_from_dict_def
        intro!: config_errors_bindE)
  then have "config_errors (from_dict data)"
    by (cases data) (auto simp: from_dict_def config_errors_def [of "Inl TypeError"] intro!: config_errors_bindE)
  with assms show ?thesis
    by (simp add: config_errors_def)
qed

theorem config_error_types_witness:
  "\<exists>e. from_dict (config_data [120] (PInt 0)) = Inl e \<and> (e = TypeError \<or> e = ValueError \<or> e = OverflowError)"
proof -
  have "from_dict (config_data [120] (PInt 0)) = Inl ValueError"
    using config_data_run [OF x_not_blank] by (simp add: positive_seconds_def py_zero_def)
  with config_error_types [OF this] show ?thesis
    by auto
qed

text \<open>A dictionary that names the stream and the base backoff gives the documented defaults for all
  other settings.\<close>

theorem config_defaults:
  assumes "\<not> blank name" "py_float backoff = Some x" "\<not> py_le x py_zero" "to_double x = Inr x"
  shows "from_dict (config_data name backoff) = Inr (default_config name x)"
  using assms by (simp add: config_data_run positive_seconds_def)

theorem config_defaults_witness:
  "from_dict (config_data [120] (PInt 1)) = Inr (default_config [120] (Finite 1))"
  by (rule config_defaults [OF x_not_blank]) (simp_all add: py_zero_def del: to_double.simps)

text \<open>C40: Two gaps in the check for positive intervals, in every accepted configuration and for each of its four
  intervals. Given as a float that is not a number, or as infinity, the interval passes, because
  \<open>nan <= 0\<close> and \<open>inf <= 0\<close> are false, and ends up in the configuration. Given as an integer that is too
  large for a double it passes the check too, and then \<open>OverflowError\<close> is raised. The documentation of
  \<open>from_dict\<close> promises \<open>ValueError\<close> for intervals that are not positive numbers, and names no other
  exceptions than \<open>TypeError\<close> and \<open>ValueError\<close>.\<close>

theorem interval_check_gaps:
  assumes "from_dict (PDict d) = Inr c" "(k, field, set_field) \<in> set interval_settings"
  shows "(\<forall>x \<in> {NaN, PosInf}. from_dict (PDict (with_interval k (PFloat x) d)) =
      Inr (c\<lparr>cf_pipeline := set_field x (cf_pipeline c)\<rparr>)) \<and>
    (\<forall>n. 2 ^ 1024 \<le> n \<longrightarrow> from_dict (PDict (with_interval k (PInt n) d)) = Inl OverflowError)"
proof -
  have "k \<in> set (snd (last sections))"
    using interval_names [OF assms(2)] by (simp add: sections_def)
  note replaced = from_dict_parts(6) [OF assms(1) this]
  note checked = interval_replaced [OF from_dict_parts(5) [OF assms(1)] assms(2)]
  have "from_dict (PDict (with_interval k (PFloat x) d)) = Inr (c\<lparr>cf_pipeline := set_field x (cf_pipeline c)\<rparr>)"
    if "x \<in> {NaN, PosInf}" for x
    using checked [of "PFloat x" x] that by (auto simp: replaced not_rejected_def py_zero_def)
  moreover have "from_dict (PDict (with_interval k (PInt n) d)) = Inl OverflowError" if n: "2 ^ 1024 \<le> n" for n
  proof -
    have "0 < n"
      using n by (rule order.strict_trans2 [rotated]) simp
    then have "not_rejected (Finite (of_int n))"
      by (simp add: not_rejected_def py_zero_def)
    with checked [of "PInt n" "Finite (of_int n)"] double_overflow [OF n] show ?thesis
      by (simp add: replaced)
  qed
  ultimately show ?thesis
    by blast
qed

theorem interval_check_gaps_witness:
  "from_dict (PDict (with_interval ''shutdown_timeout_seconds'' (PFloat NaN)
     [(PStr (ascii ''cdc''), PDict [(PStr (ascii ''stream_name''), PStr [120])]),
      (PStr (ascii ''pipeline''), PDict [(PStr (ascii ''backoff_base_seconds''), PInt 1)])])) =
   Inr ((default_config [120] (Finite 1))\<lparr>cf_pipeline :=
     (cf_pipeline (default_config [120] (Finite 1)))\<lparr>cf_shutdown_timeout_seconds := NaN\<rparr>\<rparr>)"
proof -
  have "from_dict (config_data [120] (PInt 1)) = Inr (default_config [120] (Finite 1))"
    using config_data_run [OF x_not_blank] by (simp add: positive_seconds_def py_zero_def)
  note accepted = this [unfolded config_data_def]
  have "(''shutdown_timeout_seconds'', cf_shutdown_timeout_seconds, \<lambda>x p. p\<lparr>cf_shutdown_timeout_seconds := x\<rparr>)
      \<in> set interval_settings"
    by (simp add: interval_settings_def)
  from interval_check_gaps [OF accepted this] show ?thesis
    by blast
qed

end
