(* ===== verification/Pipeline.thy ===== *)
theory Pipeline
  imports Kafka_Producer Utf8
begin

text \<open>
  \<open>BridgePipeline\<close> of \<open>bridge/pipeline.py\<close>: one step polls a CDC reply, publishes it to Kafka,
  checkpoints the cursor and acknowledges the reply, or finishes a delivery already in progress.
  The listener, the producer and the checkpoint callback are a record of operations on a state
  \<open>'s\<close> (\<open>ports\<close>); \<open>Bridge_Core\<close> builds it from the models of the two objects. A method works on the
  pipeline's own fields and that state.
\<close>

section \<open>What the pipeline calls\<close>

record 's ports =
  pt_poll_records :: "('s, pb_record list) eff"
  pt_get_position :: "('s, pyval) eff"
  pt_acknowledge :: "('s, unit) eff"
  pt_checkpoint :: "pyval \<Rightarrow> ('s, unit) eff"
  pt_transactional :: "'s \<Rightarrow> bool"
  pt_begin_transaction :: "('s, unit) eff"
  pt_produce :: "pystr \<Rightarrow> pb_record \<Rightarrow> bytes \<Rightarrow> ('s, unit) eff"
  pt_commit_transaction :: "('s, unit) eff"
  pt_abort_transaction :: "('s, unit) eff"
  pt_flush_or_raise :: "pyfloat \<Rightarrow> ('s, unit) eff"
  pt_close :: "('s, unit) eff"
  pt_mark_fatal :: "('s, unit) eff"
  pt_sleep :: "pyfloat \<Rightarrow> ('s, unit) eff"

section \<open>Kafka errors\<close>

text \<open>\<open>_kafka_error\<close>: the error object, if at least one of the three flags can be asked for.\<close>

fun kafka_error_of :: "exn \<Rightarrow> kafka_error option" where
  "kafka_error_of (KafkaException (Some error)) =
     (if ke_fatal error \<noteq> None \<or> ke_retriable error \<noteq> None \<or> ke_txn_requires_abort error \<noteq> None
      then Some error else None)"
| "kafka_error_of _ = None"

definition flag :: "bool option \<Rightarrow> bool" where
  "flag result \<longleftrightarrow> result = Some True"

section \<open>The object\<close>

fun require_retries :: "pyval \<Rightarrow> exn + nat" where
  "require_retries (PInt n) = (if n < 1 then Inl ValueError else Inr (nat n))"
| "require_retries _ = Inl ValueError"

definition require_delay :: "pyval \<Rightarrow> exn + pyfloat" where
  "require_delay v =
     (case py_float v of
        None \<Rightarrow> Inl TypeError
      | Some x \<Rightarrow> if py_less x py_zero then Inl ValueError else Inr x)"

text \<open>
  \<open>raw\<close> and \<open>name\<close> are the listener's attributes \<open>raw_stream_name\<close> and \<open>stream_name\<close>, \<open>None\<close> if it
  has no such attribute.
\<close>

definition resolve_partition_key :: "pyval option \<Rightarrow> pyval option \<Rightarrow> pyval \<Rightarrow> exn + bytes" where
  "resolve_partition_key raw name partition_key =
     bindE (case partition_key of
         PNone \<Rightarrow>
           (case raw of
              Some (PBytes (b # bs)) \<Rightarrow> Inr (b # bs)
            | Some (PByteArray (b # bs)) \<Rightarrow> Inr (b # bs)
            | _ \<Rightarrow>
              (case name of
                 Some (PStr s) \<Rightarrow>
                   (case utf8_encode s of None \<Rightarrow> Inl ValueError | Some bs \<Rightarrow> Inr bs)
               | _ \<Rightarrow> Inr []))
       | PBytes bs \<Rightarrow> Inr bs
       | PByteArray bs \<Rightarrow> Inr bs
       | _ \<Rightarrow> Inl TypeError) (\<lambda>resolved.
     if resolved = [] then Inl ValueError else Inr resolved)"

record pipeline =
  bp_topic :: pystr
  bp_partition_key :: bytes
  bp_ack_retries :: nat
  bp_ack_retry_delay_seconds :: pyfloat
  bp_commit_retries :: nat
  bp_commit_retry_delay_seconds :: pyfloat
  bp_flush_timeout_seconds :: pyfloat
  bp_pending_count :: nat
  bp_delivered_unacked :: bool
  bp_checkpointed :: bool
  bp_commit_outstanding :: bool

definition new_pipeline ::
  "pyval option \<Rightarrow> pyval option \<Rightarrow> pystr \<Rightarrow> pyval \<Rightarrow> pyval \<Rightarrow> pyval \<Rightarrow> pyval \<Rightarrow> pyval \<Rightarrow> pyval \<Rightarrow>
     exn + pipeline" where
  "new_pipeline raw name topic partition_key ack_retries ack_retry_delay_seconds commit_retries
       commit_retry_delay_seconds flush_timeout_seconds =
     bindE (require_retries ack_retries) (\<lambda>acks.
     bindE (require_retries commit_retries) (\<lambda>commits.
     bindE (require_delay ack_retry_delay_seconds) (\<lambda>ack_delay.
     bindE (require_delay commit_retry_delay_seconds) (\<lambda>commit_delay.
     bindE (require_delay flush_timeout_seconds) (\<lambda>flush_timeout.
     bindE (if py_le flush_timeout py_zero then Inl ValueError else Inr ()) (\<lambda>_.
     bindE (resolve_partition_key raw name partition_key) (\<lambda>key.
     bindE (to_double ack_delay) (\<lambda>ack_delay.
     bindE (to_double commit_delay) (\<lambda>commit_delay.
     bindE (to_double flush_timeout) (\<lambda>flush_timeout.
     Inr \<lparr>bp_topic = topic, bp_partition_key = key, bp_ack_retries = acks,
          bp_ack_retry_delay_seconds = ack_delay, bp_commit_retries = commits,
          bp_commit_retry_delay_seconds = commit_delay, bp_flush_timeout_seconds = flush_timeout,
          bp_pending_count = 0, bp_delivered_unacked = False, bp_checkpointed = False,
          bp_commit_outstanding = False\<rparr>))))))))))"

definition DEFAULT_ACK_RETRIES :: pyval where
  "DEFAULT_ACK_RETRIES = PInt 3"

definition DEFAULT_ACK_RETRY_DELAY_SECONDS :: pyval where
  "DEFAULT_ACK_RETRY_DELAY_SECONDS = PFloat (Finite (1 / 5))"

definition DEFAULT_COMMIT_RETRIES :: pyval where
  "DEFAULT_COMMIT_RETRIES = PInt 3"

definition DEFAULT_COMMIT_RETRY_DELAY_SECONDS :: pyval where
  "DEFAULT_COMMIT_RETRY_DELAY_SECONDS = PFloat (Finite (1 / 5))"

section \<open>Publishing\<close>

definition produce_all :: "'s ports \<Rightarrow> pb_record list \<Rightarrow> (pipeline \<times> 's, unit) eff" where
  "produce_all pt records =
     bnd (self_gets id) (\<lambda>self.
     for_each (\<lambda>record. outside (pt_produce pt (bp_topic self) record (bp_partition_key self))) records)"

fun publish_failure :: "exn \<Rightarrow> bool" where
  "publish_failure exc \<longleftrightarrow>
     is_KafkaException exc \<or> exc = BufferError \<or> exc = TimeoutError \<or> is_RuntimeError exc"

definition produce_and_flush :: "'s ports \<Rightarrow> pb_record list \<Rightarrow> (pipeline \<times> 's, unit) eff" where
  "produce_and_flush pt records =
     thn (catch
            (thn (produce_all pt records)
              (bnd (self_gets bp_flush_timeout_seconds) (\<lambda>timeout.
               outside (pt_flush_or_raise pt timeout))))
            publish_failure
            (\<lambda>exc. thn (outside (pt_close pt)) (raise exc)))
         (self_modify (\<lambda>p. p\<lparr>bp_delivered_unacked := True\<rparr>))"

text \<open>
  A failed abort raises its own exception, a successful one the given exception; a fatal
  error is raised again without an abort.
\<close>

definition abort_and_raise :: "'s ports \<Rightarrow> exn \<Rightarrow> (pipeline \<times> 's, 'a) eff" where
  "abort_and_raise pt exc =
     (if is_fatal_kafka_error exc then thn (outside (pt_mark_fatal pt)) (raise exc)
      else thn (outside (pt_abort_transaction pt)) (raise exc))"

definition begin_and_produce :: "'s ports \<Rightarrow> pb_record list \<Rightarrow> (pipeline \<times> 's, unit) eff" where
  "begin_and_produce pt records =
     thn (outside (pt_begin_transaction pt))
     (thn (catch (produce_all pt records)
             (\<lambda>exc. is_KafkaException exc \<or> exc = BufferError)
             (abort_and_raise pt))
          (self_modify (\<lambda>p. p\<lparr>bp_commit_outstanding := True\<rparr>)))"

section \<open>Committing\<close>

text \<open>
  \<open>left\<close> is the number of attempts not yet made; \<open>last_exc\<close> that of the last one made. The
  clauses of the \<open>try\<close> are tested in the order of the source.
\<close>

fun commit_attempts :: "'s ports \<Rightarrow> nat \<Rightarrow> exn option \<Rightarrow> (pipeline \<times> 's, unit) eff" where
  "commit_attempts pt 0 last_exc =
     (case last_exc of None \<Rightarrow> raise AssertionError | Some exc \<Rightarrow> raise exc)"
| "commit_attempts pt (Suc left) last_exc =
     bnd (trying (outside (pt_commit_transaction pt))) (\<lambda>r. case r of
       Inr _ \<Rightarrow> ret ()
     | Inl exc \<Rightarrow>
         if is_RuntimeError exc then
           thn (self_modify (\<lambda>p. p\<lparr>bp_commit_outstanding := False\<rparr>)) (raise exc)
         else if \<not> is_KafkaException exc then raise exc
         else if is_fatal_kafka_error exc then
           thn (self_modify (\<lambda>p. p\<lparr>bp_commit_outstanding := False\<rparr>))
           (thn (outside (pt_mark_fatal pt)) (raise exc))
         else if (case kafka_error_of exc of
                    None \<Rightarrow> True
                  | Some error \<Rightarrow>
                      flag (ke_txn_requires_abort error) \<or> \<not> flag (ke_retriable error)) then
           thn (self_modify (\<lambda>p. p\<lparr>bp_commit_outstanding := False\<rparr>)) (abort_and_raise pt exc)
         else
           bnd (self_gets bp_commit_retry_delay_seconds) (\<lambda>delay.
           thn (if 0 < left \<and> py_less py_zero delay then outside (pt_sleep pt delay) else ret ())
             (commit_attempts pt left (Some exc))))"

definition commit_with_retry :: "'s ports \<Rightarrow> (pipeline \<times> 's, unit) eff" where
  "commit_with_retry pt =
     bnd (self_gets bp_commit_retries) (\<lambda>retries. commit_attempts pt retries None)"

section \<open>Checkpoint and acknowledgement\<close>

fun acknowledge_attempts :: "'s ports \<Rightarrow> nat \<Rightarrow> exn option \<Rightarrow> (pipeline \<times> 's, unit) eff" where
  "acknowledge_attempts pt 0 last_exc =
     (case last_exc of None \<Rightarrow> raise AssertionError | Some exc \<Rightarrow> raise exc)"
| "acknowledge_attempts pt (Suc left) last_exc =
     bnd (trying (outside (pt_acknowledge pt))) (\<lambda>r. case r of
       Inr _ \<Rightarrow> ret ()
     | Inl exc \<Rightarrow>
         if \<not> is_CDCRetryableError exc then raise exc
         else
           bnd (self_gets bp_ack_retry_delay_seconds) (\<lambda>delay.
           thn (if 0 < left \<and> py_less py_zero delay then outside (pt_sleep pt delay) else ret ())
             (acknowledge_attempts pt left (Some exc))))"

definition acknowledge_with_retry :: "'s ports \<Rightarrow> (pipeline \<times> 's, unit) eff" where
  "acknowledge_with_retry pt =
     bnd (self_gets bp_ack_retries) (\<lambda>retries. acknowledge_attempts pt retries None)"

definition checkpoint_and_acknowledge :: "'s ports \<Rightarrow> (pipeline \<times> 's, unit) eff" where
  "checkpoint_and_acknowledge pt =
     bnd (self_gets bp_checkpointed) (\<lambda>checkpointed.
     thn (if \<not> checkpointed then
            bnd (outside (pt_get_position pt)) (\<lambda>cursor.
            thn (outside (pt_checkpoint pt cursor))
                (self_modify (\<lambda>p. p\<lparr>bp_checkpointed := True\<rparr>)))
          else ret ())
     (thn (acknowledge_with_retry pt)
          (self_modify (\<lambda>p. p\<lparr>bp_checkpointed := False\<rparr>))))"

section \<open>One step\<close>

definition finish_delivery :: "'s ports \<Rightarrow> (pipeline \<times> 's, nat) eff" where
  "finish_delivery pt =
     bnd (self_gets bp_commit_outstanding) (\<lambda>outstanding.
     thn (if outstanding then
            thn (commit_with_retry pt)
                (self_modify (\<lambda>p. p\<lparr>bp_commit_outstanding := False, bp_delivered_unacked := True\<rparr>))
          else ret ())
     (thn (checkpoint_and_acknowledge pt)
     (thn (self_modify (\<lambda>p. p\<lparr>bp_delivered_unacked := False\<rparr>))
          (self_gets bp_pending_count))))"

definition pipeline_step :: "'s ports \<Rightarrow> (pipeline \<times> 's, nat) eff" where
  "pipeline_step pt =
     bnd (self_gets id) (\<lambda>self.
     if bp_commit_outstanding self \<or> bp_delivered_unacked self then finish_delivery pt
     else
       bnd (outside (pt_poll_records pt)) (\<lambda>records.
       if records = [] then ret 0
       else
         bnd (gets (\<lambda>s. pt_transactional pt (snd s))) (\<lambda>transactional.
         thn (if transactional then begin_and_produce pt records else produce_and_flush pt records)
         (thn (self_modify (\<lambda>p. p\<lparr>bp_pending_count := length records\<rparr>))
              (finish_delivery pt)))))"

end
