(* ===== verification/Pipeline_Protocol.thy ===== *)
theory Pipeline_Protocol
  imports Pipeline
begin

text \<open>
  What \<open>BridgePipeline\<close> promises: the order of its successful calls is that of an abstract life
  cycle of one reply (\<open>stage\<close>, \<open>advance\<close>). The listener's side of the bargain, that it hands out no
  second reply while one is pending, is the locale \<open>reply_source\<close>; with it every sequence of steps,
  whatever the calls return or raise, follows the life cycle.
\<close>

section \<open>The calls of a run\<close>

text \<open>
  A successful call is logged with what matters of it; an abort, a close and a fatal mark are
  logged however they end, since the batch is given up with the attempt.
\<close>

datatype delivery_event =
    PollOk "pb_record list"
  | BeginOk
  | ProduceOk pystr pb_record bytes
  | FlushOk
  | CommitOk
  | GaveUp
  | PositionOk pyval
  | CheckpointOk pyval
  | AckOk

definition logged :: "(exn + 'a \<Rightarrow> delivery_event list) \<Rightarrow> ('s, 'a) eff \<Rightarrow> ('s \<times> delivery_event list, 'a) eff" where
  "logged f m = (\<lambda>(s, es). case m s of (r, t) \<Rightarrow> (r, (t, es @ f r)))"

definition on_success :: "('a \<Rightarrow> delivery_event) \<Rightarrow> exn + 'a \<Rightarrow> delivery_event list" where
  "on_success f r = (case r of Inl _ \<Rightarrow> [] | Inr x \<Rightarrow> [f x])"

definition traced :: "'s ports \<Rightarrow> ('s \<times> delivery_event list) ports" where
  "traced pt =
     \<lparr>pt_poll_records = logged (on_success PollOk) (pt_poll_records pt),
      pt_get_position = logged (on_success PositionOk) (pt_get_position pt),
      pt_acknowledge = logged (on_success (\<lambda>_. AckOk)) (pt_acknowledge pt),
      pt_checkpoint = (\<lambda>c. logged (on_success (\<lambda>_. CheckpointOk c)) (pt_checkpoint pt c)),
      pt_transactional = (\<lambda>(s, _). pt_transactional pt s),
      pt_begin_transaction = logged (on_success (\<lambda>_. BeginOk)) (pt_begin_transaction pt),
      pt_produce = (\<lambda>topic record key.
        logged (on_success (\<lambda>_. ProduceOk topic record key)) (pt_produce pt topic record key)),
      pt_commit_transaction = logged (on_success (\<lambda>_. CommitOk)) (pt_commit_transaction pt),
      pt_abort_transaction = logged (\<lambda>_. [GaveUp]) (pt_abort_transaction pt),
      pt_flush_or_raise = (\<lambda>timeout. logged (on_success (\<lambda>_. FlushOk)) (pt_flush_or_raise pt timeout)),
      pt_close = logged (\<lambda>_. [GaveUp]) (pt_close pt),
      pt_mark_fatal = logged (\<lambda>_. [GaveUp]) (pt_mark_fatal pt),
      pt_sleep = (\<lambda>delay. logged (\<lambda>_. []) (pt_sleep pt delay))\<rparr>"

text \<open>\<open>n\<close> calls of \<open>step\<close>, whatever each returns or raises, with the outcomes.\<close>

fun run_steps :: "'s ports \<Rightarrow> nat \<Rightarrow> pipeline \<times> 's \<Rightarrow> (exn + nat) list \<times> (pipeline \<times> 's)" where
  "run_steps pt 0 s = ([], s)"
| "run_steps pt (Suc n) s =
     (case pipeline_step pt s of (r, t) \<Rightarrow>
      case run_steps pt n t of (rs, u) \<Rightarrow> (r # rs, u))"

section \<open>The life cycle of a reply\<close>

text \<open>
  \<open>Publishing b todo\<close>: polled, \<open>todo\<close> not yet enqueued, inside a transaction if \<open>b\<close>. \<open>Delivered\<close>: Kafka
  has all of it. \<open>Located c\<close>: \<open>c\<close> is the position behind it. \<open>Saved\<close>: that position is
  checkpointed. \<open>Abandoned\<close>: given up undelivered, so that only a resume replays it.
\<close>

datatype stage =
    Idle
  | Publishing bool "pb_record list"
  | Delivered
  | Located pyval
  | Saved
  | Abandoned

fun advance :: "pystr \<Rightarrow> bytes \<Rightarrow> stage \<Rightarrow> delivery_event \<Rightarrow> stage option" where
  "advance topic key Idle (PollOk records) =
     Some (if records = [] then Idle else Publishing False records)"
| "advance topic key (Publishing False todo) BeginOk = Some (Publishing True todo)"
| "advance topic key (Publishing b (r # todo)) (ProduceOk topic' r' key') =
     (if topic' = topic \<and> r' = r \<and> key' = key then Some (Publishing b todo) else None)"
| "advance topic key (Publishing False []) FlushOk = Some Delivered"
| "advance topic key (Publishing True []) CommitOk = Some Delivered"
| "advance topic key (Publishing b todo) GaveUp = Some Abandoned"
| "advance topic key Abandoned GaveUp = Some Abandoned"
| "advance topic key Delivered (PositionOk c) = Some (Located c)"
| "advance topic key (Located c) (PositionOk c') = Some (Located c')"
| "advance topic key (Located c) (CheckpointOk c') = (if c' = c then Some Saved else None)"
| "advance topic key Saved AckOk = Some Idle"
| "advance topic key _ _ = None"

fun follow :: "pystr \<Rightarrow> bytes \<Rightarrow> stage \<Rightarrow> delivery_event list \<Rightarrow> stage option" where
  "follow topic key st [] = Some st"
| "follow topic key st (e # es) =
     (case advance topic key st e of None \<Rightarrow> None | Some st' \<Rightarrow> follow topic key st' es)"

lemma follow_append:
  "follow topic key st (es @ fs) =
     (case follow topic key st es of None \<Rightarrow> None | Some st' \<Rightarrow> follow topic key st' fs)"
  by (induction es arbitrary: st) (auto split: option.splits)

lemma follow_appendD:
  "follow topic key st (es @ fs) = Some st'' \<Longrightarrow>
     \<exists>st'. follow topic key st es = Some st' \<and> follow topic key st' fs = Some st''"
  by (auto simp: follow_append split: option.splits)

fun undelivered :: "stage \<Rightarrow> bool" where
  "undelivered (Publishing b todo) = True"
| "undelivered Abandoned = True"
| "undelivered _ = False"

section \<open>Rules for logged calls\<close>

lemma wp_logged [wp_simps]:
  "wp (logged f m) Q E s \<longleftrightarrow>
     wp m (\<lambda>x t. Q x (t, snd s @ f (Inr x))) (\<lambda>e t. E e (t, snd s @ f (Inl e))) (fst s)"
  by (cases "m (fst s)"; cases "fst (m (fst s))") (auto simp: wp_def logged_def case_prod_beta)

lemma on_success_simps [simp]: "on_success f (Inl e) = []" "on_success f (Inr x) = [f x]"
  by (simp_all add: on_success_def)

text \<open>A call that keeps an invariant of the state and leaves a predicate as it is.\<close>

definition keeps :: "('s \<Rightarrow> bool) \<Rightarrow> ('s \<Rightarrow> bool) \<Rightarrow> ('s, 'a) eff \<Rightarrow> bool" where
  "keeps I P m \<longleftrightarrow> (\<forall>s. I s \<longrightarrow> I (snd (m s)) \<and> P (snd (m s)) = P s)"

lemma wp_keeps:
  assumes "keeps I P m" "I s" "\<And>x t. I t \<Longrightarrow> P t = P s \<Longrightarrow> Q x t" "\<And>e t. I t \<Longrightarrow> P t = P s \<Longrightarrow> E e t"
  shows "wp m Q E s"
  by (rule wp_I) (use assms in \<open>auto simp: keeps_def dest: spec [of _ s]\<close>)

lemma keepsI:
  assumes "\<And>s. I s \<Longrightarrow> wp m (\<lambda>_ t. I t \<and> P t = P s) (\<lambda>_ t. I t \<and> P t = P s) s"
  shows "keeps I P m"
  unfolding keeps_def
proof (intro allI impI)
  fix s
  assume "I s"
  with assms [of s] show "I (snd (m s)) \<and> P (snd (m s)) = P s"
    by (auto simp: wp_def split: prod.splits sum.splits)
qed

section \<open>Logging changes nothing\<close>

definition strip :: "'o \<times> 's \<times> 'e \<Rightarrow> 'o \<times> 's" where
  "strip s = (fst s, fst (snd s))"

definition erases :: "('o \<times> 's \<times> 'e, 'a) eff \<Rightarrow> ('o \<times> 's, 'a) eff \<Rightarrow> bool" where
  "erases m' m \<longleftrightarrow> (\<forall>s. m (strip s) = (fst (m' s), strip (snd (m' s))))"

lemma erasesD: "erases m' m \<Longrightarrow> m' s = (r, t) \<Longrightarrow> m (strip s) = (r, strip t)"
  by (metis erases_def fst_conv snd_conv)

lemma erasesI: "(\<And>s r t. m' s = (r, t) \<Longrightarrow> m (strip s) = (r, strip t)) \<Longrightarrow> erases m' m"
  unfolding erases_def by (metis prod.collapse)

lemma erases_ret: "erases (ret x) (ret x)"
  by (simp add: erases_def run_simps)

lemma erases_raise: "erases (raise e) (raise e)"
  by (simp add: erases_def run_simps)

lemma erases_self: "erases (self_gets f) (self_gets f)" "erases (self_modify g) (self_modify g)"
  by (simp_all add: erases_def strip_def run_simps)

lemma erases_gets: "(\<And>s. f' s = f (strip s)) \<Longrightarrow> erases (gets f') (gets f)"
  by (simp add: erases_def run_simps)

lemma erases_bnd:
  assumes "erases m' m" "\<And>x. erases (f' x) (f x)"
  shows "erases (bnd m' f') (bnd m f)"
proof (rule erasesI)
  fix s r t
  assume run: "bnd m' f' s = (r, t)"
  obtain r' t' where first: "m' s = (r', t')"
    by (metis surj_pair)
  show "bnd m f (strip s) = (r, strip t)"
    using run first erasesD [OF assms(1) first] erasesD [OF assms(2)]
    by (cases r') (simp_all add: run_simps)
qed

lemma erases_thn: "erases m' m \<Longrightarrow> erases k' k \<Longrightarrow> erases (thn m' k') (thn m k)"
  unfolding thn_def by (rule erases_bnd)

lemma erases_catch:
  assumes "erases m' m" "\<And>e. erases (h' e) (h e)"
  shows "erases (catch m' c h') (catch m c h)"
proof (rule erasesI)
  fix s r t
  assume run: "catch m' c h' s = (r, t)"
  obtain r' t' where first: "m' s = (r', t')"
    by (metis surj_pair)
  show "catch m c h (strip s) = (r, strip t)"
    using run first erasesD [OF assms(1) first] erasesD [OF assms(2)]
    by (cases r') (auto simp: run_simps split: if_splits)
qed

lemma erases_if: "erases m' m \<Longrightarrow> erases n' n \<Longrightarrow> erases (if b then m' else n') (if b then m else n)"
  by simp

lemma erases_trying: "erases m' m \<Longrightarrow> erases (trying m') (trying m)"
  by (auto simp: erases_def run_simps case_prod_beta)

lemma erases_logged: "erases (outside (logged f m)) (outside m)"
  by (auto simp: erases_def strip_def run_simps logged_def case_prod_beta)

lemma erases_for_each: "(\<And>x. erases (f' x) (f x)) \<Longrightarrow> erases (for_each f' xs) (for_each f xs)"
  by (induction xs) (auto intro: erases_ret erases_thn)

lemmas erases_intros = erases_ret erases_raise erases_self erases_bnd erases_thn erases_catch erases_if
  erases_trying erases_logged erases_for_each

lemma traced_simps [simp]:
  "pt_poll_records (traced pt) = logged (on_success PollOk) (pt_poll_records pt)"
  "pt_get_position (traced pt) = logged (on_success PositionOk) (pt_get_position pt)"
  "pt_acknowledge (traced pt) = logged (on_success (\<lambda>_. AckOk)) (pt_acknowledge pt)"
  "pt_checkpoint (traced pt) c = logged (on_success (\<lambda>_. CheckpointOk c)) (pt_checkpoint pt c)"
  "pt_transactional (traced pt) s = pt_transactional pt (fst s)"
  "pt_begin_transaction (traced pt) = logged (on_success (\<lambda>_. BeginOk)) (pt_begin_transaction pt)"
  "pt_produce (traced pt) topic record key =
     logged (on_success (\<lambda>_. ProduceOk topic record key)) (pt_produce pt topic record key)"
  "pt_commit_transaction (traced pt) = logged (on_success (\<lambda>_. CommitOk)) (pt_commit_transaction pt)"
  "pt_abort_transaction (traced pt) = logged (\<lambda>_. [GaveUp]) (pt_abort_transaction pt)"
  "pt_flush_or_raise (traced pt) timeout =
     logged (on_success (\<lambda>_. FlushOk)) (pt_flush_or_raise pt timeout)"
  "pt_close (traced pt) = logged (\<lambda>_. [GaveUp]) (pt_close pt)"
  "pt_mark_fatal (traced pt) = logged (\<lambda>_. [GaveUp]) (pt_mark_fatal pt)"
  "pt_sleep (traced pt) delay = logged (\<lambda>_. []) (pt_sleep pt delay)"
  by (simp_all add: traced_def case_prod_beta)

lemma erases_produce_all: "erases (produce_all (traced pt) records) (produce_all pt records)"
  unfolding produce_all_def by (auto intro!: erases_intros)

lemma erases_abort: "erases (abort_and_raise (traced pt) exc) (abort_and_raise pt exc)"
  unfolding abort_and_raise_def by (auto intro!: erases_intros)

lemma erases_commit_attempts:
  "erases (commit_attempts (traced pt) n last_exc) (commit_attempts pt n last_exc)"
proof (induction n arbitrary: last_exc)
  case 0
  then show ?case
    by (cases last_exc) (auto intro: erases_intros)
next
  case (Suc n)
  show ?case
    by (auto intro!: erases_intros erases_abort Suc split: sum.splits)
qed

lemma erases_acknowledge_attempts:
  "erases (acknowledge_attempts (traced pt) n last_exc) (acknowledge_attempts pt n last_exc)"
proof (induction n arbitrary: last_exc)
  case 0
  then show ?case
    by (cases last_exc) (auto intro: erases_intros)
next
  case (Suc n)
  show ?case
    by (auto intro!: erases_intros Suc split: sum.splits)
qed

lemma erases_finish: "erases (finish_delivery (traced pt)) (finish_delivery pt)"
  unfolding finish_delivery_def commit_with_retry_def checkpoint_and_acknowledge_def
    acknowledge_with_retry_def
  by (auto intro!: erases_intros erases_commit_attempts erases_acknowledge_attempts)

lemma erases_publish:
  "erases (begin_and_produce (traced pt) records) (begin_and_produce pt records)"
  "erases (produce_and_flush (traced pt) records) (produce_and_flush pt records)"
  unfolding begin_and_produce_def produce_and_flush_def
  by (auto intro!: erases_intros erases_produce_all erases_abort)

lemma erases_step: "erases (pipeline_step (traced pt)) (pipeline_step pt)"
  unfolding pipeline_step_def
  by (auto intro!: erases_intros erases_gets erases_finish erases_publish simp: strip_def)

lemma traced_run:
  "run_steps (traced pt) n s = (rs, t) \<Longrightarrow> run_steps pt n (strip s) = (rs, strip t)"
proof (induction n arbitrary: s rs)
  case (Suc n)
  obtain r u where step: "pipeline_step (traced pt) s = (r, u)"
    by (metis surj_pair)
  obtain rs' where rest: "run_steps (traced pt) n u = (rs', t)" "rs = r # rs'"
    using Suc.prems step by (auto split: prod.splits)
  show ?case
    using Suc.IH [OF rest(1)] rest(2) erasesD [OF erases_step step] by simp
qed simp

section \<open>The target of a pipeline\<close>

text \<open>Topic and partition key are set once: no method changes them.\<close>

definition target :: "pipeline \<Rightarrow> pystr \<times> bytes" where
  "target p = (bp_topic p, bp_partition_key p)"

lemma target_flags [simp]:
  "target (p\<lparr>bp_commit_outstanding := b\<rparr>) = target p" "target (p\<lparr>bp_delivered_unacked := b\<rparr>) = target p"
  "target (p\<lparr>bp_checkpointed := b\<rparr>) = target p" "target (p\<lparr>bp_pending_count := n\<rparr>) = target p"
  by (simp_all add: target_def)

definition stays :: "(pipeline \<Rightarrow> 'b) \<Rightarrow> (pipeline \<times> 's, 'a) eff \<Rightarrow> bool" where
  "stays g m \<longleftrightarrow> (\<forall>v. preserves (\<lambda>s. g (fst s) = v) m)"

lemma stays_run: "stays g m \<Longrightarrow> m s = (r, t) \<Longrightarrow> g (fst t) = g (fst s)"
proof -
  assume "stays g m" and run: "m s = (r, t)"
  then have "preserves (\<lambda>t. g (fst t) = g (fst s)) m"
    by (simp add: stays_def)
  from preservesD [OF this refl run] show ?thesis .
qed

lemma stays_intros:
  "stays g (ret x)" "stays g (raise e)" "stays g (gets f)" "stays g (self_gets h)" "stays g (outside m)"
  "(\<And>p. g (k p) = g p) \<Longrightarrow> stays g (self_modify k)"
  "stays g n \<Longrightarrow> (\<And>x. stays g (l x)) \<Longrightarrow> stays g (bnd n l)"
  "stays g n \<Longrightarrow> stays g n' \<Longrightarrow> stays g (thn n n')"
  "stays g n \<Longrightarrow> (\<And>e. stays g (i e)) \<Longrightarrow> stays g (catch n c i)"
  "stays g n \<Longrightarrow> stays g n'' \<Longrightarrow> stays g (if b then n else n'')"
  "stays g n \<Longrightarrow> stays g (trying n)"
  "(\<And>y. stays g (j y)) \<Longrightarrow> stays g (for_each j xs)"
  by (auto simp: stays_def intro!: preserves_intros)

lemma stays_abort: "stays g (abort_and_raise pt exc)"
  unfolding abort_and_raise_def by (intro stays_intros)

lemma stays_commit_attempts: "stays target (commit_attempts pt n last_exc)"
proof (induction n arbitrary: last_exc)
  case 0
  then show ?case
    by (cases last_exc) (auto intro: stays_intros)
next
  case (Suc n)
  show ?case
    by (auto intro!: stays_intros stays_abort Suc split: sum.splits)
qed

lemma stays_acknowledge_attempts: "stays g (acknowledge_attempts pt n last_exc)"
proof (induction n arbitrary: last_exc)
  case 0
  then show ?case
    by (cases last_exc) (auto intro: stays_intros)
next
  case (Suc n)
  show ?case
    by (auto intro!: stays_intros Suc split: sum.splits)
qed

lemma stays_step: "stays target (pipeline_step pt)"
  unfolding pipeline_step_def finish_delivery_def commit_with_retry_def checkpoint_and_acknowledge_def
    acknowledge_with_retry_def begin_and_produce_def produce_and_flush_def produce_all_def
  by (intro stays_intros stays_abort stays_commit_attempts stays_acknowledge_attempts)
    simp_all

lemma run_target: "run_steps pt n s = (rs, t) \<Longrightarrow> target (fst t) = target (fst s)"
proof (induction n arbitrary: s rs)
  case (Suc n)
  obtain r u where "pipeline_step pt s = (r, u)"
    by (metis surj_pair)
  with Suc stays_run [OF stays_step, of pt s r u] show ?case
    by (auto split: prod.splits)
qed simp

lemma checkpoint_stays: "stays bp_commit_outstanding (checkpoint_and_acknowledge pt)"
  unfolding checkpoint_and_acknowledge_def acknowledge_with_retry_def
  by (intro stays_intros stays_acknowledge_attempts) simp_all

lemma returned_step_is_finished:
  assumes "pipeline_step pt s = (Inr n, t)"
  shows "\<not> bp_commit_outstanding (fst t) \<and> \<not> bp_delivered_unacked (fst t)"
proof -
  let ?done = "\<lambda>_ t. \<not> bp_commit_outstanding (fst t) \<and> \<not> bp_delivered_unacked (fst t)"
  have kept: "wp (checkpoint_and_acknowledge pt)
      (\<lambda>_ t. \<not> bp_commit_outstanding (fst t)) (\<lambda>_ _. True) s" if "\<not> bp_commit_outstanding (fst s)" for s
    by (rule wp_I) (use that stays_run [OF checkpoint_stays, of pt s] in auto)
  have tail: "wp (thn (checkpoint_and_acknowledge pt)
      (thn (self_modify (\<lambda>p. p\<lparr>bp_delivered_unacked := False\<rparr>)) (self_gets bp_pending_count)))
      ?done (\<lambda>_ _. True) s" if "\<not> bp_commit_outstanding (fst s)" for s
    unfolding wp_thn by (rule wp_weaken [OF kept [OF that]]) (simp_all add: wp_simps)
  have commit: "wp (if b then thn (commit_with_retry pt)
        (self_modify (\<lambda>p. p\<lparr>bp_commit_outstanding := False, bp_delivered_unacked := True\<rparr>)) else ret ())
      (\<lambda>_ t. \<not> bp_commit_outstanding (fst t)) (\<lambda>_ _. True) s" if "b = bp_commit_outstanding (fst s)" for b s
    using that by (auto simp: wp_thn wp_self_modify_fun wp_ret intro!: wp_all)
  have finish: "wp (finish_delivery pt) ?done (\<lambda>_ _. True) s" for s
    unfolding finish_delivery_def wp_bnd wp_self_gets wp_thn [of "if _ then _ else _"]
    by (rule wp_weaken [OF commit]) (auto intro: tail)
  have "wp (pipeline_step pt) ?done (\<lambda>_ _. True) s"
    unfolding pipeline_step_def wp_bnd wp_self_gets wp_if wp_thn wp_ret wp_gets
    by (auto simp: wp_outside wp_self_modify intro!: finish wp_all)
  from wp_InrD [OF this assms] show ?thesis .
qed

section \<open>What an acknowledgement stands for\<close>

text \<open>
  \<open>published topic key rs es\<close>: the events \<open>es\<close> enqueue exactly the records \<open>rs\<close>, in order, under one
  topic and key, and nothing else happens but the start of a transaction.
\<close>

fun enqueued :: "delivery_event \<Rightarrow> (pystr \<times> pb_record \<times> bytes) list" where
  "enqueued (ProduceOk topic r key) = [(topic, r, key)]"
| "enqueued _ = []"

fun publishes :: "delivery_event \<Rightarrow> bool" where
  "publishes BeginOk = True"
| "publishes (ProduceOk topic r key) = True"
| "publishes _ = False"

definition published :: "pystr \<Rightarrow> bytes \<Rightarrow> pb_record list \<Rightarrow> delivery_event list \<Rightarrow> bool" where
  "published topic key rs es \<longleftrightarrow> list_all publishes es \<and>
     concat (map enqueued es) = map (\<lambda>r. (topic, r, key)) rs"

text \<open>The events \<open>es\<close> end with a delivered reply \<open>rs\<close>, then only positions were asked for.\<close>

definition delivers :: "pystr \<Rightarrow> bytes \<Rightarrow> delivery_event list \<Rightarrow> pyval list \<Rightarrow> bool" where
  "delivers topic key es cursors \<longleftrightarrow>
     (\<exists>earlier rs sent d.
        es = earlier @ PollOk rs # sent @ d # map PositionOk cursors \<and> rs \<noteq> [] \<and>
        published topic key rs sent \<and> (d = FlushOk \<or> d = CommitOk \<and> BeginOk \<in> set sent))"

fun history :: "pystr \<Rightarrow> bytes \<Rightarrow> stage \<Rightarrow> delivery_event list \<Rightarrow> bool" where
  "history topic key (Publishing b todo) es \<longleftrightarrow>
     (\<exists>earlier rs sent ss. es = earlier @ PollOk rs # sent \<and> rs = ss @ todo \<and> rs \<noteq> [] \<and>
        published topic key ss sent \<and> (b \<longrightarrow> BeginOk \<in> set sent))"
| "history topic key Delivered es \<longleftrightarrow> delivers topic key es []"
| "history topic key (Located c) es \<longleftrightarrow> (\<exists>cs. delivers topic key es (cs @ [c]))"
| "history topic key Saved es \<longleftrightarrow>
     (\<exists>es' cs c. es = es' @ [CheckpointOk c] \<and> delivers topic key es' (cs @ [c]))"
| "history topic key _ es \<longleftrightarrow> True"

lemma published_snoc:
  "published topic key rs es \<Longrightarrow> published topic key rs (es @ [BeginOk])"
  "published topic key rs es \<Longrightarrow> published topic key (rs @ [r]) (es @ [ProduceOk topic r key])"
  by (auto simp: published_def)

lemma delivers_position: "delivers topic key es cs \<Longrightarrow> delivers topic key (es @ [PositionOk c]) (cs @ [c])"
  unfolding delivers_def by fastforce

lemma located_history: "delivers topic key es cs \<Longrightarrow> history topic key (Located c) (es @ [PositionOk c])"
  by (auto dest: delivers_position)

lemma publishing_history:
  assumes "published topic key ss sent" "ss @ todo \<noteq> []" "b \<longrightarrow> BeginOk \<in> set sent"
    and "es = earlier @ PollOk (ss @ todo) # sent"
  shows "history topic key (Publishing b todo) es"
  unfolding history.simps using assms by blast

lemma delivered_history:
  assumes "published topic key rs sent" "rs \<noteq> []" "d = FlushOk \<or> d = CommitOk \<and> BeginOk \<in> set sent"
    and "es = earlier @ PollOk rs # sent @ [d]"
  shows "history topic key Delivered es"
proof -
  have "es = earlier @ PollOk rs # sent @ d # map PositionOk []"
    by (simp add: assms(4))
  with assms(1-3) show ?thesis
    unfolding history.simps delivers_def by blast
qed

lemma history_step:
  assumes "history topic key st es" "advance topic key st e = Some st'"
  shows "history topic key st' (es @ [e])"
proof (cases st)
  case Idle
  then obtain records where e: "e = PollOk records"
    "st' = (if records = [] then Idle else Publishing False records)"
    using assms(2) by (cases e) auto
  have "published topic key [] []"
    by (simp add: published_def)
  with publishing_history [of topic key "[]" "[]" records False _ es] e show ?thesis
    by (auto simp del: history.simps(1))
next
  case (Publishing b todo)
  from assms(1) obtain earlier ss sent where es: "es = earlier @ PollOk (ss @ todo) # sent"
    and sent: "ss @ todo \<noteq> []" "published topic key ss sent" "b \<longrightarrow> BeginOk \<in> set sent"
    by (auto simp: Publishing)
  show ?thesis
  proof (cases e)
    case BeginOk
    with assms(2) have "st' = Publishing True todo"
      by (cases b) (simp_all add: Publishing)
    with es BeginOk show ?thesis
      using publishing_history [OF published_snoc(1) [OF sent(2)] sent(1), of True _ earlier] by simp
  next
    case (ProduceOk topic' r key')
    with assms(2) obtain todo' where st': "todo = r # todo'" "topic' = topic" "key' = key"
      "st' = Publishing b todo'"
      by (cases todo) (auto simp: Publishing split: if_splits)
    with es sent(3) ProduceOk show ?thesis
      using publishing_history [OF published_snoc(2) [OF sent(2), of r], of todo' b _ earlier]
      by (simp del: history.simps)
  next
    case FlushOk
    with assms(2) have "todo = []" "st' = Delivered"
      by (cases b; cases todo; simp add: Publishing)+
    with es FlushOk sent show ?thesis
      using delivered_history [of topic key ss sent FlushOk _ earlier] by simp
  next
    case CommitOk
    with assms(2) have "todo = []" "st' = Delivered" "b"
      by (cases b; cases todo; simp add: Publishing)+
    with es CommitOk sent show ?thesis
      using delivered_history [of topic key ss sent CommitOk _ earlier] by simp
  qed (use assms(2) in \<open>cases b; cases todo; simp add: Publishing\<close>)+
next
  case Delivered
  with assms show ?thesis
    using located_history by (cases e) (auto simp del: history.simps(3))
next
  case (Located c)
  with assms show ?thesis
    using located_history by (cases e) (auto split: if_splits simp del: history.simps(3) simp: history.simps(3) [of _ _ c])
next
  case Saved
  with assms show ?thesis
    by (cases e) auto
next
  case Abandoned
  with assms show ?thesis
    by (cases e) auto
qed

lemma follow_history: "follow topic key Idle es = Some st \<Longrightarrow> history topic key st es"
proof (induction es arbitrary: st rule: rev_induct)
  case (snoc e es)
  then obtain st' where "follow topic key Idle es = Some st'" "advance topic key st' e = Some st"
    by (auto simp: follow_append split: option.splits)
  with snoc.IH history_step show ?case
    by blast
qed simp

text \<open>The events before an acknowledgement of an accepted log.\<close>

lemma acknowledged_history:
  assumes "follow topic key Idle (es @ AckOk # fs) = Some st"
  shows "\<exists>es' cs c. es = es' @ [CheckpointOk c] \<and> delivers topic key es' (cs @ [c])"
proof -
  obtain st' st'' where "follow topic key Idle es = Some st'" "advance topic key st' AckOk = Some st''"
    using assms by (auto simp: follow_append split: option.splits)
  then have "history topic key Saved es"
    using follow_history by (cases st') (fastforce split: if_splits)+
  then show ?thesis
    by simp
qed

end
