(* ===== verification/Reply_Source.thy ===== *)
theory Reply_Source
  imports Pipeline_Protocol
begin

text \<open>
  The pipeline against its listener's contract. \<open>reply_source\<close> says what the pipeline relies on: a
  reply is handed out only when none is pending, and only a successful acknowledgement settles it.
  Inside the locale, every step keeps the log of successful calls on the life cycle of
  \<open>Pipeline_Protocol\<close>, with the pipeline's flags telling the stage.
\<close>

section \<open>The contract\<close>

locale reply_source =
  fixes pt :: "'s ports" and good :: "'s \<Rightarrow> bool" and pending :: "'s \<Rightarrow> bool"
  assumes poll_ok: "good s \<Longrightarrow> pt_poll_records pt s = (Inr records, t) \<Longrightarrow>
      good t \<and> \<not> pending s \<and> (pending t \<longleftrightarrow> records \<noteq> [])"
    and poll_error: "good s \<Longrightarrow> pt_poll_records pt s = (Inl e, t) \<Longrightarrow> good t \<and> pending t = pending s"
    and ack_ok: "good s \<Longrightarrow> pt_acknowledge pt s = (Inr u, t) \<Longrightarrow> good t \<and> \<not> pending t"
    and ack_error: "good s \<Longrightarrow> pt_acknowledge pt s = (Inl e, t) \<Longrightarrow> good t \<and> pending t = pending s"
    and position_keeps: "keeps good pending (pt_get_position pt)"
    and checkpoint_keeps: "keeps good pending (pt_checkpoint pt c)"
    and begin_keeps: "keeps good pending (pt_begin_transaction pt)"
    and produce_keeps: "keeps good pending (pt_produce pt topic record key)"
    and commit_keeps: "keeps good pending (pt_commit_transaction pt)"
    and abort_keeps: "keeps good pending (pt_abort_transaction pt)"
    and flush_keeps: "keeps good pending (pt_flush_or_raise pt timeout)"
    and close_keeps: "keeps good pending (pt_close pt)"
    and fatal_keeps: "keeps good pending (pt_mark_fatal pt)"
    and sleep_keeps: "keeps good pending (pt_sleep pt delay)"

section \<open>The stage of a logged state\<close>

definition at_stage :: "stage \<Rightarrow> pipeline \<times> 's \<times> delivery_event list \<Rightarrow> bool" where
  "at_stage st s \<longleftrightarrow>
     follow (bp_topic (fst s)) (bp_partition_key (fst s)) Idle (snd (snd s)) = Some st"

lemma at_stage_Pair [simp]:
  "at_stage st (p, (t, es)) \<longleftrightarrow> follow (bp_topic p) (bp_partition_key p) Idle es = Some st"
  by (simp add: at_stage_def)

text \<open>What the flags of a pipeline say of the stage and of the pending reply, between two steps.\<close>

definition in_step :: "('s \<Rightarrow> bool) \<Rightarrow> ('s \<Rightarrow> bool) \<Rightarrow> pipeline \<times> 's \<times> delivery_event list \<Rightarrow> bool" where
  "in_step good pending s \<longleftrightarrow> good (fst (snd s)) \<and>
     (let p = fst s in
      if bp_commit_outstanding p then
        pending (fst (snd s)) \<and> at_stage (Publishing True []) s \<and> \<not> bp_delivered_unacked p \<and>
        \<not> bp_checkpointed p
      else if bp_delivered_unacked p then
        pending (fst (snd s)) \<and>
        (if bp_checkpointed p then at_stage Saved s
         else at_stage Delivered s \<or> (\<exists>c. at_stage (Located c) s))
      else
        \<not> bp_checkpointed p \<and>
        (if pending (fst (snd s)) then \<exists>st. undelivered st \<and> at_stage st s else at_stage Idle s))"

context reply_source
begin

lemmas call_keeps = position_keeps checkpoint_keeps begin_keeps produce_keeps commit_keeps abort_keeps
  flush_keeps close_keeps fatal_keeps sleep_keeps

text \<open>The frame of a publishing method: the pipeline's fields and the pending reply.\<close>

definition held :: "'s \<Rightarrow> bool" where
  "held s \<longleftrightarrow> good s \<and> pending s"

definition framed :: "pipeline \<Rightarrow> stage \<Rightarrow> pipeline \<times> 's \<times> delivery_event list \<Rightarrow> bool" where
  "framed p st s \<longleftrightarrow> fst s = p \<and> held (fst (snd s)) \<and> at_stage st s"

definition lost :: "pipeline \<Rightarrow> pipeline \<times> 's \<times> delivery_event list \<Rightarrow> bool" where
  "lost p s \<longleftrightarrow> (\<exists>st. undelivered st \<and> framed p st s)"

lemma wp_logged_call:
  assumes "framed p st s" "keeps good pending m"
    and "\<And>x t. held t \<Longrightarrow> Q x (p, (t, snd (snd s) @ f (Inr x)))"
    and "\<And>e t. held t \<Longrightarrow> E e (p, (t, snd (snd s) @ f (Inl e)))"
  shows "wp (outside (logged f m)) Q E s"
  unfolding wp_outside wp_logged
  by (rule wp_keeps [OF assms(2)]) (use assms in \<open>auto simp: framed_def held_def\<close>)

lemma framed_event:
  "framed p st s \<Longrightarrow> held t \<Longrightarrow> advance (bp_topic p) (bp_partition_key p) st e = Some st' \<Longrightarrow>
     framed p st' (p, (t, snd (snd s) @ [e]))"
  by (auto simp: framed_def at_stage_def follow_append)

lemma framed_same: "framed p st s \<Longrightarrow> held t \<Longrightarrow> framed p st (p, (t, snd (snd s)))"
  by (auto simp: framed_def at_stage_def)

lemma lostI: "framed p st s \<Longrightarrow> undelivered st \<Longrightarrow> lost p s"
  by (auto simp: lost_def)

lemma produce_all_rule:
  assumes "framed p (Publishing b records) s"
  shows "wp (produce_all (traced pt) records) (\<lambda>_. framed p (Publishing b [])) (\<lambda>_. lost p) s"
proof -
  have "wp (for_each (\<lambda>record. outside (pt_produce (traced pt) (bp_topic p) record (bp_partition_key p)))
      records) (\<lambda>_. framed p (Publishing b [])) (\<lambda>_. lost p) s"
    using assms
  proof (induction records arbitrary: s)
    case (Cons r records)
    show ?case
      unfolding for_each.simps wp_thn traced_simps
      by (rule wp_logged_call [OF Cons.prems produce_keeps])
        (auto intro!: Cons.IH [unfolded traced_simps] framed_event [OF Cons.prems] lostI framed_same [OF Cons.prems])
  qed (simp add: wp_simps)
  then show ?thesis
    using assms by (simp add: produce_all_def wp_simps framed_def)
qed

lemma give_up_rule:
  assumes "lost p s" "keeps good pending m"
  shows "wp (outside (logged (\<lambda>_. [GaveUp]) m)) (\<lambda>_. lost p) (\<lambda>_. lost p) s"
proof -
  obtain st where st: "undelivered st" "framed p st s"
    using assms by (auto simp: lost_def)
  have "advance (bp_topic p) (bp_partition_key p) st GaveUp = Some Abandoned"
    using st(1) by (cases st) auto
  from framed_event [OF st(2) _ this] show ?thesis
    by (intro wp_logged_call [OF st(2) assms(2)]) (auto intro: lostI [of _ Abandoned])
qed

lemma abort_rule:
  assumes "lost p s"
  shows "wp (abort_and_raise (traced pt) exc) Q (\<lambda>_. lost p) s"
  unfolding abort_and_raise_def traced_simps
  by (auto simp: wp_if wp_thn wp_raise wp_fun intro!: give_up_rule [OF assms] abort_keeps fatal_keeps)

lemma framed_update:
  "framed p st s \<Longrightarrow> bp_topic q = bp_topic p \<Longrightarrow> bp_partition_key q = bp_partition_key p \<Longrightarrow>
     framed q st (q, snd s)"
  unfolding framed_def at_stage_def by auto

lemma framedD: "framed p st s \<Longrightarrow> fst s = p"
  by (simp add: framed_def)

lemma produce_and_flush_rule:
  assumes "framed p (Publishing False records) s"
  shows "wp (produce_and_flush (traced pt) records)
    (\<lambda>_. framed (p\<lparr>bp_delivered_unacked := True\<rparr>) Delivered) (\<lambda>_. lost p) s"
proof -
  have flush: "wp (outside (logged (on_success (\<lambda>_. FlushOk)) (pt_flush_or_raise pt timeout)))
      (\<lambda>_. framed p Delivered) (\<lambda>_. lost p) t" if "framed p (Publishing False []) t" for t timeout
    by (rule wp_logged_call [OF that flush_keeps])
      (auto intro!: framed_event [OF that] lostI framed_same [OF that])
  have body: "wp (thn (produce_all (traced pt) records)
      (bnd (self_gets bp_flush_timeout_seconds) (\<lambda>timeout.
       outside (pt_flush_or_raise (traced pt) timeout)))) (\<lambda>_. framed p Delivered) (\<lambda>_. lost p) s"
    unfolding wp_thn
    by (rule wp_weaken [OF produce_all_rule [OF assms]]) (auto simp: wp_bnd wp_self_gets flush)
  have "wp (catch (thn (produce_all (traced pt) records)
      (bnd (self_gets bp_flush_timeout_seconds) (\<lambda>timeout.
       outside (pt_flush_or_raise (traced pt) timeout))))
      publish_failure (\<lambda>exc. thn (outside (pt_close (traced pt))) (raise exc)))
      (\<lambda>_. framed p Delivered) (\<lambda>_. lost p) s"
    unfolding wp_catch
    by (rule wp_weaken [OF body])
      (auto simp: wp_thn wp_raise wp_fun intro!: give_up_rule close_keeps)
  then show ?thesis
    unfolding produce_and_flush_def wp_thn
    by (rule wp_weaken) (auto simp: wp_self_modify framedD intro: framed_update)
qed

lemma begin_and_produce_rule:
  assumes "framed p (Publishing False records) s"
  shows "wp (begin_and_produce (traced pt) records)
    (\<lambda>_. framed (p\<lparr>bp_commit_outstanding := True\<rparr>) (Publishing True [])) (\<lambda>_. lost p) s"
proof -
  have body: "wp (catch (produce_all (traced pt) records)
      (\<lambda>exc. is_KafkaException exc \<or> exc = BufferError) (abort_and_raise (traced pt)))
      (\<lambda>_. framed p (Publishing True [])) (\<lambda>_. lost p) t"
    if "framed p (Publishing True records) t" for t
    unfolding wp_catch
    by (rule wp_weaken [OF produce_all_rule [OF that]]) (auto intro: abort_rule)
  have "wp (thn (catch (produce_all (traced pt) records)
      (\<lambda>exc. is_KafkaException exc \<or> exc = BufferError) (abort_and_raise (traced pt)))
      (self_modify (\<lambda>p. p\<lparr>bp_commit_outstanding := True\<rparr>)))
      (\<lambda>_. framed (p\<lparr>bp_commit_outstanding := True\<rparr>) (Publishing True [])) (\<lambda>_. lost p) t"
    if "framed p (Publishing True records) t" for t
    unfolding wp_thn
    by (rule wp_weaken [OF body [OF that]]) (auto simp: wp_self_modify framedD intro: framed_update)
  note whole = this
  show ?thesis
    unfolding begin_and_produce_def wp_thn [of "outside _"] traced_simps
  proof (rule wp_logged_call [OF assms begin_keeps], goal_cases)
    case (1 x t)
    show ?case
      by (rule whole [unfolded traced_simps]) (use framed_event [OF assms 1] in simp)
  next
    case (2 e t)
    show ?case
      using framed_same [OF assms 2] by (auto intro: lostI)
  qed
qed

text \<open>A commit ends with the reply delivered, with the commit still to be retried, or lost.\<close>

lemma commit_attempts_rule:
  assumes "framed p (Publishing True []) s" "bp_commit_outstanding p"
  shows "wp (commit_attempts (traced pt) n last_exc) (\<lambda>_. framed p Delivered)
    (\<lambda>_ s. framed p (Publishing True []) s \<or> lost (p\<lparr>bp_commit_outstanding := False\<rparr>) s) s"
  using assms(1)
proof (induction n arbitrary: s last_exc)
  case 0
  then show ?case
    by (cases last_exc) (simp_all add: wp_raise)
next
  case (Suc n)
  let ?q = "p\<lparr>bp_commit_outstanding := False\<rparr>"
  have gone: "lost ?q (?q, (t, snd (snd s)))" if "held t" for t
    using framed_update [OF framed_same [OF Suc.prems that], of ?q] by (auto intro: lostI)
  have kept: "framed p (Publishing True []) (p, (t, snd (snd s)))" if "held t" for t
    by (rule framed_same [OF Suc.prems that])
  have pause: "wp (if b then outside (pt_sleep (traced pt) delay) else ret ())
      (\<lambda>_. framed p (Publishing True [])) (\<lambda>_. framed p (Publishing True [])) t"
    if "framed p (Publishing True []) t" for t b delay
    unfolding traced_simps wp_if wp_ret
    using that by (auto intro!: wp_logged_call [OF that sleep_keeps] framed_same [OF that])
  show ?case
    unfolding commit_attempts.simps wp_bnd wp_trying traced_simps
  proof (rule wp_logged_call [OF Suc.prems commit_keeps], goal_cases)
    case (1 x t)
    then show ?case
      by (simp add: wp_ret) (rule framed_event [OF Suc.prems], simp_all)
  next
    case (2 exc t)
    have retry: "wp (bnd (self_gets bp_commit_retry_delay_seconds) (\<lambda>delay.
        thn (if 0 < n \<and> py_less py_zero delay then outside (pt_sleep (traced pt) delay) else ret ())
          (commit_attempts (traced pt) n (Some exc)))) (\<lambda>_. framed p Delivered)
        (\<lambda>_ s. framed p (Publishing True []) s \<or> lost ?q s) (p, (t, snd (snd s)))"
      unfolding wp_bnd wp_self_gets wp_thn
      by (rule wp_weaken [OF pause [OF kept [OF 2]]]) (auto intro: Suc.IH)
    have fatal: "wp (outside (logged (\<lambda>_. [GaveUp]) (pt_mark_fatal pt)))
        (\<lambda>_. lost ?q) (\<lambda>_. lost ?q) (?q, (t, snd (snd s)))"
      by (rule give_up_rule [OF gone [OF 2] fatal_keeps])
    note abort = abort_rule [OF gone [OF 2], of exc]
    show ?case
      using retry [unfolded traced_simps] kept [OF 2] gone [OF 2]
      by (auto simp: wp_if wp_thn wp_self_modify wp_raise wp_fun(2) traced_simps
          intro!: wp_weaken [OF fatal] wp_weaken [OF abort])
  qed
qed

text \<open>An acknowledgement settles the reply, or leaves it saved for the next step.\<close>

definition settled :: "pipeline \<Rightarrow> pipeline \<times> 's \<times> delivery_event list \<Rightarrow> bool" where
  "settled p s \<longleftrightarrow> fst s = p \<and> good (fst (snd s)) \<and> \<not> pending (fst (snd s)) \<and> at_stage Idle s"

lemma wp_acknowledge:
  assumes "framed p Saved s"
    and "\<And>s. settled p s \<Longrightarrow> Q () s" and "\<And>e s. framed p Saved s \<Longrightarrow> E e s"
  shows "wp (outside (logged (on_success (\<lambda>_. AckOk)) (pt_acknowledge pt))) Q E s"
  unfolding wp_outside wp_logged
proof (rule wp_I, goal_cases)
  case (1 x t)
  then show ?case
    using assms(1,2) ack_ok [OF _ 1] by (auto simp: framed_def held_def settled_def at_stage_def follow_append)
next
  case (2 e t)
  then show ?case
    using assms(1,3) ack_error [OF _ 2] by (auto simp: framed_def held_def at_stage_def)
qed

lemma acknowledge_attempts_rule:
  assumes "framed p Saved s"
  shows "wp (acknowledge_attempts (traced pt) n last_exc) (\<lambda>_. settled p) (\<lambda>_. framed p Saved) s"
  using assms
proof (induction n arbitrary: s last_exc)
  case 0
  then show ?case
    by (cases last_exc) (simp_all add: wp_raise)
next
  case (Suc n)
  have pause: "wp (if b then outside (pt_sleep (traced pt) delay) else ret ())
      (\<lambda>_. framed p Saved) (\<lambda>_. framed p Saved) t"
    if "framed p Saved t" for t b delay
    unfolding traced_simps wp_if wp_ret
    using that by (auto intro!: wp_logged_call [OF that sleep_keeps] framed_same [OF that])
  have retry: "wp (bnd (self_gets bp_ack_retry_delay_seconds) (\<lambda>delay.
      thn (if 0 < n \<and> py_less py_zero delay then outside (pt_sleep (traced pt) delay) else ret ())
        (acknowledge_attempts (traced pt) n (Some exc)))) (\<lambda>_. settled p) (\<lambda>_. framed p Saved) t"
    if "framed p Saved t" for t exc
    unfolding wp_bnd wp_self_gets wp_thn
    by (rule wp_weaken [OF pause [OF that]]) (auto intro: Suc.IH)
  show ?case
    unfolding acknowledge_attempts.simps wp_bnd wp_trying traced_simps
    by (rule wp_acknowledge [OF Suc.prems])
      (auto simp: wp_ret wp_if wp_raise intro: retry [unfolded traced_simps])
qed

definition locating :: "stage \<Rightarrow> bool" where
  "locating st \<longleftrightarrow> st = Delivered \<or> (\<exists>c. st = Located c)"

text \<open>Where a checkpoint or an acknowledgement can leave the delivered reply.\<close>

definition unacknowledged :: "pipeline \<Rightarrow> pipeline \<times> 's \<times> delivery_event list \<Rightarrow> bool" where
  "unacknowledged p s \<longleftrightarrow>
     (\<exists>st. locating st \<and> framed (p\<lparr>bp_checkpointed := False\<rparr>) st s) \<or>
     framed (p\<lparr>bp_checkpointed := True\<rparr>) Saved s"

lemma checkpoint_rule:
  assumes "framed p st s" "locating st" "\<not> bp_checkpointed p"
  shows "wp (bnd (outside (pt_get_position (traced pt))) (\<lambda>cursor.
      thn (outside (pt_checkpoint (traced pt) cursor))
          (self_modify (\<lambda>p. p\<lparr>bp_checkpointed := True\<rparr>))))
    (\<lambda>_. framed (p\<lparr>bp_checkpointed := True\<rparr>) Saved) (\<lambda>_. unacknowledged p) s"
proof -
  have p: "p\<lparr>bp_checkpointed := False\<rparr> = p"
    using assms(3) by (cases p) simp
  have position: "framed p (Located c) (p, (t, snd (snd s) @ [PositionOk c]))" if "held t" for c t
    using framed_event [OF assms(1) that, of "PositionOk c"] assms(2) by (auto simp: locating_def)
  have stay: "unacknowledged p s" if "framed p st s" "locating st" for st s
    using that by (auto simp: unacknowledged_def p)
  have save: "wp (thn (outside (logged (on_success (\<lambda>_. CheckpointOk c)) (pt_checkpoint pt c)))
      (self_modify (\<lambda>p. p\<lparr>bp_checkpointed := True\<rparr>)))
      (\<lambda>_. framed (p\<lparr>bp_checkpointed := True\<rparr>) Saved) (\<lambda>_. unacknowledged p) t"
    if at: "framed p (Located c) t" for c t
    unfolding wp_thn
  proof (rule wp_logged_call [OF at checkpoint_keeps], goal_cases)
    case (1 x u)
    have "framed p Saved (p, (u, snd (snd t) @ [CheckpointOk c]))"
      by (rule framed_event [OF at 1]) simp
    from framed_update [OF this, of "p\<lparr>bp_checkpointed := True\<rparr>"] show ?case
      by (simp add: wp_self_modify)
  next
    case (2 e u)
    then show ?case
      using framed_same [OF at 2] by (auto intro: stay simp: locating_def)
  qed
  show ?thesis
    unfolding wp_bnd traced_simps
    by (rule wp_logged_call [OF assms(1) position_keeps])
      (auto intro!: save position stay [OF framed_same [OF assms(1)] assms(2)])
qed

lemma saved_unacknowledged: "framed (p\<lparr>bp_checkpointed := True\<rparr>) Saved s \<Longrightarrow> unacknowledged p s"
  by (simp add: unacknowledged_def)

lemma settled_update:
  "settled p s \<Longrightarrow> bp_topic q = bp_topic p \<Longrightarrow> bp_partition_key q = bp_partition_key p \<Longrightarrow>
     settled q (q, snd s)"
  unfolding settled_def at_stage_def by auto

lemma checkpoint_and_acknowledge_rule:
  assumes "framed p st s" "if bp_checkpointed p then st = Saved else locating st"
  shows "wp (checkpoint_and_acknowledge (traced pt))
    (\<lambda>_. settled (p\<lparr>bp_checkpointed := False\<rparr>)) (\<lambda>_. unacknowledged p) s"
proof -
  let ?q = "p\<lparr>bp_checkpointed := True\<rparr>"
  have ack: "wp (thn (acknowledge_with_retry (traced pt))
      (self_modify (\<lambda>p. p\<lparr>bp_checkpointed := False\<rparr>)))
      (\<lambda>_. settled (p\<lparr>bp_checkpointed := False\<rparr>)) (\<lambda>_. unacknowledged p) t"
    if "framed ?q Saved t" for t
  proof -
    have "wp (acknowledge_with_retry (traced pt)) (\<lambda>_. settled ?q) (\<lambda>_. framed ?q Saved) t"
      unfolding acknowledge_with_retry_def wp_bnd wp_self_gets
      by (rule acknowledge_attempts_rule [OF that])
    then show ?thesis
      unfolding wp_thn
      by (rule wp_weaken)
        (auto simp: wp_self_modify settled_def at_stage_def intro: saved_unacknowledged)
  qed
  have save: "wp (if \<not> bp_checkpointed p then
        bnd (outside (pt_get_position (traced pt))) (\<lambda>cursor.
          thn (outside (pt_checkpoint (traced pt) cursor))
              (self_modify (\<lambda>p. p\<lparr>bp_checkpointed := True\<rparr>)))
      else ret ()) (\<lambda>_. framed ?q Saved) (\<lambda>_. unacknowledged p) s"
  proof (cases "bp_checkpointed p")
    case True
    then have "?q = p"
      by (cases p) simp
    then have "framed ?q Saved s"
      using True assms by (simp only: if_True)
    with True show ?thesis
      by (simp add: wp_ret)
  next
    case False
    with checkpoint_rule [OF assms(1)] assms(2) show ?thesis
      by simp
  qed
  show ?thesis
    unfolding checkpoint_and_acknowledge_def wp_bnd wp_self_gets framedD [OF assms(1)]
    unfolding wp_thn [of "if _ then _ else _"]
    by (rule wp_weaken [OF save]) (auto intro: ack)
qed

lemma in_step_settled:
  "settled p s \<Longrightarrow> \<not> bp_commit_outstanding p \<Longrightarrow> \<not> bp_delivered_unacked p \<Longrightarrow> \<not> bp_checkpointed p \<Longrightarrow>
     in_step good pending s"
  by (simp add: settled_def in_step_def Let_def)

lemma in_step_unacknowledged:
  "unacknowledged p s \<Longrightarrow> bp_delivered_unacked p \<Longrightarrow> \<not> bp_commit_outstanding p \<Longrightarrow> in_step good pending s"
  by (auto simp: unacknowledged_def locating_def framed_def held_def in_step_def Let_def)

lemma in_step_lost:
  "lost p s \<Longrightarrow> \<not> bp_commit_outstanding p \<Longrightarrow> \<not> bp_delivered_unacked p \<Longrightarrow> \<not> bp_checkpointed p \<Longrightarrow>
     in_step good pending s"
  by (auto simp: lost_def framed_def held_def in_step_def Let_def)

lemma in_step_committing:
  "framed p (Publishing True []) s \<Longrightarrow> bp_commit_outstanding p \<Longrightarrow> \<not> bp_delivered_unacked p \<Longrightarrow>
     \<not> bp_checkpointed p \<Longrightarrow> in_step good pending s"
  by (simp add: framed_def held_def in_step_def Let_def)

text \<open>Where \<open>finish_delivery\<close> starts: a commit to be made or retried, or a delivered reply.\<close>

definition finishing :: "pipeline \<Rightarrow> pipeline \<times> 's \<times> delivery_event list \<Rightarrow> bool" where
  "finishing p s \<longleftrightarrow>
     (if bp_commit_outstanding p
      then framed p (Publishing True []) s \<and> \<not> bp_delivered_unacked p \<and> \<not> bp_checkpointed p
      else bp_delivered_unacked p \<and>
        (\<exists>st. framed p st s \<and> (if bp_checkpointed p then st = Saved else locating st)))"

lemma finish_delivery_rule:
  assumes "finishing p s"
  shows "wp (finish_delivery (traced pt)) (\<lambda>_. in_step good pending) (\<lambda>_. in_step good pending) s"
proof -
  have acknowledge: "wp (thn (checkpoint_and_acknowledge (traced pt))
      (thn (self_modify (\<lambda>p. p\<lparr>bp_delivered_unacked := False\<rparr>)) (self_gets bp_pending_count)))
      (\<lambda>_. in_step good pending) (\<lambda>_. in_step good pending) t"
    if "finishing q t" "\<not> bp_commit_outstanding q" for q t
  proof -
    have q: "bp_delivered_unacked q"
      and "\<exists>st. framed q st t \<and> (if bp_checkpointed q then st = Saved else locating st)"
      using that by (simp_all add: finishing_def)
    then obtain st where "framed q st t" "if bp_checkpointed q then st = Saved else locating st"
      by blast
    from checkpoint_and_acknowledge_rule [OF this(1,2)] show ?thesis
      unfolding wp_thn [of "checkpoint_and_acknowledge _"]
    proof (rule wp_weaken)
      fix x u
      assume settled: "settled (q\<lparr>bp_checkpointed := False\<rparr>) u"
      then have u: "fst u = q\<lparr>bp_checkpointed := False\<rparr>"
        by (simp add: settled_def)
      have "settled (fst u\<lparr>bp_delivered_unacked := False\<rparr>) (fst u\<lparr>bp_delivered_unacked := False\<rparr>, snd u)"
        using settled_update [OF settled] u by simp
      from in_step_settled [OF this] that(2) u
      show "wp (thn (self_modify (\<lambda>p. p\<lparr>bp_delivered_unacked := False\<rparr>)) (self_gets bp_pending_count))
          (\<lambda>_. in_step good pending) (\<lambda>_. in_step good pending) u"
        by (simp add: wp_thn wp_self_modify wp_self_gets)
    next
      fix e u
      assume "unacknowledged q u"
      then show "in_step good pending u"
        using q that(2) by (rule in_step_unacknowledged)
    qed
  qed
  show ?thesis
  proof (cases "bp_commit_outstanding p")
    case True
    let ?q = "p\<lparr>bp_commit_outstanding := False, bp_delivered_unacked := True\<rparr>"
    have framed: "framed p (Publishing True []) s" and flags: "\<not> bp_delivered_unacked p" "\<not> bp_checkpointed p"
      using assms True by (simp_all add: finishing_def)
    have commit: "wp (commit_with_retry (traced pt)) (\<lambda>_. framed p Delivered)
        (\<lambda>_ s. framed p (Publishing True []) s \<or> lost (p\<lparr>bp_commit_outstanding := False\<rparr>) s) s"
      unfolding commit_with_retry_def wp_bnd wp_self_gets
      by (rule commit_attempts_rule [OF framed True])
    have good: "finishing ?q (fst t\<lparr>bp_commit_outstanding := False, bp_delivered_unacked := True\<rparr>, snd t)"
      if "framed p Delivered t" for t
      using framed_update [OF that, of ?q] flags framedD [OF that]
      by (auto simp: finishing_def locating_def)
    have bad: "in_step good pending t"
      if "framed p (Publishing True []) t \<or> lost (p\<lparr>bp_commit_outstanding := False\<rparr>) t" for t
      using that flags True in_step_committing [of p t] in_step_lost [of "p\<lparr>bp_commit_outstanding := False\<rparr>" t]
      by auto
    have "wp (thn (commit_with_retry (traced pt))
        (self_modify (\<lambda>p. p\<lparr>bp_commit_outstanding := False, bp_delivered_unacked := True\<rparr>)))
        (\<lambda>_. finishing ?q) (\<lambda>_. in_step good pending) s"
      unfolding wp_thn
      by (rule wp_weaken [OF commit]) (simp_all add: wp_self_modify good bad)
    then have "wp (thn (commit_with_retry (traced pt))
        (self_modify (\<lambda>p. p\<lparr>bp_commit_outstanding := False, bp_delivered_unacked := True\<rparr>)))
        (\<lambda>_. wp (thn (checkpoint_and_acknowledge (traced pt))
          (thn (self_modify (\<lambda>p. p\<lparr>bp_delivered_unacked := False\<rparr>)) (self_gets bp_pending_count)))
          (\<lambda>_. in_step good pending) (\<lambda>_. in_step good pending)) (\<lambda>_. in_step good pending) s"
      by (rule wp_weaken) (auto intro: acknowledge)
    with True framedD [OF framed] show ?thesis
      unfolding finish_delivery_def wp_bnd wp_self_gets wp_thn [of "if _ then _ else _"] by simp
  next
    case False
    then have "fst s = p"
      using assms by (auto simp: finishing_def framed_def)
    with acknowledge [OF assms False] False show ?thesis
      unfolding finish_delivery_def wp_bnd wp_self_gets by (simp add: wp_thn [of "ret _"] wp_ret)
  qed
qed

lemma in_step_finishing:
  assumes "in_step good pending s" "bp_commit_outstanding (fst s) \<or> bp_delivered_unacked (fst s)"
  shows "finishing (fst s) s"
proof (cases "bp_commit_outstanding (fst s)")
  case True
  with assms(1) show ?thesis
    by (simp add: in_step_def finishing_def framed_def held_def Let_def)
next
  case False
  with assms show ?thesis
    by (auto simp: in_step_def finishing_def framed_def held_def locating_def Let_def split: if_splits)
qed

lemma publish_rule:
  assumes "framed p (Publishing False records) s" "\<not> bp_commit_outstanding p"
    and "\<not> bp_delivered_unacked p" "\<not> bp_checkpointed p"
  shows "wp (thn (if b then begin_and_produce (traced pt) records else produce_and_flush (traced pt) records)
      (thn (self_modify (\<lambda>p. p\<lparr>bp_pending_count := n\<rparr>)) (finish_delivery (traced pt))))
    (\<lambda>_. in_step good pending) (\<lambda>_. in_step good pending) s"
proof -
  have count: "finishing (fst t\<lparr>bp_pending_count := n\<rparr>) (fst t\<lparr>bp_pending_count := n\<rparr>, snd t)"
    if "finishing (fst t) t" for t
    using that framed_update [of "fst t" _ t "fst t\<lparr>bp_pending_count := n\<rparr>"]
    by (auto simp: finishing_def split: if_splits)
  have finish: "wp (thn (self_modify (\<lambda>p. p\<lparr>bp_pending_count := n\<rparr>)) (finish_delivery (traced pt)))
      (\<lambda>_. in_step good pending) (\<lambda>_. in_step good pending) t" if "finishing (fst t) t" for t
    using finish_delivery_rule [OF count [OF that]] by (simp add: wp_thn wp_self_modify)
  have lost: "in_step good pending t" if "lost p t" for t
    using that assms(2-4) by (rule in_step_lost)
  have "finishing (fst t) t" if "framed (p\<lparr>bp_commit_outstanding := True\<rparr>) (Publishing True []) t" for t
    using that assms(3,4) framedD [OF that] by (simp add: finishing_def)
  moreover have "finishing (fst t) t" if "framed (p\<lparr>bp_delivered_unacked := True\<rparr>) Delivered t" for t
    using that assms(2,4) framedD [OF that] by (auto simp: finishing_def locating_def)
  ultimately show ?thesis
    unfolding wp_thn [of "if _ then _ else _"] wp_if
    by (auto intro!: wp_weaken [OF begin_and_produce_rule [OF assms(1)]]
        wp_weaken [OF produce_and_flush_rule [OF assms(1)]] finish lost)
qed

lemma step_follows:
  assumes "in_step good pending s"
  shows "wp (pipeline_step (traced pt)) (\<lambda>_. in_step good pending) (\<lambda>_. in_step good pending) s"
proof (cases "bp_commit_outstanding (fst s) \<or> bp_delivered_unacked (fst s)")
  case True
  with finish_delivery_rule [OF in_step_finishing [OF assms True]] show ?thesis
    unfolding pipeline_step_def wp_bnd wp_self_gets by simp
next
  case False
  then have flags: "\<not> bp_commit_outstanding (fst s)" "\<not> bp_delivered_unacked (fst s)"
    "\<not> bp_checkpointed (fst s)"
    using assms by (simp_all add: in_step_def Let_def)
  show ?thesis
    unfolding pipeline_step_def wp_bnd wp_self_gets id_apply wp_if wp_gets
    unfolding traced_simps wp_outside wp_logged
  proof (simp add: False, rule wp_I, goal_cases)
    case (1 records t)
    have start: "good (fst (snd s))"
      using assms by (simp add: in_step_def)
    have polled: "good t" "\<not> pending (fst (snd s))" "pending t \<longleftrightarrow> records \<noteq> []"
      using poll_ok [OF start 1] by simp_all
    then have idle: "at_stage Idle s"
      using assms flags by (simp add: in_step_def Let_def)
    have "framed (fst s) (Publishing False records) (fst s, (t, snd (snd s) @ [PollOk records]))"
      if "records \<noteq> []"
      using that polled idle by (simp add: framed_def held_def at_stage_def follow_append)
    moreover have "in_step good pending (fst s, (t, snd (snd s) @ [PollOk []]))" if "records = []"
      using that flags polled idle by (simp add: in_step_def at_stage_def follow_append Let_def)
    ultimately show ?case
      using flags by (auto simp: wp_ret wp_bnd wp_gets
        intro: publish_rule [where b = True, unfolded if_True] publish_rule [where b = False, unfolded if_False])
  next
    case (2 e t)
    then show ?case
      using poll_error [OF _ 2] assms flags by (auto simp: in_step_def at_stage_def Let_def)
  qed
qed

lemma run_follows:
  "in_step good pending s \<Longrightarrow> run_steps (traced pt) n s = (rs, t) \<Longrightarrow> in_step good pending t"
proof (induction n arbitrary: s rs)
  case (Suc n)
  obtain r u where step: "pipeline_step (traced pt) s = (r, u)"
    by (metis surj_pair)
  with step_follows [OF Suc.prems(1)] have "in_step good pending u"
    by (simp add: wp_def split: sum.splits)
  with Suc.IH Suc.prems(2) step show ?case
    by (auto split: prod.splits)
qed simp

lemma in_step_stage: "in_step good pending s \<Longrightarrow> \<exists>st. at_stage st s"
  by (auto simp: in_step_def Let_def split: if_splits)

end

end
