(* ===== verification/Cdc_Client.thy ===== *)
theory Cdc_Client
  imports Effects Py_Values
begin

text \<open>
  \<open>cdc/client.py\<close>: the classification of native failures, API initialisation and \<open>FDBClient\<close>.
  The \<open>fdb\<close> module is a parameter, the record \<open>natives\<close> of the calls the code makes on it, on a
  database handle \<open>'d\<close> and on a consumer handle \<open>'c\<close>, over an arbitrary outside world \<open>'w\<close>; a
  call that the code follows with \<open>.wait()\<close> is one step.
\<close>

section \<open>Classifying failures\<close>

definition DEFAULT_CDC_API_VERSION :: int where
  "DEFAULT_CDC_API_VERSION = 800"

definition MINIMUM_CDC_API_VERSION :: int where
  "MINIMUM_CDC_API_VERSION = 800"

definition FDB_TRANSACTION_TOO_OLD :: int where
  "FDB_TRANSACTION_TOO_OLD = 1007"

definition FDB_SERVER_OVERLOADED :: int where
  "FDB_SERVER_OVERLOADED = 1211"

definition FDB_CLIENT_INVALID_OPERATION :: int where
  "FDB_CLIENT_INVALID_OPERATION = 2000"

lemmas fdb_code_defs = FDB_TRANSACTION_TOO_OLD_def FDB_SERVER_OVERLOADED_def
  FDB_CLIENT_INVALID_OPERATION_def

text \<open>The integer \<open>code\<close> attribute of an exception, native or not.\<close>

fun native_error_code :: "exn \<Rightarrow> int option" where
  "native_error_code (FDBError c) = Some c"
| "native_error_code (CDCConsumeError c) = c"
| "native_error_code (CDCRetryableError c) = c"
| "native_error_code (CDCTerminalError c) = c"
| "native_error_code (OtherError c) = c"
| "native_error_code _ = None"

definition consume_failure :: "exn \<Rightarrow> exn" where
  "consume_failure exc =
     (case native_error_code exc of
        Some code \<Rightarrow>
          if code = FDB_SERVER_OVERLOADED then CDCRetryableError (Some code)
          else if code = FDB_TRANSACTION_TOO_OLD \<or> code = FDB_CLIENT_INVALID_OPERATION
          then CDCTerminalError (Some code)
          else exc
      | None \<Rightarrow> CDCError)"

definition raise_consume_failure :: "exn \<Rightarrow> ('s, 'a) eff" where
  "raise_consume_failure exc = raise (consume_failure exc)"

fun to_bytes :: "pyval \<Rightarrow> exn + bytes" where
  "to_bytes (PBytes name) = Inr name"
| "to_bytes (PStr name) =
     (case utf8_encode name of None \<Rightarrow> Inl ValueError | Some bs \<Rightarrow> Inr bs)"
| "to_bytes _ = Inl TypeError"

definition lower_char :: "char \<Rightarrow> char" where
  "lower_char c = (let n = of_char c :: nat in if 65 \<le> n \<and> n \<le> 90 then char_of (n + 32) else c)"

fun translate_cdc_runtime_error :: "exn \<Rightarrow> exn" where
  "translate_cdc_runtime_error (RuntimeError text) =
     (let message = map lower_char text
      in if sublist ''native cdc'' message \<and>
            (sublist ''does not support'' message \<or> sublist ''requires api version'' message)
         then CDCNotSupportedError else RuntimeError text)"
| "translate_cdc_runtime_error exc = exc"

section \<open>The binding\<close>

text \<open>
  \<open>nt_cluster_read_version\<close> is \<open>None\<close> when the database handle has no \<open>get_read_version\<close>.
  \<open>nt_closed_meanwhile\<close> says whether, while the last blocking call was parked, another thread
  closed the listener (\<open>Bridge.stop\<close> does). \<open>nt_fuel\<close> bounds the model's unrolling of waiting loops.
\<close>

record version_group =
  vg_version :: int
  vg_mutations :: py_iterable

record native_reply =
  nr_mutations :: "version_group list option"
  nr_last_consumed_version :: "int option"

record ('w, 'd, 'c) natives =
  nt_installed :: bool
  nt_get_api_version :: "('w, int) eff"
  nt_api_version :: "int \<Rightarrow> ('w, unit) eff"
  nt_open :: "pystr option \<Rightarrow> ('w, 'd) eff"
  nt_register :: "'d \<Rightarrow> bytes \<Rightarrow> bytes \<Rightarrow> bytes \<Rightarrow> ('w, int) eff"
  nt_create :: "'d \<Rightarrow> bytes \<Rightarrow> ('w, 'c) eff"
  nt_resume :: "'d \<Rightarrow> pyval \<Rightarrow> ('w, 'c) eff"
  nt_remove :: "'d \<Rightarrow> bytes \<Rightarrow> ('w, unit) eff"
  nt_list :: "'d \<Rightarrow> ('w, pyval list) eff"
  nt_cluster_read_version :: "'d \<Rightarrow> ('w, int) eff option"
  nt_transaction_read_version :: "'d \<Rightarrow> ('w, int) eff"
  nt_consume :: "'c \<Rightarrow> ('w, native_reply) eff"
  nt_acknowledge :: "'c \<Rightarrow> ('w, unit) eff"
  nt_get_position :: "'c \<Rightarrow> ('w, pyval) eff"
  nt_close :: "'c \<Rightarrow> ('w, unit) eff"
  nt_closed_meanwhile :: "'w \<Rightarrow> bool"
  nt_monotonic :: "('w, rat) eff"
  nt_sleep :: "pyfloat \<Rightarrow> ('w, unit) eff"
  nt_time_ns :: "('w, int) eff"
  nt_fuel :: nat

section \<open>API version\<close>

definition init_fdb :: "('w, 'd, 'c) natives \<Rightarrow> int \<Rightarrow> ('w, unit) eff" where
  "init_fdb nt version =
     (if version < MINIMUM_CDC_API_VERSION then raise CDCNotSupportedError
      else if \<not> nt_installed nt then raise CDCNotSupportedError
      else catch
        (bnd (nt_get_api_version nt) (\<lambda>current_version.
           if current_version = version then ret ()
           else raise (RuntimeError
             ''FDB API version already initialized; cannot reinitialize it.'')))
        is_RuntimeError
        (\<lambda>exc. case exc of
           RuntimeError text \<Rightarrow>
             if sublist ''API version is not set'' text \<or> sublist ''not set'' text
             then nt_api_version nt version else raise exc
         | _ \<Rightarrow> raise exc))"

section \<open>FDBClient\<close>

record 'd fdb_client =
  fc_cluster_file :: "pystr option"
  fc_api_version :: int
  fc_db :: "'d option"

definition new_client :: "pystr option \<Rightarrow> int \<Rightarrow> 'd fdb_client" where
  "new_client cluster_file api_version =
     \<lparr>fc_cluster_file = cluster_file, fc_api_version = api_version, fc_db = None\<rparr>"

definition client_open :: "('w, 'd, 'c) natives \<Rightarrow> ('d fdb_client \<times> 'w, 'd) eff" where
  "client_open nt =
     bnd (self_gets id) (\<lambda>self.
     case fc_db self of
       Some db \<Rightarrow> ret db
     | None \<Rightarrow>
         thn (outside (init_fdb nt (fc_api_version self)))
         (bnd (outside (nt_open nt (fc_cluster_file self))) (\<lambda>db.
         thn (self_modify (\<lambda>c. c\<lparr>fc_db := Some db\<rparr>)) (ret db))))"

definition client_close :: "('d fdb_client \<times> 'w, unit) eff" where
  "client_close = self_modify (\<lambda>c. c\<lparr>fc_db := None\<rparr>)"

text \<open>\<open>except RuntimeError as exc: _translate_cdc_runtime_error(exc)\<close>.\<close>

definition translating :: "('s, 'a) eff \<Rightarrow> ('s, 'a) eff" where
  "translating m = catch m is_RuntimeError (\<lambda>exc. raise (translate_cdc_runtime_error exc))"

fun register_cdc_stream ::
  "('w, 'd, 'c) natives \<Rightarrow> pyval \<Rightarrow> pyval \<Rightarrow> pyval \<Rightarrow> ('d fdb_client \<times> 'w, int) eff" where
  "register_cdc_stream nt name (PBytes begin_key) (PBytes end_key) =
     (if end_key \<le> begin_key then raise CDCInvalidRangeError
      else translating
        (bnd (client_open nt) (\<lambda>db.
         bnd (liftE (to_bytes name)) (\<lambda>raw.
         outside (nt_register nt db raw begin_key end_key)))))"
| "register_cdc_stream nt name begin_key end_key = raise CDCInvalidRangeError"

definition create_cdc_consumer ::
  "('w, 'd, 'c) natives \<Rightarrow> pyval \<Rightarrow> ('d fdb_client \<times> 'w, 'c) eff" where
  "create_cdc_consumer nt name = translating
     (bnd (client_open nt) (\<lambda>db.
      bnd (liftE (to_bytes name)) (\<lambda>raw.
      outside (nt_create nt db raw))))"

definition valid_cursor :: "pyval \<Rightarrow> exn + unit" where
  "valid_cursor cursor =
     (case (py_getattr cursor ''stream_id'', py_getattr cursor ''last_consumed_version'') of
        (Some stream_id, Some last_consumed_version) \<Rightarrow>
          (case stream_id of
             PInt s \<Rightarrow>
               if \<not> (0 \<le> s \<and> s < 2 ^ 64) then Inl CDCInvalidCursorError
               else (case last_consumed_version of
                  PInt v \<Rightarrow>
                    if \<not> (- (2 ^ 63) \<le> v \<and> v < 2 ^ 63) then Inl CDCInvalidCursorError
                    else Inr ()
                | _ \<Rightarrow> Inl CDCInvalidCursorError)
           | _ \<Rightarrow> Inl CDCInvalidCursorError)
      | _ \<Rightarrow> Inl CDCInvalidCursorError)"

definition resume_cdc_consumer ::
  "('w, 'd, 'c) natives \<Rightarrow> pyval \<Rightarrow> ('d fdb_client \<times> 'w, 'c) eff" where
  "resume_cdc_consumer nt cursor =
     thn (liftE (valid_cursor cursor))
       (translating (bnd (client_open nt) (\<lambda>db. outside (nt_resume nt db cursor))))"

definition remove_cdc_stream ::
  "('w, 'd, 'c) natives \<Rightarrow> pyval \<Rightarrow> ('d fdb_client \<times> 'w, unit) eff" where
  "remove_cdc_stream nt name = translating
     (bnd (client_open nt) (\<lambda>db.
      bnd (liftE (to_bytes name)) (\<lambda>raw.
      outside (nt_remove nt db raw))))"

definition list_cdc_streams ::
  "('w, 'd, 'c) natives \<Rightarrow> ('d fdb_client \<times> 'w, pyval list) eff" where
  "list_cdc_streams nt = translating
     (bnd (client_open nt) (\<lambda>db. outside (nt_list nt db)))"

definition get_read_version :: "('w, 'd, 'c) natives \<Rightarrow> ('d fdb_client \<times> 'w, int) eff" where
  "get_read_version nt =
     bnd (client_open nt) (\<lambda>db.
     case nt_cluster_read_version nt db of
       Some read \<Rightarrow> outside read
     | None \<Rightarrow> outside (nt_transaction_read_version nt db))"

text \<open>\<open>with client: m\<close>, which is \<open>__enter__\<close>, the block, and \<open>__exit__\<close> however the block ends.\<close>

definition client_context :: "('w, 'd, 'c) natives \<Rightarrow> ('d fdb_client \<times> 'w, 'a) eff \<Rightarrow> ('d fdb_client \<times> 'w, 'a) eff" where
  "client_context nt m = bnd (client_open nt) (\<lambda>_. finally_do m client_close)"

section \<open>Lemmas\<close>

lemma consume_failure_cases:
  "consume_failure e = CDCError \<and> native_error_code e = None \<or>
   (\<exists>c. native_error_code e = Some c \<and>
     (if c = 1211 then consume_failure e = CDCRetryableError (Some c)
      else if c = 1007 \<or> c = 2000 then consume_failure e = CDCTerminalError (Some c)
      else consume_failure e = e))"
  by (cases "native_error_code e") (simp_all add: consume_failure_def fdb_code_defs)

lemma to_bytes_Inr:
  "to_bytes v = Inr b \<longleftrightarrow> v = PBytes b \<or> (\<exists>s. v = PStr s \<and> utf8_encode s = Some b)"
  by (cases v) (auto split: option.splits)

lemma valid_cursor_Inr:
  "valid_cursor c = Inr () \<longleftrightarrow> (\<exists>s v. py_getattr c ''stream_id'' = Some (PInt s) \<and>
     py_getattr c ''last_consumed_version'' = Some (PInt v) \<and>
     0 \<le> s \<and> s < 2 ^ 64 \<and> - (2 ^ 63) \<le> v \<and> v < 2 ^ 63)"
  by (auto simp: valid_cursor_def split: option.splits pyval.splits)

lemma client_open_error: "client_open nt (c, w) = (Inl e, (c', w')) \<Longrightarrow> fc_db c = None \<and> c' = c"
  by (auto simp: client_open_def run_simps split: option.splits sum.splits prod.splits)

text \<open>The handle is released on every way out of the block, and when it was never opened.\<close>

lemma client_context_closes:
  "wp (client_context nt m) (\<lambda>_ t. fc_db (fst t) = None) (\<lambda>_ t. fc_db (fst t) = None) s"
proof -
  have block: "wp (finally_do m client_close) (\<lambda>_ t. fc_db (fst t) = None) (\<lambda>_ t. fc_db (fst t) = None) t" for t
    unfolding wp_finally by (rule wp_all) (simp_all add: client_close_def wp_simps)
  show ?thesis
    unfolding client_context_def wp_bnd
  proof (rule wp_I)
    show "fc_db (fst t) = None" if "client_open nt s = (Inl e, t)" for e t
      using that client_open_error [of nt "fst s" "snd s" e "fst t" "snd t"] by simp
  qed (rule block)
qed

end
