(* ===== verification/Listener.thy ===== *)
theory Listener
  imports Cdc_Client Key_Range Version_Group
begin

text \<open>
  \<open>FDBMutationListener\<close> of \<open>cdc/listener.py\<close>: its construction, the pure conversion of one native
  reply into records (\<open>records_of_reply\<close>), and the state machine of delivery and acknowledgement.
  A method is a computation over the listener object and the outside world. The lemmas give its
  invariant, what each method does on every branch, and that one reply at a time is outstanding.
\<close>

section \<open>One reply as records\<close>

fun group_records ::
  "protobuf \<Rightarrow> int \<Rightarrow> pystr \<Rightarrow> int \<Rightarrow> int \<Rightarrow> version_group list \<Rightarrow> exn + bytes list \<times> int" where
  "group_records pb max_record_bytes stream_name ts last_group_version [] =
     Inr ([], last_group_version)"
| "group_records pb max_record_bytes stream_name ts last_group_version (g # groups) =
     bindE (serialize_version_group pb (vg_mutations g) (PInt (vg_version g))
              (PInt max_record_bytes) (PStr stream_name) (PInt ts)) (\<lambda>records.
     bindE (group_records pb max_record_bytes stream_name ts (vg_version g) groups) (\<lambda>(rest, last).
     Inr (records @ rest, last)))"

definition watermark_records ::
  "protobuf \<Rightarrow> int \<Rightarrow> pystr \<Rightarrow> int \<Rightarrow> int \<Rightarrow> int \<Rightarrow> exn + bytes list" where
  "watermark_records pb max_record_bytes stream_name ts last_group_version watermark =
     (if watermark \<ge> 0 \<and> watermark > last_group_version
      then bindE (serialize_version_end pb (PInt watermark) (PInt 0) (PStr stream_name) (PInt ts))
        (\<lambda>watermark_record.
           if int (length watermark_record) > max_record_bytes
           then Inl (RecordTooLargeError None (length watermark_record) max_record_bytes)
           else Inr [watermark_record])
      else Inr [])"

definition records_of_reply ::
  "protobuf \<Rightarrow> int \<Rightarrow> pystr \<Rightarrow> int \<Rightarrow> native_reply \<Rightarrow> exn + pb_record list" where
  "records_of_reply pb max_record_bytes stream_name ts batch =
     bindE (group_records pb max_record_bytes stream_name ts (-1)
              (case nr_mutations batch of None \<Rightarrow> [] | Some groups \<Rightarrow> groups)) (\<lambda>(serialized, last).
     bindE (watermark_records pb max_record_bytes stream_name ts last
              (case nr_last_consumed_version batch of None \<Rightarrow> -1 | Some w \<Rightarrow> w)) (\<lambda>watermark.
     mapE (\<lambda>data. case ParseFromString pb data of
             None \<Rightarrow> Inl (OtherError None) | Some record \<Rightarrow> Inr record)
       (serialized @ watermark)))"

section \<open>The object\<close>

record ('d, 'c) listener =
  li_client :: "'d fdb_client"
  li_raw_stream_name :: bytes
  li_stream_name :: pystr
  li_key_range :: "(pyval \<times> pyval) option"
  li_initial_cursor :: "pyval option"
  li_max_record_bytes :: int
  li_resume_timeout_seconds :: pyfloat
  li_resume_poll_interval_seconds :: pyfloat
  li_consumer :: "'c option"
  li_is_closed :: bool
  li_awaiting_ack :: bool
  li_delivery_failed :: bool

definition check_seconds :: "pyval \<Rightarrow> exn + pyfloat" where
  "check_seconds v =
     (case py_float v of
        None \<Rightarrow> Inl TypeError
      | Some x \<Rightarrow> if py_le x py_zero then Inl ValueError else Inr x)"

definition new_listener ::
  "'d fdb_client \<Rightarrow> pyval \<Rightarrow> (pyval \<times> pyval) option \<Rightarrow> subspace option \<Rightarrow> pyval option \<Rightarrow> pyval \<Rightarrow>
     pyval \<Rightarrow> pyval \<Rightarrow> exn + ('d, 'c) listener" where
  "new_listener client stream_name key_range space cursor max_record_bytes
       resume_timeout_seconds resume_poll_interval_seconds =
     (if key_range \<noteq> None \<and> space \<noteq> None then Inl ValueError
      else bindE (case max_record_bytes of
               PInt n \<Rightarrow> if n < 1 then Inl ValueError else Inr n
             | _ \<Rightarrow> Inl TypeError) (\<lambda>mx.
       bindE (check_seconds resume_timeout_seconds) (\<lambda>timeout.
       bindE (check_seconds resume_poll_interval_seconds) (\<lambda>interval.
       bindE (to_bytes stream_name) (\<lambda>raw.
       bindE (case space of
                None \<Rightarrow> Inr key_range
              | Some sp \<Rightarrow> bindE (subspace_to_key_range sp) (\<lambda>(b, e).
                  Inr (Some (PBytes b, PBytes e)))) (\<lambda>range.
       bindE (to_double timeout) (\<lambda>timeout.
       bindE (to_double interval) (\<lambda>interval.
       Inr \<lparr>li_client = client, li_raw_stream_name = raw,
            li_stream_name = utf8_decode_replace raw, li_key_range = range,
            li_initial_cursor = cursor, li_max_record_bytes = mx,
            li_resume_timeout_seconds = timeout, li_resume_poll_interval_seconds = interval,
            li_consumer = None, li_is_closed = False, li_awaiting_ack = False,
            li_delivery_failed = False\<rparr>))))))))"

text \<open>A method of the client the listener owns.\<close>

definition on_client :: "('d fdb_client \<times> 'w, 'a) eff \<Rightarrow> (('d, 'c) listener \<times> 'w, 'a) eff" where
  "on_client m = zoom (\<lambda>(l, w). (li_client l, w)) (\<lambda>(c, w) (l, _). (l\<lparr>li_client := c\<rparr>, w)) m"

text \<open>
  A blocking native call. While it is parked another thread may run \<open>close()\<close>; its effect on the
  object is then visible when the call is over.
\<close>

definition blocking ::
  "('w, 'd, 'c) natives \<Rightarrow> ('w, 'a) eff \<Rightarrow> (('d, 'c) listener \<times> 'w, 'a) eff" where
  "blocking nt m = (\<lambda>s. case outside m s of (r, (l, w)) \<Rightarrow>
     (r, (if nt_closed_meanwhile nt w then l\<lparr>li_is_closed := True, li_consumer := None\<rparr> else l, w)))"

section \<open>Methods\<close>

text \<open>The property \<open>consumer\<close>; \<open>start\<close> is the method it calls on first access.\<close>

definition active_consumer ::
  "(('d, 'c) listener \<times> 'w, unit) eff \<Rightarrow> (('d, 'c) listener \<times> 'w, 'c option) eff" where
  "active_consumer start =
     bnd (self_gets id) (\<lambda>self.
     if li_is_closed self then raise CDCConsumerClosedError
     else case li_consumer self of
       None \<Rightarrow> thn start (self_gets li_consumer)
     | Some c \<Rightarrow> ret (Some c))"

text \<open>Calling a method of the consumer: it is \<open>None\<close> when the object was closed meanwhile.\<close>

definition on_handle :: "'c option \<Rightarrow> ('c \<Rightarrow> ('s, 'a) eff) \<Rightarrow> ('s, 'a) eff" where
  "on_handle handle f = (case handle of None \<Rightarrow> raise AttributeError | Some c \<Rightarrow> f c)"

fun cursor_version :: "pyval option \<Rightarrow> exn + int" where
  "cursor_version None = Inl AttributeError"
| "cursor_version (Some cursor) =
     (case py_getattr cursor ''last_consumed_version'' of
        None \<Rightarrow> Inl AttributeError
      | Some v \<Rightarrow> (case v of PInt n \<Rightarrow> Inr n | _ \<Rightarrow> Inl TypeError))"

fun wait_readable ::
  "('w, 'd, 'c) natives \<Rightarrow> int \<Rightarrow> pyfloat \<Rightarrow> pyfloat \<Rightarrow> nat \<Rightarrow> (('d, 'c) listener \<times> 'w, unit) eff"
where
  "wait_readable nt target deadline interval 0 = raise Diverges"
| "wait_readable nt target deadline interval (Suc fuel) =
     bnd (on_client (get_read_version nt)) (\<lambda>rv.
     if rv < target then
       bnd (outside (nt_monotonic nt)) (\<lambda>now.
       let remaining = py_minus deadline now in
       if py_le remaining py_zero then raise CDCInvalidCursorError
       else thn (outside (nt_sleep nt (py_min interval remaining)))
              (wait_readable nt target deadline interval fuel))
     else ret ())"

text \<open>
  In \<open>reconcile_resumed_consumer\<close> the consumer is set, or was taken away by a concurrent
  \<open>close()\<close>, which the property reports; it never starts again.
\<close>

definition reconcile_resumed_consumer ::
  "('w, 'd, 'c) natives \<Rightarrow> (('d, 'c) listener \<times> 'w, unit) eff" where
  "reconcile_resumed_consumer nt =
     bnd (self_gets id) (\<lambda>self.
     bnd (liftE (cursor_version (li_initial_cursor self))) (\<lambda>target_version.
     bnd (outside (nt_monotonic nt)) (\<lambda>now.
     let deadline = py_plus now (li_resume_timeout_seconds self) in
     thn (wait_readable nt target_version deadline (li_resume_poll_interval_seconds self)
            (nt_fuel nt))
       (catch
         (bnd (active_consumer (raise AssertionError)) (\<lambda>handle.
          on_handle handle (\<lambda>c. blocking nt (nt_acknowledge nt c))))
         is_Exception
         (\<lambda>exc. raise_consume_failure exc)))))"

definition listener_start :: "('w, 'd, 'c) natives \<Rightarrow> (('d, 'c) listener \<times> 'w, unit) eff" where
  "listener_start nt =
     bnd (self_gets id) (\<lambda>self.
     if li_consumer self \<noteq> None then ret ()
     else if li_is_closed self then raise CDCConsumerClosedError
     else
       bnd (on_client (client_open nt)) (\<lambda>_.
       bnd (case li_key_range self of
              None \<Rightarrow> ret ()
            | Some (begin_key, end_key) \<Rightarrow>
                bnd (on_client (register_cdc_stream nt (PBytes (li_raw_stream_name self))
                       begin_key end_key)) (\<lambda>_. ret ())) (\<lambda>_.
       case li_initial_cursor self of
          None \<Rightarrow>
            bnd (on_client (create_cdc_consumer nt (PBytes (li_raw_stream_name self)))) (\<lambda>c.
            self_modify (\<lambda>l. l\<lparr>li_consumer := Some c\<rparr>))
        | Some cursor \<Rightarrow>
            bnd (on_client (resume_cdc_consumer nt cursor)) (\<lambda>c.
            thn (self_modify (\<lambda>l. l\<lparr>li_consumer := Some c\<rparr>))
            (catch (reconcile_resumed_consumer nt) (\<lambda>_. True)
               (\<lambda>exc. thn (self_modify (\<lambda>l. l\<lparr>li_consumer := None\<rparr>))
                         (thn (outside (nt_close nt c)) (raise exc))))))))"

definition consumer :: "('w, 'd, 'c) natives \<Rightarrow> (('d, 'c) listener \<times> 'w, 'c option) eff" where
  "consumer nt = active_consumer (listener_start nt)"

definition consume_batch ::
  "('w, 'd, 'c) natives \<Rightarrow> (('d, 'c) listener \<times> 'w, native_reply) eff" where
  "consume_batch nt =
     bnd (self_gets id) (\<lambda>self.
     if li_delivery_failed self then raise CDCError
     else if li_awaiting_ack self then raise CDCError
     else catch
       (bnd (consumer nt) (\<lambda>handle. on_handle handle (\<lambda>c. blocking nt (nt_consume nt c))))
       is_Exception
       (\<lambda>exc. bnd (self_gets li_is_closed) (\<lambda>closed_now.
          if closed_now then raise CDCConsumerClosedError else raise_consume_failure exc)))"

definition poll_records ::
  "protobuf \<Rightarrow> ('w, 'd, 'c) natives \<Rightarrow> int option \<Rightarrow> (('d, 'c) listener \<times> 'w, pb_record list) eff"
where
  "poll_records pb nt bridge_timestamp_ns =
     bnd (consume_batch nt) (\<lambda>batch.
     thn (self_modify (\<lambda>l. l\<lparr>li_delivery_failed := True\<rparr>))
     (bnd (case bridge_timestamp_ns of
             None \<Rightarrow> outside (nt_time_ns nt) | Some ts \<Rightarrow> ret ts) (\<lambda>ts.
      bnd (self_gets id) (\<lambda>self.
      bnd (liftE (records_of_reply pb (li_max_record_bytes self) (li_stream_name self) ts batch))
        (\<lambda>records.
      thn (self_modify (\<lambda>l. l\<lparr>li_delivery_failed := False, li_awaiting_ack := records \<noteq> []\<rparr>))
        (ret records))))))"

definition listener_acknowledge ::
  "('w, 'd, 'c) natives \<Rightarrow> (('d, 'c) listener \<times> 'w, unit) eff" where
  "listener_acknowledge nt =
     bnd (self_gets id) (\<lambda>self.
     if li_is_closed self then raise CDCConsumerClosedError
     else if li_delivery_failed self then raise CDCError
     else if \<not> li_awaiting_ack self then raise CDCError
     else thn (catch
         (bnd (consumer nt) (\<lambda>handle. on_handle handle (\<lambda>c. blocking nt (nt_acknowledge nt c))))
         is_Exception
         (\<lambda>exc. bnd (self_gets li_is_closed) (\<lambda>closed_now.
            if closed_now then raise CDCConsumerClosedError else raise_consume_failure exc)))
       (self_modify (\<lambda>l. l\<lparr>li_awaiting_ack := False\<rparr>)))"

definition get_position :: "('w, 'd, 'c) natives \<Rightarrow> (('d, 'c) listener \<times> 'w, pyval) eff" where
  "get_position nt =
     bnd (consumer nt) (\<lambda>handle. on_handle handle (\<lambda>c. outside (nt_get_position nt c)))"

definition listener_close :: "('w, 'd, 'c) natives \<Rightarrow> (('d, 'c) listener \<times> 'w, unit) eff" where
  "listener_close nt =
     bnd (self_gets li_consumer) (\<lambda>handle.
     thn (self_modify (\<lambda>l. l\<lparr>li_is_closed := True, li_consumer := None\<rparr>))
     (case handle of None \<Rightarrow> ret () | Some c \<Rightarrow> outside (nt_close nt c)))"

definition listener_context ::
  "('w, 'd, 'c) natives \<Rightarrow> (('d, 'c) listener \<times> 'w, 'a) eff \<Rightarrow> (('d, 'c) listener \<times> 'w, 'a) eff" where
  "listener_context nt m = thn (listener_start nt) (finally_do m (listener_close nt))"

text \<open>Once the start is over, the listener is closed however the block ends.\<close>

lemma listener_context_closes:
  "wp (finally_do m (listener_close nt)) (\<lambda>_ t. li_is_closed (fst t) \<and> li_consumer (fst t) = None)
     (\<lambda>_ t. li_is_closed (fst t) \<and> li_consumer (fst t) = None) s"
  unfolding wp_finally by (rule wp_all; auto simp: listener_close_def wp_simps split: option.split intro!: wp_all)

section \<open>The invariant\<close>

definition listener_inv :: "('d, 'c) listener \<Rightarrow> bool" where
  "listener_inv l \<longleftrightarrow> (li_is_closed l \<longrightarrow> li_consumer l = None) \<and>
     \<not> (li_awaiting_ack l \<and> li_delivery_failed l)"

text \<open>What the inner methods leave alone: the delivery flags and the configuration.\<close>

definition kept :: "('d, 'c) listener \<Rightarrow> ('d, 'c) listener \<Rightarrow> bool" where
  "kept l l' \<longleftrightarrow> li_awaiting_ack l' = li_awaiting_ack l \<and>
     li_delivery_failed l' = li_delivery_failed l \<and>
     (li_is_closed l \<longrightarrow> li_is_closed l') \<and> (li_is_closed l' \<longrightarrow> li_consumer l' = None) \<and>
     li_stream_name l' = li_stream_name l \<and> li_max_record_bytes l' = li_max_record_bytes l"

lemma kept_refl: "listener_inv l \<Longrightarrow> kept l l"
  by (simp add: kept_def listener_inv_def)

lemma kept_trans: "kept l l' \<Longrightarrow> kept l' l'' \<Longrightarrow> kept l l''"
  by (auto simp: kept_def)

lemma kept_inv: "kept l l' \<Longrightarrow> listener_inv l \<Longrightarrow> listener_inv l'"
  by (auto simp: kept_def listener_inv_def)

lemma wp_on_client [wp_simps]:
  "wp (on_client m) Q E s \<longleftrightarrow>
     wp m (\<lambda>x t. Q x ((fst s)\<lparr>li_client := fst t\<rparr>, snd t))
       (\<lambda>e t. E e ((fst s)\<lparr>li_client := fst t\<rparr>, snd t)) (li_client (fst s), snd s)"
  by (simp add: on_client_def wp_simps case_prod_beta)

lemma wp_blocking [wp_simps]:
  "wp (blocking nt m) Q E s \<longleftrightarrow>
     (let after = (\<lambda>w. (if nt_closed_meanwhile nt w
        then (fst s)\<lparr>li_is_closed := True, li_consumer := None\<rparr> else fst s, w))
      in wp m (\<lambda>x w. Q x (after w)) (\<lambda>e w. E e (after w)) (snd s))"
  by (auto simp: blocking_def outside_def zoom_def wp_def Let_def split: sum.splits prod.splits)

text \<open>Rules for calls of which only the frame matters.\<close>

lemma wp_on_client_any:
  assumes "\<And>x c w. Q x ((fst s)\<lparr>li_client := c\<rparr>, w)" "\<And>e c w. E e ((fst s)\<lparr>li_client := c\<rparr>, w)"
  shows "wp (on_client m) Q E s"
  unfolding wp_on_client by (rule wp_all) (use assms in auto)

lemma wp_wait_readable_any:
  assumes "\<And>c w. Q () ((fst s)\<lparr>li_client := c\<rparr>, w)" "\<And>e c w. E e ((fst s)\<lparr>li_client := c\<rparr>, w)"
  shows "wp (wait_readable nt target deadline interval fuel) Q E s"
  using assms
proof (induction fuel arbitrary: s)
  case 0
  show ?case
    using 0(2) [of Diverges "li_client (fst s)" "snd s"] by (simp add: wp_simps)
next
  case (Suc fuel)
  have "wp (wait_readable nt target deadline interval fuel) Q E ((fst s)\<lparr>li_client := c\<rparr>, w)" for c w
    by (rule Suc.IH) (use Suc.prems in auto)
  then show ?case
    using Suc.prems
    by (auto simp: wp_simps Let_def intro!: wp_all wp_on_client_any)
qed

lemma wp_blocking_I:
  assumes "\<And>x w w' l'. m w = (Inr x, w') \<Longrightarrow>
      l' = fst s \<or> l' = (fst s)\<lparr>li_is_closed := True, li_consumer := None\<rparr> \<Longrightarrow> Q x (l', w')"
    and "\<And>e w w' l'. m w = (Inl e, w') \<Longrightarrow>
      l' = fst s \<or> l' = (fst s)\<lparr>li_is_closed := True, li_consumer := None\<rparr> \<Longrightarrow> E e (l', w')"
  shows "wp (blocking nt m) Q E s"
  unfolding wp_blocking Let_def by (rule wp_I) (auto intro: assms)

lemma wp_outside_any:
  assumes "\<And>x w. Q x (fst s, w)" "\<And>e w. E e (fst s, w)"
  shows "wp (outside m) Q E s"
  unfolding wp_outside by (rule wp_all) (use assms in auto)

lemmas wp_control = wp_ret wp_raise wp_bnd wp_thn wp_gets wp_modify wp_catch wp_liftE wp_if
  wp_option wp_self_gets wp_self_modify

lemmas any_call = wp_outside_any wp_on_client_any wp_wait_readable_any

lemma reconcile_kept:
  assumes "listener_inv (fst s)"
  shows "wp (reconcile_resumed_consumer nt) (\<lambda>_ t. kept (fst s) (fst t)) (\<lambda>_ t. kept (fst s) (fst t)) s"
  using assms
  by (auto simp: reconcile_resumed_consumer_def active_consumer_def on_handle_def
      raise_consume_failure_def wp_control Let_def kept_def listener_inv_def
      split: sum.split option.split intro!: any_call wp_blocking_I)

lemma kept_client: "kept l (l'\<lparr>li_client := c\<rparr>) \<longleftrightarrow> kept l l'"
  by (simp add: kept_def)

lemma attach_kept:
  assumes "kept l (fst s)" "\<not> li_is_closed (fst s)" "listener_inv l"
  shows "wp (thn (self_modify (\<lambda>l. l\<lparr>li_consumer := Some c\<rparr>))
      (catch (reconcile_resumed_consumer nt) (\<lambda>_. True)
        (\<lambda>exc. thn (self_modify (\<lambda>l. l\<lparr>li_consumer := None\<rparr>))
          (thn (outside (nt_close nt c)) (raise exc)))))
    (\<lambda>_ t. kept l (fst t)) (\<lambda>_ t. kept l (fst t)) s"
proof -
  let ?s = "((fst s)\<lparr>li_consumer := Some c\<rparr>, snd s)"
  have inv: "listener_inv (fst ?s)"
    using assms by (auto simp: kept_def listener_inv_def)
  have l: "kept l (fst ?s)"
    using assms by (auto simp: kept_def)
  have "wp (reconcile_resumed_consumer nt) (\<lambda>_ t. kept l (fst t))
      (\<lambda>exc t. wp (thn (self_modify (\<lambda>l. l\<lparr>li_consumer := None\<rparr>))
          (thn (outside (nt_close nt c)) (raise exc)))
        (\<lambda>_ t. kept l (fst t)) (\<lambda>_ t. kept l (fst t)) t) ?s"
    using reconcile_kept [OF inv]
  proof (rule wp_weaken)
    show "kept l (fst t)" if "kept (fst ?s) (fst t)" for t
      using l that by (rule kept_trans)
    show "wp (thn (self_modify (\<lambda>l. l\<lparr>li_consumer := None\<rparr>))
          (thn (outside (nt_close nt c)) (raise exc)))
        (\<lambda>_ t. kept l (fst t)) (\<lambda>_ t. kept l (fst t)) t" if "kept (fst ?s) (fst t)" for exc t
    proof -
      have "kept l ((fst t)\<lparr>li_consumer := None\<rparr>)"
        using kept_trans [OF l that] by (simp add: kept_def)
      then show ?thesis
        by (auto simp: wp_simps intro!: wp_all)
    qed
  qed
  then show ?thesis
    by (simp add: wp_catch wp_thn wp_self_modify)
qed

lemma start_kept:
  assumes "listener_inv (fst s)"
  shows "wp (listener_start nt) (\<lambda>_ t. kept (fst s) (fst t)) (\<lambda>_ t. kept (fst s) (fst t)) s"
  using assms
  by (auto simp: listener_start_def wp_bnd wp_self_gets wp_if wp_option wp_raise wp_ret
      wp_self_modify kept_refl kept_client
      split: option.split prod.split intro!: wp_on_client_any attach_kept)
    (auto simp: kept_def)

section \<open>What each method does\<close>

lemma consumer_kept:
  assumes "listener_inv (fst s)"
  shows "wp (consumer nt) (\<lambda>_ t. kept (fst s) (fst t)) (\<lambda>_ t. kept (fst s) (fst t)) s"
  using start_kept [OF assms, of nt] kept_refl [OF assms]
  by (auto simp: consumer_def active_consumer_def wp_control elim: wp_weaken split: option.split)

text \<open>A blocking call on the handle, with what the object looks like afterwards.\<close>

lemma kept_closed: "kept l l' \<Longrightarrow> kept l (l'\<lparr>li_is_closed := True, li_consumer := None\<rparr>)"
  by (simp add: kept_def)

lemma call_consumer:
  assumes "listener_inv (fst s)"
  shows "wp (bnd (consumer nt) (\<lambda>handle. on_handle handle (\<lambda>c. blocking nt (call c))))
    (\<lambda>x t. kept (fst s) (fst t) \<and> (\<exists>c w w'. call c w = (Inr x, w')))
    (\<lambda>_ t. kept (fst s) (fst t)) s"
proof -
  have "wp (on_handle handle (\<lambda>c. blocking nt (call c)))
    (\<lambda>x t. kept (fst s) (fst t) \<and> (\<exists>c w w'. call c w = (Inr x, w')))
    (\<lambda>_ t. kept (fst s) (fst t)) t" if "kept (fst s) (fst t)" for handle t
    using that by (cases handle)
      (auto simp: on_handle_def wp_control kept_closed intro!: wp_blocking_I)
  then show ?thesis
    unfolding wp_bnd by (rule wp_weaken [OF consumer_kept [OF assms]])
qed

lemma consume_effect:
  assumes "listener_inv (fst s)"
  shows "wp (consume_batch nt)
    (\<lambda>batch t. kept (fst s) (fst t) \<and> \<not> li_delivery_failed (fst s) \<and> \<not> li_awaiting_ack (fst s) \<and>
       (\<exists>c w w'. nt_consume nt c w = (Inr batch, w')))
    (\<lambda>_ t. kept (fst s) (fst t)) s"
  using call_consumer [OF assms, of nt "nt_consume nt"]
  by (auto simp: consume_batch_def wp_control raise_consume_failure_def kept_refl [OF assms]
      elim!: wp_weaken)

text \<open>After a failed poll either nothing was consumed or the reply is lost to this listener.\<close>

lemma poll_effect:
  assumes "listener_inv (fst s)"
  shows "wp (poll_records pb nt bts)
    (\<lambda>records t. listener_inv (fst t) \<and> \<not> li_delivery_failed (fst s) \<and> \<not> li_awaiting_ack (fst s) \<and>
       \<not> li_delivery_failed (fst t) \<and> (li_awaiting_ack (fst t) \<longleftrightarrow> records \<noteq> []) \<and>
       (li_is_closed (fst s) \<longrightarrow> li_is_closed (fst t)) \<and>
       (\<exists>c w w' batch ts. nt_consume nt c w = (Inr batch, w') \<and>
         records_of_reply pb (li_max_record_bytes (fst s)) (li_stream_name (fst s)) ts batch =
           Inr records))
    (\<lambda>_ t. listener_inv (fst t) \<and> (li_is_closed (fst s) \<longrightarrow> li_is_closed (fst t)) \<and>
       li_awaiting_ack (fst t) = li_awaiting_ack (fst s) \<and>
       (li_delivery_failed (fst s) \<longrightarrow> li_delivery_failed (fst t))) s"
  unfolding poll_records_def wp_bnd
  apply (rule wp_weaken [OF consume_effect [OF assms]])
  subgoal for batch t
    by (auto simp: wp_control kept_def listener_inv_def split: option.split sum.split
        intro!: wp_outside_any) blast+
  subgoal for e t
    by (auto intro: kept_inv [OF _ assms]) (auto simp: kept_def)
  done

lemma acknowledge_effect:
  assumes "listener_inv (fst s)"
  shows "wp (listener_acknowledge nt)
    (\<lambda>_ t. listener_inv (fst t) \<and> li_awaiting_ack (fst s) \<and> \<not> li_is_closed (fst s) \<and>
       \<not> li_awaiting_ack (fst t) \<and> \<not> li_delivery_failed (fst t) \<and>
       (\<exists>c w w'. nt_acknowledge nt c w = (Inr (), w')))
    (\<lambda>_ t. kept (fst s) (fst t)) s"
  using call_consumer [OF assms, of nt "nt_acknowledge nt"] assms
  by (auto simp: listener_acknowledge_def wp_control raise_consume_failure_def kept_refl [OF assms]
      elim!: wp_weaken)
    (auto simp: kept_def listener_inv_def)

lemma position_kept:
  assumes "listener_inv (fst s)"
  shows "wp (get_position nt) (\<lambda>_ t. kept (fst s) (fst t)) (\<lambda>_ t. kept (fst s) (fst t)) s"
  unfolding get_position_def wp_bnd
  by (rule wp_weaken [OF consumer_kept [OF assms]])
    (auto simp: on_handle_def wp_control intro!: wp_outside_any split: option.split)

lemma close_effect:
  "wp (listener_close nt)
    (\<lambda>_ t. fst t = (fst s)\<lparr>li_is_closed := True, li_consumer := None\<rparr>)
    (\<lambda>_ t. fst t = (fst s)\<lparr>li_is_closed := True, li_consumer := None\<rparr>) s"
  by (auto simp: listener_close_def wp_control intro!: wp_outside_any split: option.split)

section \<open>Executions\<close>

text \<open>Any sequence of method calls, each with the outcome the caller sees.\<close>

datatype listener_event =
    Started "exn option"
  | Polled "pb_record list"
  | PollFailed exn
  | Acked
  | AckFailed exn
  | Positioned "exn option"
  | Closed "exn option"

inductive listener_run ::
  "protobuf \<Rightarrow> ('w, 'd, 'c) natives \<Rightarrow> ('d, 'c) listener \<times> 'w \<Rightarrow> listener_event list \<Rightarrow>
     ('d, 'c) listener \<times> 'w \<Rightarrow> bool" for pb nt where
  Init: "listener_run pb nt s [] s"
| Start: "listener_run pb nt s es t \<Longrightarrow> listener_start nt t = (r, u) \<Longrightarrow>
    e = (case r of Inl x \<Rightarrow> Some x | Inr _ \<Rightarrow> None) \<Longrightarrow> listener_run pb nt s (es @ [Started e]) u"
| Poll: "listener_run pb nt s es t \<Longrightarrow> poll_records pb nt bts t = (Inr records, u) \<Longrightarrow>
    listener_run pb nt s (es @ [Polled records]) u"
| PollFail: "listener_run pb nt s es t \<Longrightarrow> poll_records pb nt bts t = (Inl x, u) \<Longrightarrow>
    listener_run pb nt s (es @ [PollFailed x]) u"
| Ack: "listener_run pb nt s es t \<Longrightarrow> listener_acknowledge nt t = (Inr (), u) \<Longrightarrow>
    listener_run pb nt s (es @ [Acked]) u"
| AckFail: "listener_run pb nt s es t \<Longrightarrow> listener_acknowledge nt t = (Inl x, u) \<Longrightarrow>
    listener_run pb nt s (es @ [AckFailed x]) u"
| Position: "listener_run pb nt s es t \<Longrightarrow> get_position nt t = (r, u) \<Longrightarrow>
    e = (case r of Inl x \<Rightarrow> Some x | Inr _ \<Rightarrow> None) \<Longrightarrow> listener_run pb nt s (es @ [Positioned e]) u"
| Close: "listener_run pb nt s es t \<Longrightarrow> listener_close nt t = (r, u) \<Longrightarrow>
    e = (case r of Inl x \<Rightarrow> Some x | Inr _ \<Rightarrow> None) \<Longrightarrow> listener_run pb nt s (es @ [Closed e]) u"

text \<open>
  The contract of the events: a reply is delivered only when none is outstanding, an
  acknowledgement succeeds only when one is, and it settles that reply.
\<close>

fun outstanding :: "bool \<Rightarrow> listener_event list \<Rightarrow> bool option" where
  "outstanding out [] = Some out"
| "outstanding out (Polled records # es) = (if out then None else outstanding (records \<noteq> []) es)"
| "outstanding out (Acked # es) = (if out then outstanding False es else None)"
| "outstanding out (_ # es) = outstanding out es"

lemma outstanding_append:
  "outstanding out (es @ fs) =
     (case outstanding out es of None \<Rightarrow> None | Some out' \<Rightarrow> outstanding out' fs)"
  by (induction out es rule: outstanding.induct) auto

lemma wp_run: "wp m Q E s \<Longrightarrow> m s = (r, t) \<Longrightarrow> (case r of Inl e \<Rightarrow> E e t | Inr x \<Rightarrow> Q x t)"
  by (simp add: wp_def split: sum.splits)

lemma listener_run_inv:
  assumes "listener_run pb nt s es t" "listener_inv (fst s)"
  shows "listener_inv (fst t) \<and>
    outstanding (li_awaiting_ack (fst s)) es = Some (li_awaiting_ack (fst t))"
  using assms
proof (induction rule: listener_run.induct)
  case (Start s es t r u e)
  then have "kept (fst t) (fst u)"
    using wp_run [OF start_kept Start.hyps(2)] by (auto split: sum.splits)
  with Start show ?case
    by (auto simp: outstanding_append kept_def listener_inv_def)
next
  case (Poll s es t bts records u)
  then show ?case
    using wp_run [OF poll_effect Poll.hyps(2)] by (auto simp: outstanding_append)
next
  case (PollFail s es t bts x u)
  then show ?case
    using wp_run [OF poll_effect PollFail.hyps(2)] by (auto simp: outstanding_append)
next
  case (Ack s es t u)
  then show ?case
    using wp_run [OF acknowledge_effect Ack.hyps(2)] by (auto simp: outstanding_append)
next
  case (AckFail s es t x u)
  then have "kept (fst t) (fst u)"
    using wp_run [OF acknowledge_effect AckFail.hyps(2)] by auto
  with AckFail show ?case
    by (auto simp: outstanding_append kept_def listener_inv_def)
next
  case (Position s es t r u e)
  then have "kept (fst t) (fst u)"
    using wp_run [OF position_kept Position.hyps(2)] by (auto split: sum.splits)
  with Position show ?case
    by (auto simp: outstanding_append kept_def listener_inv_def)
next
  case (Close s es t r u e)
  then show ?case
    using wp_run [OF close_effect Close.hyps(2)]
    by (auto simp: outstanding_append listener_inv_def split: sum.splits)
qed simp

text \<open>A listener whose last reply could not be serialized does nothing more.\<close>

lemma poisoned_poll:
  "li_delivery_failed (fst s) \<Longrightarrow> poll_records pb nt bts s = (Inl CDCError, s)"
  by (simp add: poll_records_def consume_batch_def run_simps)

lemma poisoned_acknowledge:
  "li_delivery_failed (fst s) \<Longrightarrow> \<exists>e. listener_acknowledge nt s = (Inl e, s)"
  by (simp add: listener_acknowledge_def run_simps)

lemma poisoned_run:
  assumes "listener_run pb nt s es t" "listener_inv (fst s)" "li_delivery_failed (fst s)"
  shows "li_delivery_failed (fst t) \<and> Acked \<notin> set es \<and> (\<forall>records. Polled records \<notin> set es)"
  using assms
proof (induction rule: listener_run.induct)
  case (Start s es t r u e)
  then have "kept (fst t) (fst u)"
    using listener_run_inv [OF Start.hyps(1)] wp_run [OF start_kept Start.hyps(2)]
    by (auto split: sum.splits)
  with Start show ?case by (auto simp: kept_def)
next
  case (Position s es t r u e)
  then have "kept (fst t) (fst u)"
    using listener_run_inv [OF Position.hyps(1)] wp_run [OF position_kept Position.hyps(2)]
    by (auto split: sum.splits)
  with Position show ?case by (auto simp: kept_def)
next
  case (Poll s es t bts records u)
  then show ?case by (simp add: poisoned_poll)
next
  case (PollFail s es t bts x u)
  then show ?case by (simp add: poisoned_poll)
next
  case (Ack s es t u)
  then show ?case using poisoned_acknowledge [of t nt] by auto
next
  case (AckFail s es t x u)
  then show ?case using poisoned_acknowledge [of t nt] by auto
next
  case (Close s es t r u e)
  then show ?case
    using wp_run [OF close_effect Close.hyps(2)] by (auto split: sum.splits)
qed simp

section \<open>The records of one reply\<close>

lemma deserialize_parse:
  "deserialize_record pb (PBytes d) = Inr r \<Longrightarrow>
     \<exists>msg. ParseFromString pb d = Some msg \<and> des_body msg = Inr (rec_body r)"
  by (auto simp: deserialize_record.simps result_simps split: option.splits)

lemma mapE_Inr_append:
  "mapE f (xs @ ys) = Inr zs \<longleftrightarrow> (\<exists>us vs. mapE f xs = Inr us \<and> mapE f ys = Inr vs \<and> zs = us @ vs)"
  by (auto simp: mapE_append result_simps)

text \<open>The native mutations of a version group, checked.\<close>

definition group_natives :: "version_group \<Rightarrow> (int \<times> bytes \<times> bytes) list \<Rightarrow> bool" where
  "group_natives g ns \<longleftrightarrow> (\<exists>items. vg_mutations g = Yields items None \<and> list_all2 native_of items ns)"

definition tagged_groups ::
  "version_group list \<Rightarrow> (int \<times> bytes \<times> bytes) list list \<Rightarrow> mutation list" where
  "tagged_groups groups nss = concat (map2 (\<lambda>g ns. tagged (vg_version g) 0 ns) groups nss)"

definition last_version :: "int \<Rightarrow> version_group list \<Rightarrow> int" where
  "last_version v groups = (if groups = [] then v else vg_version (last groups))"

lemma group_records_decode:
  assumes "protobuf_runtime pb"
    and "group_records pb mx n ts l0 groups = Inr (datas, l)" "list_all2 group_natives groups nss"
    and "mx < 2 ^ 31"
  shows "\<exists>outs. mapE (\<lambda>d. deserialize_record pb (PBytes d)) datas = Inr outs \<and>
    records_mutations outs = tagged_groups groups nss \<and> l = last_version l0 groups \<and>
    (groups = [] \<longrightarrow> outs = []) \<and>
    (groups \<noteq> [] \<longrightarrow> outs \<noteq> [] \<and> (\<exists>e. rec_body (last outs) = BodyVersionEnd e \<and> ve_fdb_version e = l))"
  using assms(2,3)
proof (induction groups arbitrary: l0 datas l nss)
  case Nil
  then show ?case
    by (simp add: records_mutations_def tagged_groups_def last_version_def)
next
  case (Cons g groups)
  from Cons.prems obtain records rest ns nss' where
    first: "serialize_version_group pb (vg_mutations g) (PInt (vg_version g)) (PInt mx) (PStr n)
      (PInt ts) = Inr records"
    and rest: "group_records pb mx n ts (vg_version g) groups = Inr (rest, l)"
    and datas: "datas = records @ rest"
    and nss: "nss = ns # nss'" "group_natives g ns" "list_all2 group_natives groups nss'"
    by (auto simp: result_simps list_all2_Cons1)
  from nss(2) obtain items where items: "vg_mutations g = Yields items None" "list_all2 native_of items ns"
    by (auto simp: group_natives_def)
  obtain outs ve where decoded: "mapE (\<lambda>d. deserialize_record pb (PBytes d)) records = Inr (outs @ [ve])"
    "records_mutations outs = tagged (vg_version g) 0 ns"
    "\<exists>e. rec_body ve = BodyVersionEnd e \<and> ve_fdb_version e = vg_version g"
    using protobuf_runtime.group_roundtrip [OF assms(1) first [unfolded items(1)] items(2) assms(4)]
    by auto
  obtain outs' where tail: "mapE (\<lambda>d. deserialize_record pb (PBytes d)) rest = Inr outs'"
    "records_mutations outs' = tagged_groups groups nss'" "l = last_version (vg_version g) groups"
    "groups = [] \<longrightarrow> outs' = []"
    "groups \<noteq> [] \<longrightarrow> outs' \<noteq> [] \<and>
      (\<exists>e. rec_body (last outs') = BodyVersionEnd e \<and> ve_fdb_version e = l)"
    using Cons.IH [OF rest nss(3)] by blast
  have "records_mutations (outs @ [ve] @ outs') = tagged_groups (g # groups) nss"
    using decoded tail by (auto simp: records_mutations_def tagged_groups_def nss(1))
  moreover have "mapE (\<lambda>d. deserialize_record pb (PBytes d)) datas = Inr (outs @ [ve] @ outs')"
    using decoded(1) tail(1) by (auto simp: datas mapE_Inr_append)
  ultimately show ?case
    using decoded(3) tail(3-5)
    by (intro exI [of _ "outs @ [ve] @ outs'"]) (auto simp: last_version_def)
qed

lemma group_records_version:
  "group_records pb mx n ts l0 groups = Inr (datas, l) \<Longrightarrow> groups \<noteq> [] \<Longrightarrow> 0 \<le> l"
proof (induction groups arbitrary: l0 datas l)
  case (Cons g groups)
  then have "0 \<le> vg_version g"
    by (auto simp: result_simps serialize_version_group_Inr valid_version_def)
  with Cons show ?case
    by (cases "groups = []") (auto simp: result_simps)
qed simp

lemma watermark_decode:
  assumes "protobuf_runtime pb" "watermark_records pb mx n ts l0 w = Inr datas" "mx < 2 ^ 31"
  shows "if 0 \<le> w \<and> l0 < w
    then \<exists>out e. mapE (\<lambda>d. deserialize_record pb (PBytes d)) datas = Inr [out] \<and>
      rec_body out = BodyVersionEnd e \<and> ve_fdb_version e = w \<and> ve_total_mutations e = 0
    else datas = []"
proof (cases "0 \<le> w \<and> l0 < w")
  case True
  then obtain d where d: "serialize_version_end pb (PInt w) (PInt 0) (PStr n) (PInt ts) = Inr d"
    "int (length d) \<le> mx" "datas = [d]"
    using assms(2) by (auto simp: watermark_records_def result_simps split: if_splits)
  then have "length d < 2 ^ 31"
    using assms(3) by simp
  from protobuf_runtime.version_end_roundtrip [OF assms(1) d(1) this] d True show ?thesis
    by auto
qed (use assms(2) in \<open>auto simp: watermark_records_def\<close>)

text \<open>The version a reply brings the stream to: its watermark or its last group's version.\<close>

definition reply_progress :: "native_reply \<Rightarrow> int" where
  "reply_progress batch =
     max (last_version (-1) (case nr_mutations batch of None \<Rightarrow> [] | Some gs \<Rightarrow> gs))
       (case nr_last_consumed_version batch of None \<Rightarrow> -1 | Some w \<Rightarrow> w)"

definition parse_record :: "protobuf \<Rightarrow> bytes \<Rightarrow> exn + pb_record" where
  "parse_record pb d =
     (case ParseFromString pb d of None \<Rightarrow> Inl (OtherError None) | Some record \<Rightarrow> Inr record)"

lemma records_of_reply_eq:
  "records_of_reply pb mx n ts batch =
     bindE (group_records pb mx n ts (-1)
              (case nr_mutations batch of None \<Rightarrow> [] | Some groups \<Rightarrow> groups)) (\<lambda>(serialized, last).
     bindE (watermark_records pb mx n ts last
              (case nr_last_consumed_version batch of None \<Rightarrow> -1 | Some w \<Rightarrow> w)) (\<lambda>watermark.
     mapE (parse_record pb) (serialized @ watermark)))"
  unfolding records_of_reply_def parse_record_def ..

lemma parsed_bodies:
  "mapE (\<lambda>d. deserialize_record pb (PBytes d)) datas = Inr outs \<Longrightarrow>
     \<exists>records. mapE (parse_record pb) datas = Inr records \<and> mapE des_body records = Inr (map rec_body outs)"
proof (induction datas arbitrary: outs)
  case (Cons d datas)
  then show ?case
    by (auto simp: result_simps parse_record_def dest!: deserialize_parse)
qed simp

end
