(* ===== verification/Bridge_Core.thy ===== *)
theory Bridge_Core
  imports Reply_Source Listener Cursor_File
begin

text \<open>
  The pipeline on the models of its collaborators: the listener (through \<open>_RecordCountingListener\<close>),
  the producer and the cursor file. They satisfy the contract of \<open>Reply_Source\<close>, so what is proved
  there of every pipeline holds of this one.
\<close>

section \<open>The collaborators\<close>

record ('d, 'c, 'h) parts =
  pa_listener :: "('d, 'c) listener"
  pa_last_records :: "pb_record list"
  pa_producer :: "'h producer"

type_synonym ('d, 'c, 'h, 'w) system = "('d, 'c, 'h) parts \<times> 'w"

definition on_listener ::
  "(('d, 'c) listener \<times> 'w, 'a) eff \<Rightarrow> (('d, 'c, 'h) parts \<times> 'w, 'a) eff" where
  "on_listener m = zoom (\<lambda>s. (pa_listener (fst s), snd s))
     (\<lambda>t s. ((fst s)\<lparr>pa_listener := fst t\<rparr>, snd t)) m"

definition on_kafka ::
  "('h producer \<times> 'w, 'a) eff \<Rightarrow> (('d, 'c, 'h) parts \<times> 'w, 'a) eff" where
  "on_kafka m = zoom (\<lambda>s. (pa_producer (fst s), snd s))
     (\<lambda>t s. ((fst s)\<lparr>pa_producer := fst t\<rparr>, snd t)) m"

text \<open>\<open>_RecordCountingListener\<close>: the records of the latest successful poll are kept for the metrics.\<close>

definition counting_poll ::
  "protobuf \<Rightarrow> ('w, 'd, 'c) natives \<Rightarrow> (('d, 'c, 'h) parts \<times> 'w, pb_record list) eff" where
  "counting_poll pb nt =
     bnd (on_listener (poll_records pb nt None)) (\<lambda>records.
     thn (self_modify (\<lambda>p. p\<lparr>pa_last_records := records\<rparr>)) (ret records))"

definition pop_last_records :: "(('d, 'c, 'h) parts \<times> 'w, pb_record list) eff" where
  "pop_last_records =
     bnd (self_gets pa_last_records) (\<lambda>records.
     thn (self_modify (\<lambda>p. p\<lparr>pa_last_records := []\<rparr>)) (ret records))"

text \<open>
  The calls of the pipeline \<open>Bridge._build_pipeline\<close> makes; the checkpoint callback saves the cursor
  under the stream's name. Calls that pass no timeout use the callee's default.
\<close>

definition bridge_ports ::
  "protobuf \<Rightarrow> ('w, 'd, 'c) natives \<Rightarrow> ('w, 'h) rdkafka \<Rightarrow> 'w os_calls \<Rightarrow> pystr option \<Rightarrow> pystr \<Rightarrow>
     ('d, 'c, 'h, 'w) system ports" where
  "bridge_ports pb nt rk os cursor_file stream_name =
     \<lparr>pt_poll_records = counting_poll pb nt,
      pt_get_position = on_listener (get_position nt),
      pt_acknowledge = on_listener (listener_acknowledge nt),
      pt_checkpoint = (\<lambda>position. outside (save_cursor_to_file os cursor_file position (Some stream_name))),
      pt_transactional = (\<lambda>s. mp_transactional (pa_producer (fst s))),
      pt_begin_transaction = on_kafka (begin_transaction rk),
      pt_produce = (\<lambda>topic record key. on_kafka (produce pb rk topic record (Some key))),
      pt_commit_transaction = on_kafka (commit_transaction rk (Finite 30)),
      pt_abort_transaction = on_kafka (abort_transaction rk (Finite 30)),
      pt_flush_or_raise = (\<lambda>timeout. on_kafka (flush_or_raise rk timeout)),
      pt_close = on_kafka (producer_close rk (Finite 10)),
      pt_mark_fatal = on_kafka mark_fatal,
      pt_sleep = (\<lambda>delay. outside (nt_sleep nt delay))\<rparr>"

section \<open>They keep the pipeline's contract\<close>

definition good_parts :: "('d, 'c, 'h, 'w) system \<Rightarrow> bool" where
  "good_parts s \<longleftrightarrow> listener_inv (pa_listener (fst s)) \<and> producer_inv (pa_producer (fst s))"

definition reply_pending :: "('d, 'c, 'h, 'w) system \<Rightarrow> bool" where
  "reply_pending s \<longleftrightarrow> li_awaiting_ack (pa_listener (fst s))"

lemmas parts_defs = good_parts_def reply_pending_def

lemma wp_on_listener [wp_simps]:
  "wp (on_listener m) Q E s \<longleftrightarrow>
     wp m (\<lambda>x t. Q x ((fst s)\<lparr>pa_listener := fst t\<rparr>, snd t))
       (\<lambda>e t. E e ((fst s)\<lparr>pa_listener := fst t\<rparr>, snd t)) (pa_listener (fst s), snd s)"
  by (simp add: on_listener_def wp_zoom)

lemma wp_on_kafka [wp_simps]:
  "wp (on_kafka m) Q E s \<longleftrightarrow>
     wp m (\<lambda>x t. Q x ((fst s)\<lparr>pa_producer := fst t\<rparr>, snd t))
       (\<lambda>e t. E e ((fst s)\<lparr>pa_producer := fst t\<rparr>, snd t)) (pa_producer (fst s), snd s)"
  by (simp add: on_kafka_def wp_zoom)

lemma world_keeps: "keeps good_parts reply_pending (outside m)"
  by (rule keepsI) (auto simp: wp_outside parts_defs intro!: wp_all)

lemma method_keeps:
  fixes rk :: "('w, 'h) rdkafka"
  shows "keeps good_parts reply_pending (on_kafka (call_method pb rk m))"
proof (rule keepsI)
  fix s :: "('d, 'c, 'h, 'w) system"
  assume "good_parts s"
  then have "producer_inv (fst (pa_producer (fst s), snd s))"
    by (simp add: good_parts_def)
  note effect = call_effect [OF this, of pb rk m]
  show "wp (on_kafka (call_method pb rk m)) (\<lambda>_ t. good_parts t \<and> reply_pending t = reply_pending s)
      (\<lambda>_ t. good_parts t \<and> reply_pending t = reply_pending s) s"
    unfolding wp_on_kafka
    by (rule wp_weaken [OF effect]) (use \<open>good_parts s\<close> in \<open>auto simp: parts_defs ok_post_def err_post_def\<close>)
qed

lemmas producer_calls_keep =
  method_keeps [of _ _ BeginTransaction, simplified] method_keeps [of _ _ "Produce _ _ _", simplified]
  method_keeps [of _ _ "CommitTransaction _", simplified] method_keeps [of _ _ "AbortTransaction _", simplified]
  method_keeps [of _ _ "FlushOrRaise _", simplified] method_keeps [of _ _ "Close _", simplified]
  method_keeps [of _ _ MarkFatal, simplified]

lemma get_position_keeps:
  fixes nt :: "('w, 'd, 'c) natives"
  shows "keeps good_parts reply_pending (on_listener (get_position nt))"
proof (rule keepsI)
  fix s :: "('d, 'c, 'h, 'w) system"
  assume good: "good_parts s"
  then have inv: "listener_inv (fst (pa_listener (fst s), snd s))"
    by (simp add: good_parts_def)
  show "wp (on_listener (get_position nt)) (\<lambda>_ t. good_parts t \<and> reply_pending t = reply_pending s)
      (\<lambda>_ t. good_parts t \<and> reply_pending t = reply_pending s) s"
    unfolding wp_on_listener
    by (rule wp_weaken [OF position_kept [OF inv]])
      (use good inv kept_inv in \<open>auto simp: parts_defs, auto simp: kept_def\<close>)
qed

lemma counting_poll_effect:
  assumes "good_parts s"
  shows "wp (counting_poll pb nt)
    (\<lambda>records t. good_parts t \<and> \<not> reply_pending s \<and> (reply_pending t \<longleftrightarrow> records \<noteq> []))
    (\<lambda>_ t. good_parts t \<and> reply_pending t = reply_pending s) s"
proof -
  have inv: "listener_inv (fst (pa_listener (fst s), snd s))"
    using assms by (simp add: good_parts_def)
  show ?thesis
    unfolding counting_poll_def wp_bnd wp_on_listener
    by (rule wp_weaken [OF poll_effect [OF inv]])
      (use assms in \<open>auto simp: parts_defs wp_thn wp_self_modify wp_ret\<close>)
qed

lemma acknowledge_parts_effect:
  assumes "good_parts s"
  shows "wp (on_listener (listener_acknowledge nt))
    (\<lambda>_ t. good_parts t \<and> \<not> reply_pending t) (\<lambda>_ t. good_parts t \<and> reply_pending t = reply_pending s) s"
proof -
  have inv: "listener_inv (fst (pa_listener (fst s), snd s))"
    using assms by (simp add: good_parts_def)
  show ?thesis
    unfolding wp_on_listener
    by (rule wp_weaken [OF acknowledge_effect [OF inv]])
      (use assms inv kept_inv in \<open>auto simp: parts_defs, auto simp: kept_def\<close>)
qed

lemma bridge_ports_simps [simp]:
  "pt_poll_records (bridge_ports pb nt rk os cf sn) = counting_poll pb nt"
  "pt_get_position (bridge_ports pb nt rk os cf sn) = on_listener (get_position nt)"
  "pt_acknowledge (bridge_ports pb nt rk os cf sn) = on_listener (listener_acknowledge nt)"
  "pt_checkpoint (bridge_ports pb nt rk os cf sn) position =
     outside (save_cursor_to_file os cf position (Some sn))"
  "pt_transactional (bridge_ports pb nt rk os cf sn) s = mp_transactional (pa_producer (fst s))"
  "pt_begin_transaction (bridge_ports pb nt rk os cf sn) = on_kafka (begin_transaction rk)"
  "pt_produce (bridge_ports pb nt rk os cf sn) topic record key =
     on_kafka (produce pb rk topic record (Some key))"
  "pt_commit_transaction (bridge_ports pb nt rk os cf sn) = on_kafka (commit_transaction rk (Finite 30))"
  "pt_abort_transaction (bridge_ports pb nt rk os cf sn) = on_kafka (abort_transaction rk (Finite 30))"
  "pt_flush_or_raise (bridge_ports pb nt rk os cf sn) timeout = on_kafka (flush_or_raise rk timeout)"
  "pt_close (bridge_ports pb nt rk os cf sn) = on_kafka (producer_close rk (Finite 10))"
  "pt_mark_fatal (bridge_ports pb nt rk os cf sn) = on_kafka mark_fatal"
  "pt_sleep (bridge_ports pb nt rk os cf sn) delay = outside (nt_sleep nt delay)"
  by (simp_all add: bridge_ports_def)

interpretation bridge: reply_source "bridge_ports pb nt rk os cursor_file stream_name" good_parts reply_pending
  for pb nt rk os cursor_file stream_name
proof (unfold_locales, goal_cases)
  case (1 s records t)
  from wp_InrD [OF counting_poll_effect [OF 1(1)] 1(2) [unfolded bridge_ports_simps]] show ?case .
next
  case (2 s e t)
  from wp_InlD [OF counting_poll_effect [OF 2(1)] 2(2) [unfolded bridge_ports_simps]] show ?case .
next
  case (3 s u t)
  from wp_InrD [OF acknowledge_parts_effect [OF 3(1)] 3(2) [unfolded bridge_ports_simps]] show ?case .
next
  case (4 s e t)
  from wp_InlD [OF acknowledge_parts_effect [OF 4(1)] 4(2) [unfolded bridge_ports_simps]] show ?case .
qed (simp_all only: bridge_ports_simps get_position_keeps world_keeps producer_calls_keep)

end
