(* ===== verification/Bridge.thy ===== *)
theory Bridge
  imports Bridge_Core Config
begin

text \<open>
  \<open>Bridge\<close> of \<open>bridge/pipeline.py\<close>, the daemon: it builds the client, the listener, the producer and
  the pipeline from the configuration, runs the pipeline in a loop that backs off and rebuilds after
  errors, and closes everything on \<open>stop\<close>. The run thread is modelled step by step; what other
  threads do while it does not hold the step lock is read from the environment at each of those
  points (\<open>en_others\<close>). While \<open>stop\<close> waits for the lock the run thread may still be in a round of its
  loop: the environment says whether it is, and with which backoff and rebuild it got there
  (\<open>en_acquire\<close>); what the round does is the modelled code (\<open>round_in_flight\<close>).
\<close>

section \<open>The object\<close>

record metrics =
  bm_mutations_published :: nat
  bm_records_published :: nat
  bm_batches_acked :: nat
  bm_errors_retried :: nat

text \<open>
  Two fields are no attributes of the source. \<open>br_shared\<close> says that the listener's client is the object
  \<open>self._client\<close>, so that both see the handle the listener opens. \<open>br_released\<close> holds the objects that
  \<open>stop\<close> has let go of, in the state in which whoever handed them to the bridge still sees them.
\<close>

record ('d, 'c, 'h) handles =
  hd_producer :: "'h producer option"
  hd_listener :: "('d, 'c) listener option"
  hd_client :: "'d fdb_client option"

definition nothing_released :: "('d, 'c, 'h) handles" where
  "nothing_released = \<lparr>hd_producer = None, hd_listener = None, hd_client = None\<rparr>"

record ('d, 'c, 'h, 'w) bridge =
  br_config :: bridge_config
  br_shutdown_requested :: bool
  br_metrics :: metrics
  br_client :: "'d fdb_client option"
  br_listener :: "('d, 'c) listener option"
  br_producer :: "'h producer option"
  br_producer_factory :: "('w, 'h producer) eff"
  br_pipeline :: "pipeline option"
  br_counted :: "pb_record list option"
  br_shared :: bool
  br_released :: "('d, 'c, 'h) handles"

text \<open>
  \<open>en_acquire\<close> is the wait of \<open>stop\<close> for the step lock: the backoff and \<open>rebuild_pending\<close> of the round
  that the run thread finishes meanwhile, if it is in one, and whether the lock was free in time.
\<close>

text \<open>What another thread did: nothing, \<open>request_shutdown()\<close>, or a whole \<open>stop()\<close> under the lock.\<close>

datatype interference = Nothing | Requested | Stopped

record ('d, 'c, 'h, 'w) environment =
  en_pb :: protobuf
  en_natives :: "('w, 'd, 'c) natives"
  en_rdkafka :: "('w, 'h) rdkafka"
  en_os :: "'w os_calls"
  en_native_cursor :: "(int \<Rightarrow> int \<Rightarrow> ('w, pyval) eff) option"
  en_wait :: "pyfloat \<Rightarrow> ('w, unit) eff"
  en_others :: "'w \<Rightarrow> interference \<times> 'w"
  en_acquire :: "pyfloat \<Rightarrow> ('w, (pyfloat \<times> bool) option \<times> bool) eff"

definition fresh_metrics :: metrics where
  "fresh_metrics = \<lparr>bm_mutations_published = 0, bm_records_published = 0, bm_batches_acked = 0,
     bm_errors_retried = 0\<rparr>"

definition producer_from_config :: "('w, 'h) rdkafka \<Rightarrow> bridge_config \<Rightarrow> ('w, 'h producer) eff" where
  "producer_from_config rk config =
     new_producer rk (cf_bootstrap_servers (cf_kafka config)) [] (cf_transactional_id (cf_kafka config))"

definition new_bridge ::
  "('w, 'h) rdkafka \<Rightarrow> bridge_config \<Rightarrow> 'd fdb_client option \<Rightarrow> ('d, 'c) listener option \<Rightarrow> bool \<Rightarrow>
     'h producer option \<Rightarrow> ('w, 'h producer) eff option \<Rightarrow> exn + ('d, 'c, 'h, 'w) bridge" where
  "new_bridge rk config client lis shared producer producer_factory =
     (if (case producer of None \<Rightarrow> False | Some p \<Rightarrow> mp_transactional p) \<and> producer_factory = None \<and>
         cf_transactional_id (cf_kafka config) = None
      then Inl ValueError
      else Inr \<lparr>br_config = config, br_shutdown_requested = False, br_metrics = fresh_metrics,
        br_client = client, br_listener = lis, br_producer = producer,
        br_producer_factory =
          (case producer_factory of None \<Rightarrow> producer_from_config rk config | Some f \<Rightarrow> f),
        br_pipeline = None, br_counted = None, br_shared = shared,
        br_released = nothing_released\<rparr>)"

section \<open>Methods of the parts\<close>

definition on_bridge_client ::
  "('d fdb_client \<times> 'w, 'a) eff \<Rightarrow> (('d, 'c, 'h, 'w) bridge \<times> 'w, 'a) eff" where
  "on_bridge_client m =
     bnd (self_gets br_client) (\<lambda>client. case client of
       None \<Rightarrow> raise AttributeError
     | Some c \<Rightarrow> zoom (\<lambda>s. (c, snd s)) (\<lambda>t s. ((fst s)\<lparr>br_client := Some (fst t)\<rparr>, snd t)) m)"

definition put_listener :: "('d, 'c) listener \<Rightarrow> ('d, 'c, 'h, 'w) bridge \<Rightarrow> ('d, 'c, 'h, 'w) bridge" where
  "put_listener l b = b\<lparr>br_listener := Some l,
     br_client := (if br_shared b then Some (li_client l) else br_client b)\<rparr>"

definition on_bridge_listener ::
  "(('d, 'c) listener \<times> 'w, 'a) eff \<Rightarrow> (('d, 'c, 'h, 'w) bridge \<times> 'w, 'a) eff" where
  "on_bridge_listener m =
     bnd (self_gets br_listener) (\<lambda>lis. case lis of
       None \<Rightarrow> raise AttributeError
     | Some l \<Rightarrow> zoom (\<lambda>s. (l, snd s)) (\<lambda>t s. (put_listener (fst t) (fst s), snd t)) m)"

definition on_bridge_producer ::
  "('h producer \<times> 'w, 'a) eff \<Rightarrow> (('d, 'c, 'h, 'w) bridge \<times> 'w, 'a) eff" where
  "on_bridge_producer m =
     bnd (self_gets br_producer) (\<lambda>producer. case producer of
       None \<Rightarrow> raise AttributeError
     | Some p \<Rightarrow> zoom (\<lambda>s. (p, snd s)) (\<lambda>t s. ((fst s)\<lparr>br_producer := Some (fst t)\<rparr>, snd t)) m)"

text \<open>
  The pipeline holds the counting listener and the producer. Whenever it is set they are the bridge's
  own, so it runs on them.
\<close>

definition on_pipeline ::
  "(pipeline \<times> ('d, 'c, 'h, 'w) system, 'a) eff \<Rightarrow> (('d, 'c, 'h, 'w) bridge \<times> 'w, 'a) eff" where
  "on_pipeline m =
     bnd (self_gets id) (\<lambda>self.
     case (br_pipeline self, br_listener self, br_producer self, br_counted self) of
       (Some q, Some l, Some p, Some records) \<Rightarrow>
         zoom (\<lambda>s. (q, (\<lparr>pa_listener = l, pa_last_records = records, pa_producer = p\<rparr>, snd s)))
           (\<lambda>t s. case t of (q', (parts', w')) \<Rightarrow>
              ((put_listener (pa_listener parts') (fst s))\<lparr>br_producer := Some (pa_producer parts'),
                 br_counted := Some (pa_last_records parts'), br_pipeline := Some q'\<rparr>, w')) m
     | _ \<Rightarrow> raise AttributeError)"

definition ports_of :: "('d, 'c, 'h, 'w) environment \<Rightarrow> bridge_config \<Rightarrow> ('d, 'c, 'h, 'w) system ports" where
  "ports_of env config = bridge_ports (en_pb env) (en_natives env) (en_rdkafka env) (en_os env)
     (cf_cursor_file (cf_cdc config)) (cf_stream_name (cf_cdc config))"

definition bridge_step :: "('d, 'c, 'h, 'w) environment \<Rightarrow> (('d, 'c, 'h, 'w) bridge \<times> 'w, nat) eff" where
  "bridge_step env =
     bnd (self_gets br_config) (\<lambda>config. on_pipeline (pipeline_step (ports_of env config)))"

section \<open>Building and discarding\<close>

definition discard_listener_and_producer ::
  "('d, 'c, 'h, 'w) environment \<Rightarrow> (('d, 'c, 'h, 'w) bridge \<times> 'w, unit) eff" where
  "discard_listener_and_producer env =
     bnd (self_gets id) (\<lambda>self.
     thn (self_modify (\<lambda>b. b\<lparr>br_pipeline := None, br_counted := None\<rparr>))
     (thn (if br_listener self \<noteq> None
           then thn (ignoring (on_bridge_listener (listener_close (en_natives env))))
                  (self_modify (\<lambda>b. b\<lparr>br_listener := None\<rparr>))
           else ret ())
          (if br_producer self \<noteq> None
           then thn (ignoring (on_bridge_producer (producer_close (en_rdkafka env)
                    (cf_shutdown_timeout_seconds (cf_pipeline (br_config self))))))
                  (self_modify (\<lambda>b. b\<lparr>br_producer := None\<rparr>))
           else ret ())))"

definition build_client ::
  "('d, 'c, 'h, 'w) environment \<Rightarrow> (('d, 'c, 'h, 'w) bridge \<times> 'w, unit) eff" where
  "build_client env =
     bnd (self_gets id) (\<lambda>self.
     if br_client self = None then
       bnd (outside (\<lambda>w. case client_open (en_natives env)
              (new_client (cf_cluster_file (cf_fdb (br_config self))) (cf_api_version (cf_fdb (br_config self))), w) of
            (r, (c, w')) \<Rightarrow> (case r of Inl e \<Rightarrow> Inl e | Inr _ \<Rightarrow> Inr c, w'))) (\<lambda>client.
       self_modify (\<lambda>b. b\<lparr>br_client := Some client\<rparr>))
     else ret ())"

definition config_key_range :: "cdc_config \<Rightarrow> (pyval \<times> pyval) option" where
  "config_key_range cdc =
     (if cf_begin_key cdc \<noteq> [] \<or> cf_end_key cdc \<noteq> []
      then Some (PBytes (cf_begin_key cdc), PBytes (cf_end_key cdc)) else None)"

definition build_listener ::
  "('d, 'c, 'h, 'w) environment \<Rightarrow> (('d, 'c, 'h, 'w) bridge \<times> 'w, unit) eff" where
  "build_listener env =
     bnd (self_gets id) (\<lambda>self.
     if br_listener self = None then
       let cdc = cf_cdc (br_config self) in
       bnd (outside (load_cursor_from_file (en_os env) (en_native_cursor env) (cf_cursor_file cdc)
              (Some (cf_stream_name cdc)))) (\<lambda>cursor.
       bnd (liftE (case br_client self of None \<Rightarrow> Inl AttributeError | Some client \<Rightarrow>
              new_listener client (PStr (cf_stream_name cdc))
              (config_key_range cdc)
              None cursor (PInt (cf_max_record_bytes cdc)) (PFloat (Finite 10))
              (PFloat (Finite (1 / 20))))) (\<lambda>l.
       thn (self_modify (\<lambda>b. (put_listener l b)\<lparr>br_shared := True\<rparr>))
           (on_bridge_listener (listener_start (en_natives env)))))
     else ret ())"

definition build_producer ::
  "('d, 'c, 'h, 'w) environment \<Rightarrow> (('d, 'c, 'h, 'w) bridge \<times> 'w, unit) eff" where
  "build_producer env =
     thn (bnd (self_gets id) (\<lambda>self.
          if br_producer self = None then
            bnd (outside (br_producer_factory self)) (\<lambda>p.
            self_modify (\<lambda>b. b\<lparr>br_producer := Some p\<rparr>))
          else ret ()))
         (on_bridge_producer
            (bnd (self_gets mp_transactional) (\<lambda>transactional.
             if transactional then init_transactions (en_rdkafka env) (Finite 30) else ret ())))"

text \<open>
  The pipeline's constructor call; the listener's attributes \<open>raw_stream_name\<close> and \<open>stream_name\<close> reach it
  through \<open>__getattr__\<close>.
\<close>

definition config_pipeline :: "bridge_config \<Rightarrow> pyval option \<Rightarrow> pyval option \<Rightarrow> exn + pipeline" where
  "config_pipeline config raw name =
     bindE (case utf8_encode (cf_stream_name (cf_cdc config)) of
              None \<Rightarrow> Inl ValueError | Some bs \<Rightarrow> Inr bs) (\<lambda>stream_bytes.
     new_pipeline raw name (cf_topic (cf_kafka config))
       (if stream_bytes \<noteq> [] then PBytes stream_bytes else PNone)
       DEFAULT_ACK_RETRIES DEFAULT_ACK_RETRY_DELAY_SECONDS
       DEFAULT_COMMIT_RETRIES DEFAULT_COMMIT_RETRY_DELAY_SECONDS
       (PFloat (cf_flush_timeout_seconds (cf_pipeline config))))"

definition assemble_pipeline :: "(('d, 'c, 'h, 'w) bridge \<times> 'w, unit) eff" where
  "assemble_pipeline =
     bnd (self_gets id) (\<lambda>self.
     thn (self_modify (\<lambda>b. b\<lparr>br_counted := Some []\<rparr>))
     (bnd (liftE (config_pipeline (br_config self)
             (map_option (\<lambda>l. PBytes (li_raw_stream_name l)) (br_listener self))
             (map_option (\<lambda>l. PStr (li_stream_name l)) (br_listener self)))) (\<lambda>q.
      self_modify (\<lambda>b. b\<lparr>br_pipeline := Some q\<rparr>))))"

definition build_pipeline ::
  "('d, 'c, 'h, 'w) environment \<Rightarrow> (('d, 'c, 'h, 'w) bridge \<times> 'w, unit) eff" where
  "build_pipeline env =
     thn (catch (thn (build_client env) (thn (build_listener env) (build_producer env))) is_Exception
            (\<lambda>exc. thn (discard_listener_and_producer env) (raise exc)))
         assemble_pipeline"

definition bridge_start ::
  "('d, 'c, 'h, 'w) environment \<Rightarrow> (('d, 'c, 'h, 'w) bridge \<times> 'w, unit) eff" where
  "bridge_start env =
     bnd (self_gets id) (\<lambda>self.
     if br_pipeline self \<noteq> None then ret ()
     else if cf_stream_name (cf_cdc (br_config self)) = [] then raise ValueError
     else build_pipeline env)"

definition rebuild_pipeline ::
  "('d, 'c, 'h, 'w) environment \<Rightarrow> (('d, 'c, 'h, 'w) bridge \<times> 'w, unit) eff" where
  "rebuild_pipeline env =
     bnd (self_gets br_pipeline) (\<lambda>q.
     if (case q of None \<Rightarrow> False | Some q \<Rightarrow> bp_commit_outstanding q) then ret ()
     else thn (discard_listener_and_producer env) (build_pipeline env))"

section \<open>The run loop\<close>

definition others :: "('d, 'c, 'h, 'w) environment \<Rightarrow> (('d, 'c, 'h, 'w) bridge \<times> 'w, unit) eff" where
  "others env = (\<lambda>s. (Inr (),
     (case en_others env (snd s) of
        (Nothing, w) \<Rightarrow> (fst s, w)
      | (Requested, w) \<Rightarrow> ((fst s)\<lparr>br_shutdown_requested := True\<rparr>, w)
      | (Stopped, w) \<Rightarrow> ((fst s)\<lparr>br_shutdown_requested := True, br_producer := None, br_listener := None,
           br_client := None, br_pipeline := None, br_counted := None\<rparr>, w))))"

definition request_shutdown :: "(('d, 'c, 'h, 'w) bridge \<times> 'w, unit) eff" where
  "request_shutdown = self_modify (\<lambda>b. b\<lparr>br_shutdown_requested := True\<rparr>)"

definition needs_rebuild :: "('d, 'c, 'h, 'w) bridge \<Rightarrow> exn \<Rightarrow> bool" where
  "needs_rebuild self exc =
     (case (br_producer self, br_listener self, br_pipeline self) of
        (Some producer, Some lis, Some pipeline) \<Rightarrow>
          mp_closed producer \<or> mp_fatal producer \<or> li_delivery_failed lis \<or>
          li_awaiting_ack lis \<and> \<not> bp_commit_outstanding pipeline \<and>
            (is_KafkaException exc \<or> exc = BufferError)
      | _ \<Rightarrow> True)"

definition record_mutations :: "pb_record \<Rightarrow> nat" where
  "record_mutations r =
     (case pr_record r of
        Some (BatchArm mutations) \<Rightarrow> length mutations
      | Some (MutationArm _) \<Rightarrow> 1
      | _ \<Rightarrow> 0)"

definition count_batch :: "nat \<Rightarrow> pb_record list \<Rightarrow> metrics \<Rightarrow> metrics" where
  "count_batch sent records m =
     m\<lparr>bm_mutations_published := bm_mutations_published m + sum_list (map record_mutations records),
       bm_records_published :=
         bm_records_published m + (if records \<noteq> [] then length records else sent),
       bm_batches_acked := bm_batches_acked m + 1\<rparr>"

definition next_backoff :: "bridge_config \<Rightarrow> pyfloat \<Rightarrow> pyfloat" where
  "next_backoff config backoff =
     py_min (py_scale (3 / 2) backoff) (cf_backoff_max_seconds (cf_pipeline config))"

text \<open>
  One round of the loop. \<open>prepare\<close> is the part under the step lock before the step and says whether to
  go on; \<open>publish\<close> is the step and what follows it, and gives the next backoff. \<open>rebuild_pending\<close> is
  \<open>False\<close> from the end of \<open>prepare\<close> on, so the handler is given the value the exception finds.
\<close>

datatype control = Break | Continue pyfloat bool

definition prepare ::
  "('d, 'c, 'h, 'w) environment \<Rightarrow> bool \<Rightarrow> (('d, 'c, 'h, 'w) bridge \<times> 'w, bool) eff" where
  "prepare env rebuild_pending =
     thn (others env)
     (bnd (self_gets id) (\<lambda>self.
      if br_shutdown_requested self then ret False
      else
        thn (if rebuild_pending \<or> br_pipeline self = None then rebuild_pipeline env else ret ())
            (ret True)))"

definition publish ::
  "('d, 'c, 'h, 'w) environment \<Rightarrow> pyfloat \<Rightarrow> (('d, 'c, 'h, 'w) bridge \<times> 'w, pyfloat) eff" where
  "publish env backoff =
     bnd (self_gets br_config) (\<lambda>config.
     bnd (bridge_step env) (\<lambda>sent.
     if sent = 0 then
       thn (outside (en_wait env backoff)) (ret (next_backoff config backoff))
     else
       bnd (on_pipeline (outside pop_last_records)) (\<lambda>records.
       thn (self_modify (\<lambda>b. b\<lparr>br_metrics := count_batch sent records (br_metrics b)\<rparr>))
           (ret (cf_backoff_base_seconds (cf_pipeline config))))))"

definition handle_error ::
  "('d, 'c, 'h, 'w) environment \<Rightarrow> pyfloat \<Rightarrow> bool \<Rightarrow> exn \<Rightarrow> (('d, 'c, 'h, 'w) bridge \<times> 'w, control) eff"
where
  "handle_error env backoff rebuild_pending exc =
     (if is_CDCTerminalError exc then thn request_shutdown (raise exc)
      else if \<not> is_Exception exc then raise exc
      else if is_fatal_kafka_error exc then thn request_shutdown (raise exc)
      else if is_ValueError exc \<and> \<not> is_SerializationError exc then thn request_shutdown (raise exc)
      else
        thn (self_modify (\<lambda>b. b\<lparr>br_metrics :=
               (br_metrics b)\<lparr>bm_errors_retried := bm_errors_retried (br_metrics b) + 1\<rparr>\<rparr>))
        (thn (others env)
        (bnd (self_gets (\<lambda>b. rebuild_pending \<or> needs_rebuild b exc)) (\<lambda>rebuild_pending.
         thn (outside (en_wait env backoff))
         (bnd (self_gets br_config) (\<lambda>config.
          ret (Continue (next_backoff config backoff) rebuild_pending)))))))"

definition run_round ::
  "('d, 'c, 'h, 'w) environment \<Rightarrow> pyfloat \<Rightarrow> bool \<Rightarrow> (('d, 'c, 'h, 'w) bridge \<times> 'w, control) eff" where
  "run_round env backoff rebuild_pending =
     thn (others env)
     (bnd (self_gets br_shutdown_requested) (\<lambda>requested.
      if requested then ret Break
      else
        bnd (trying (prepare env rebuild_pending)) (\<lambda>r. case r of
          Inl exc \<Rightarrow> handle_error env backoff rebuild_pending exc
        | Inr go_on \<Rightarrow>
            if \<not> go_on then ret Break
            else
              bnd (trying (publish env backoff)) (\<lambda>r. case r of
                Inl exc \<Rightarrow> handle_error env backoff False exc
              | Inr backoff \<Rightarrow> ret (Continue backoff False)))))"

fun run_loop ::
  "('d, 'c, 'h, 'w) environment \<Rightarrow> nat \<Rightarrow> pyfloat \<Rightarrow> bool \<Rightarrow> (('d, 'c, 'h, 'w) bridge \<times> 'w, unit) eff"
where
  "run_loop env 0 backoff rebuild_pending = raise Diverges"
| "run_loop env (Suc fuel) backoff rebuild_pending =
     bnd (run_round env backoff rebuild_pending) (\<lambda>c. case c of
       Break \<Rightarrow> ret ()
     | Continue backoff rebuild_pending \<Rightarrow> run_loop env fuel backoff rebuild_pending)"

definition run :: "('d, 'c, 'h, 'w) environment \<Rightarrow> nat \<Rightarrow> (('d, 'c, 'h, 'w) bridge \<times> 'w, unit) eff" where
  "run env fuel =
     bnd (self_gets id) (\<lambda>self.
     if br_listener self = None \<or> br_producer self = None \<or> br_pipeline self = None \<or> br_counted self = None
     then runtime_error
     else run_loop env fuel (cf_backoff_base_seconds (cf_pipeline (br_config self))) False)"

section \<open>Stopping\<close>

text \<open>
  A step that returns leaves no commit outstanding, so the loop makes at most one step and two rounds
  of fuel are enough (\<open>finish_loop_fuel\<close> in \<open>Bridge_Safety\<close>).
\<close>

definition commit_pending :: "('d, 'c, 'h, 'w) bridge \<Rightarrow> bool" where
  "commit_pending b \<longleftrightarrow> (case br_pipeline b of None \<Rightarrow> False | Some q \<Rightarrow> bp_commit_outstanding q)"

fun finish_loop ::
  "('d, 'c, 'h, 'w) environment \<Rightarrow> nat \<Rightarrow> pyfloat \<Rightarrow> (('d, 'c, 'h, 'w) bridge \<times> 'w, unit) eff" where
  "finish_loop env 0 deadline = raise Diverges"
| "finish_loop env (Suc fuel) deadline =
     bnd (self_gets commit_pending) (\<lambda>pending.
     if \<not> pending then ret ()
     else
       bnd (outside (nt_monotonic (en_natives env))) (\<lambda>now.
       if \<not> py_less (Finite now) deadline then ret ()
       else
         bnd (trying (bridge_step env)) (\<lambda>r. case r of
           Inl exc \<Rightarrow> if is_Exception exc then ret () else raise exc
         | Inr _ \<Rightarrow> finish_loop env fuel deadline)))"

definition finish_outstanding_commit ::
  "('d, 'c, 'h, 'w) environment \<Rightarrow> pyfloat \<Rightarrow> (('d, 'c, 'h, 'w) bridge \<times> 'w, unit) eff" where
  "finish_outstanding_commit env timeout =
     bnd (self_gets br_pipeline) (\<lambda>pipeline.
     if pipeline = None then ret ()
     else
       bnd (outside (nt_monotonic (en_natives env))) (\<lambda>now.
       finish_loop env 2 (py_plus now timeout)))"

fun close_all :: "('s, unit) eff list \<Rightarrow> exn option \<Rightarrow> ('s, exn option) eff" where
  "close_all [] first_error = ret first_error"
| "close_all (close # closes) first_error =
     bnd (trying close) (\<lambda>r. case r of
       Inr _ \<Rightarrow> close_all closes first_error
     | Inl exc \<Rightarrow>
         if is_Exception exc
         then close_all closes (case first_error of None \<Rightarrow> Some exc | Some e \<Rightarrow> Some e)
         else raise exc)"

text \<open>
  A method of one of the objects that \<open>stop\<close> took from the bridge. The client that is closed is also the
  listener's when they share it.
\<close>

definition on_released ::
  "(('d, 'c, 'h) handles \<Rightarrow> 'o option) \<Rightarrow> ('o \<Rightarrow> ('d, 'c, 'h) handles \<Rightarrow> ('d, 'c, 'h) handles) \<Rightarrow>
     ('o \<times> 'w, unit) eff \<Rightarrow> (('d, 'c, 'h) handles \<times> 'w, unit) eff" where
  "on_released get put m =
     bnd (self_gets get) (\<lambda>obj. case obj of
       None \<Rightarrow> ret ()
     | Some x \<Rightarrow> zoom (\<lambda>s. (x, snd s)) (\<lambda>t s. (put (fst t) (fst s), snd t)) m)"

definition put_client :: "bool \<Rightarrow> 'd fdb_client \<Rightarrow> ('d, 'c, 'h) handles \<Rightarrow> ('d, 'c, 'h) handles" where
  "put_client shared c h = h\<lparr>hd_client := Some c,
     hd_listener := (if shared then map_option (\<lambda>l. l\<lparr>li_client := c\<rparr>) (hd_listener h) else hd_listener h)\<rparr>"

definition handle_closes ::
  "('d, 'c, 'h, 'w) environment \<Rightarrow> pyfloat \<Rightarrow> bool \<Rightarrow> ('d, 'c, 'h) handles \<Rightarrow>
     (('d, 'c, 'h) handles \<times> 'w, unit) eff list" where
  "handle_closes env timeout shared h =
     (if hd_producer h \<noteq> None
      then [on_released hd_producer (\<lambda>p h. h\<lparr>hd_producer := Some p\<rparr>) (producer_close (en_rdkafka env) timeout)]
      else []) @
     (if hd_listener h \<noteq> None
      then [on_released hd_listener (\<lambda>l h. h\<lparr>hd_listener := Some l\<rparr>) (listener_close (en_natives env))]
      else []) @
     (if hd_client h \<noteq> None then [on_released hd_client (put_client shared) client_close] else [])"

text \<open>
  The round that the run thread is in, from its last look at the shutdown flag on. It takes the step lock
  before \<open>stop\<close> does, and the flag it finds afterwards ends the loop.
\<close>

definition round_in_flight ::
  "('d, 'c, 'h, 'w) environment \<Rightarrow> pyfloat \<Rightarrow> bool \<Rightarrow> (('d, 'c, 'h, 'w) bridge \<times> 'w, control) eff" where
  "round_in_flight env backoff rebuild_pending =
     bnd (self_gets br_pipeline) (\<lambda>pipeline.
     bnd (trying (if rebuild_pending \<or> pipeline = None then rebuild_pipeline env else ret ())) (\<lambda>r. case r of
       Inl exc \<Rightarrow> handle_error env backoff rebuild_pending exc
     | Inr _ \<Rightarrow>
         bnd (trying (publish env backoff)) (\<lambda>r. case r of
           Inl exc \<Rightarrow> handle_error env backoff False exc
         | Inr backoff \<Rightarrow> ret (Continue backoff False))))"

text \<open>
  Waiting for the step lock. However the round of the other thread ends, it ends there, except that one
  that never ends keeps the lock.
\<close>

definition acquire_step_lock ::
  "('d, 'c, 'h, 'w) environment \<Rightarrow> pyfloat \<Rightarrow> (('d, 'c, 'h, 'w) bridge \<times> 'w, bool) eff" where
  "acquire_step_lock env timeout =
     thn (others env)
     (bnd (outside (en_acquire env timeout)) (\<lambda>(flight, locked).
      case flight of
        None \<Rightarrow> ret locked
      | Some (backoff, rebuild_pending) \<Rightarrow>
          bnd (trying (round_in_flight env backoff rebuild_pending)) (\<lambda>r. ret (locked \<and> r \<noteq> Inl Diverges))))"

text \<open>The two attempts to get the step lock; a listener parked in \<open>consume\<close> is closed in between.\<close>

definition lock_for_stop ::
  "('d, 'c, 'h, 'w) environment \<Rightarrow> pyfloat \<Rightarrow> (('d, 'c, 'h, 'w) bridge \<times> 'w, bool) eff" where
  "lock_for_stop env timeout =
     bnd (acquire_step_lock env timeout) (\<lambda>locked.
     if locked then ret True
     else
       bnd (self_gets br_listener) (\<lambda>lis.
       thn (if lis \<noteq> None then ignoring (on_bridge_listener (listener_close (en_natives env))) else ret ())
           (acquire_step_lock env timeout)))"

definition settle ::
  "('d, 'c, 'h, 'w) environment \<Rightarrow> pyfloat \<Rightarrow> (('d, 'c, 'h, 'w) bridge \<times> 'w, unit) eff" where
  "settle env timeout =
     bnd (lock_for_stop env timeout) (\<lambda>locked.
     if locked then finish_outstanding_commit env timeout else ret ())"

definition close_handles ::
  "('d, 'c, 'h, 'w) environment \<Rightarrow> pyfloat \<Rightarrow> (('d, 'c, 'h, 'w) bridge \<times> 'w, unit) eff" where
  "close_handles env timeout =
     bnd (self_gets id) (\<lambda>self.
     let taken = \<lparr>hd_producer = br_producer self, hd_listener = br_listener self, hd_client = br_client self\<rparr> in
     thn (self_modify (\<lambda>b. b\<lparr>br_producer := None, br_listener := None, br_client := None,
            br_pipeline := None, br_counted := None, br_released := taken\<rparr>))
     (bnd (zoom (\<lambda>s. (br_released (fst s), snd s)) (\<lambda>t s. ((fst s)\<lparr>br_released := fst t\<rparr>, snd t))
             (close_all (handle_closes env timeout (br_shared self) taken) None)) (\<lambda>first_error.
      case first_error of None \<Rightarrow> ret () | Some exc \<Rightarrow> raise exc)))"

definition stop :: "('d, 'c, 'h, 'w) environment \<Rightarrow> (('d, 'c, 'h, 'w) bridge \<times> 'w, unit) eff" where
  "stop env =
     thn request_shutdown
     (bnd (self_gets (\<lambda>b. cf_shutdown_timeout_seconds (cf_pipeline (br_config b)))) (\<lambda>timeout.
      thn (settle env timeout) (close_handles env timeout)))"

end
