(* ===== verification/Cdc_Delivery.thy ===== *)
theory Cdc_Delivery
  imports Listener Record_Format
begin

text \<open>
  The guarantees of the CDC listener, with a small concrete binding \<open>demo_natives\<close> for the
  examples: it has one consumer, always delivers the same reply (no group, a watermark) and never
  fails.
\<close>

section \<open>A concrete binding\<close>

definition demo_reply :: native_reply where
  "demo_reply = \<lparr>nr_mutations = Some [], nr_last_consumed_version = Some golden_version\<rparr>"

definition demo_natives :: "(unit, unit, unit) natives" where
  "demo_natives = \<lparr>nt_installed = True, nt_get_api_version = ret 800, nt_api_version = (\<lambda>_. ret ()),
     nt_open = (\<lambda>_. ret ()), nt_register = (\<lambda>_ _ _ _. ret 1), nt_create = (\<lambda>_ _. ret ()),
     nt_resume = (\<lambda>_ _. ret ()), nt_remove = (\<lambda>_ _. ret ()), nt_list = (\<lambda>_. ret []),
     nt_cluster_read_version = (\<lambda>_. None), nt_transaction_read_version = (\<lambda>_. ret 9),
     nt_consume = (\<lambda>_. ret demo_reply), nt_acknowledge = (\<lambda>_. ret ()),
     nt_get_position = (\<lambda>_. ret PNone), nt_close = (\<lambda>_. ret ()),
     nt_closed_meanwhile = (\<lambda>_. False), nt_monotonic = ret 0, nt_sleep = (\<lambda>_. ret ()),
     nt_time_ns = ret golden_ts, nt_fuel = 10\<rparr>"

definition demo_listener :: "(unit, unit) listener" where
  "demo_listener = \<lparr>li_client = new_client None 800, li_raw_stream_name = [0x6F],
     li_stream_name = golden_stream, li_key_range = None, li_initial_cursor = None,
     li_max_record_bytes = 1000, li_resume_timeout_seconds = Finite 10,
     li_resume_poll_interval_seconds = Finite (1 / 20), li_consumer = None, li_is_closed = False,
     li_awaiting_ack = False, li_delivery_failed = False\<rparr>"

lemma demo_end:
  "serialize_version_end proto3 (PInt golden_version) (PInt 0) (PStr golden_stream) (PInt golden_ts) =
     Inr (SerializeToString proto3 (version_end_message golden_stream golden_ts golden_version 0))"
  "length (SerializeToString proto3
     (version_end_message golden_stream golden_ts golden_version 0)) = 43"
  "ParseFromString proto3 (SerializeToString proto3
     (version_end_message golden_stream golden_ts golden_version 0)) =
   Some (version_end_message golden_stream golden_ts golden_version 0)"
proof -
  show "serialize_version_end proto3 (PInt golden_version) (PInt 0) (PStr golden_stream)
      (PInt golden_ts) = Inr (SerializeToString proto3
        (version_end_message golden_stream golden_ts golden_version 0))"
    using golden_envelope unfolding serialize_version_end_Inr
    by (auto simp: valid_version_def golden_version_def limit_defs)
  show len: "length (SerializeToString proto3
      (version_end_message golden_stream golden_ts golden_version 0)) = 43"
    by (simp add: proto3_eval golden_utf8 golden_ts_def golden_version_def)
  have "wf_record (version_end_message golden_stream golden_ts golden_version 0)"
    using golden_envelope
    by (intro wf_version_end_record) (auto simp: valid_version_def golden_version_def limit_defs)
  then show "ParseFromString proto3 (SerializeToString proto3
      (version_end_message golden_stream golden_ts golden_version 0)) =
    Some (version_end_message golden_stream golden_ts golden_version 0)"
    using len by (intro proto3.parse_serialize) simp_all
qed

lemma demo_records:
  "records_of_reply proto3 1000 golden_stream golden_ts demo_reply =
     Inr [version_end_message golden_stream golden_ts golden_version 0]"
  using demo_end
  by (simp add: records_of_reply_def watermark_records_def demo_reply_def golden_version_def)

lemma demo_poll:
  "\<exists>l. poll_records proto3 demo_natives None (demo_listener, ()) =
     (Inr [version_end_message golden_stream golden_ts golden_version 0], (l, ())) \<and> li_awaiting_ack l"
  using demo_records
  by (simp add: poll_records_def consume_batch_def consumer_def active_consumer_def
      listener_start_def on_client_def client_open_def init_fdb_def create_cdc_consumer_def
      translating_def on_handle_def blocking_def run_simps demo_listener_def new_client_def
      MINIMUM_CDC_API_VERSION_def demo_natives_def)

section \<open>Properties\<close>

text \<open>C19: The records a reply is turned into carry all of it and nothing else: read back in order,
  their mutations are those of its version groups, in group order and native order, each tagged
  with its group's version and its position; and unless there is nothing to report, the last record is a
  version end for the version the reply brings the stream to, its watermark or its last group's.\<close>

theorem reply_records_complete:
  assumes "protobuf_runtime pb" "records_of_reply pb mx n ts batch = Inr records" "mx < 2 ^ 31"
    and "nr_mutations batch = Some groups" "list_all2 group_natives groups nss"
  shows "\<exists>bodies. mapE des_body records = Inr bodies \<and>
    concat (map body_mutations bodies) = tagged_groups groups nss \<and>
    (if records = [] then groups = [] \<and> reply_progress batch < 0
     else \<exists>e. last bodies = BodyVersionEnd e \<and> ve_fdb_version e = reply_progress batch)"
proof -
  define w where "w = (case nr_last_consumed_version batch of None \<Rightarrow> -1 | Some w \<Rightarrow> w)"
  obtain datas l marks where
    g0: "group_records pb mx n ts (-1) groups = Inr (datas, l)"
    and m: "watermark_records pb mx n ts l w = Inr marks"
    and p: "mapE (parse_record pb) (datas @ marks) = Inr records"
    using assms(2,4) by (auto simp: records_of_reply_eq result_simps w_def)
  obtain outs where outs: "mapE (\<lambda>d. deserialize_record pb (PBytes d)) datas = Inr outs"
    "records_mutations outs = tagged_groups groups nss" "l = last_version (-1) groups"
    "groups = [] \<longrightarrow> outs = []"
    "groups \<noteq> [] \<longrightarrow> outs \<noteq> [] \<and>
      (\<exists>e. rec_body (last outs) = BodyVersionEnd e \<and> ve_fdb_version e = l)"
    using group_records_decode [OF assms(1) g0 assms(5,3)] by blast
  obtain ends where ends: "mapE (\<lambda>d. deserialize_record pb (PBytes d)) marks = Inr ends"
    "if 0 \<le> w \<and> l < w then \<exists>out e. ends = [out] \<and> rec_body out = BodyVersionEnd e \<and> ve_fdb_version e = w
     else ends = []"
    using watermark_decode [OF assms(1) m assms(3)] by (auto split: if_splits)
  have "mapE (\<lambda>d. deserialize_record pb (PBytes d)) (datas @ marks) = Inr (outs @ ends)"
    using outs(1) ends(1) by (simp add: mapE_Inr_append)
  then have bodies: "mapE des_body records = Inr (map rec_body (outs @ ends))"
    using parsed_bodies p by fastforce
  have len: "length records = length (outs @ ends)"
    using mapE_length [OF bodies] by simp
  have muts: "concat (map body_mutations (map rec_body (outs @ ends))) = tagged_groups groups nss"
    using outs(2) ends(2) by (auto simp: records_mutations_def comp_def split: if_splits)
  have progress: "reply_progress batch = max l w"
    by (simp add: reply_progress_def assms(4) outs(3) w_def)
  show ?thesis
  proof (intro exI conjI, rule bodies, rule muts)
    show "if records = [] then groups = [] \<and> reply_progress batch < 0
      else \<exists>e. last (map rec_body (outs @ ends)) = BodyVersionEnd e \<and>
        ve_fdb_version e = reply_progress batch"
    proof (cases "0 \<le> w \<and> l < w")
      case True
      with ends(2) len show ?thesis by (auto simp: progress)
    next
      case False
      with ends(2) have e: "ends = []" by simp
      show ?thesis
      proof (cases "groups = []")
        case True
        with outs(3,4) e len False show ?thesis
          by (auto simp: progress last_version_def)
      next
        case g: False
        then have "outs \<noteq> []" "\<exists>e. rec_body (last outs) = BodyVersionEnd e \<and> ve_fdb_version e = l"
          using outs(5) by auto
        moreover have "w \<le> l"
          using False g group_records_version [OF g0] by auto
        ultimately show ?thesis
          using e len by (auto simp: progress last_map max_def)
      qed
    qed
  qed
qed

text \<open>A reply with the version group of the golden-byte tests, which becomes two batches and a version end.\<close>

definition golden_reply :: native_reply where
  "golden_reply = \<lparr>nr_mutations = Some [\<lparr>vg_version = golden_version, vg_mutations = Yields [golden_add, golden_clear] None\<rparr>],
     nr_last_consumed_version = Some golden_version\<rparr>"

definition golden_parts :: "(int \<times> bytes \<times> bytes) list" where
  "golden_parts = [(2, [0x15, 0x01, 0x6B, 0x00], [0xFF, 0x00, 0x76]), (1, [0x61], [0x62, 0xFF])]"

lemma golden_reply_records:
  "\<exists>records. records_of_reply proto3 60 golden_stream golden_ts golden_reply = Inr records \<and> length records = 3"
proof -
  obtain datas where datas: "golden_group 60 = Inr datas" "length datas = 3"
    using golden_group_60 by blast
  then obtain outs where outs: "mapE (\<lambda>d. deserialize_record proto3 (PBytes d)) datas = Inr outs"
    using protobuf_runtime.group_roundtrip [OF proto3.protobuf_runtime_axioms
        datas(1) [unfolded golden_group_def] golden_items] by auto
  let ?parse = "\<lambda>d. case ParseFromString proto3 d of None \<Rightarrow> Inl (OtherError None) | Some r \<Rightarrow> Inr r"
  have "\<exists>r. ParseFromString proto3 d = Some r" if "d \<in> set datas" for d
  proof -
    have "deserialize_record proto3 (PBytes d) \<in> Inr ` set outs"
      using outs that unfolding mapE_Inr_iff by (metis image_eqI list.set_map)
    then show ?thesis
      by (auto dest: deserialize_parse)
  qed
  then have "map ?parse datas = map Inr (map (\<lambda>d. the (ParseFromString proto3 d)) datas)"
    by fastforce
  then have "mapE ?parse datas = Inr (map (\<lambda>d. the (ParseFromString proto3 d)) datas)"
    unfolding mapE_Inr_iff .
  with datas show ?thesis
    by (simp add: records_of_reply_def watermark_records_def golden_reply_def golden_group_def)
qed

theorem reply_records_complete_witness:
  "\<exists>records bodies e. records_of_reply proto3 60 golden_stream golden_ts golden_reply = Inr records \<and> length records = 3 \<and>
    mapE des_body records = Inr bodies \<and>
    concat (map body_mutations bodies) = tagged golden_version 0 golden_parts \<and>
    last bodies = BodyVersionEnd e \<and> ve_fdb_version e = golden_version"
proof -
  obtain records where records: "records_of_reply proto3 60 golden_stream golden_ts golden_reply = Inr records"
    "length records = 3"
    using golden_reply_records by blast
  let ?groups = "[\<lparr>vg_version = golden_version, vg_mutations = Yields [golden_add, golden_clear] None\<rparr>]"
  have groups: "list_all2 group_natives ?groups [golden_parts]"
    using golden_items by (simp add: group_natives_def golden_parts_def)
  have reply: "nr_mutations golden_reply = Some ?groups" "reply_progress golden_reply = golden_version"
    by (simp_all add: golden_reply_def reply_progress_def last_version_def golden_version_def)
  have "tagged_groups ?groups [golden_parts] = tagged golden_version 0 golden_parts"
    by (simp add: tagged_groups_def)
  moreover have "records \<noteq> []"
    using records(2) by auto
  ultimately obtain bodies e where "mapE des_body records = Inr bodies"
    "concat (map body_mutations bodies) = tagged golden_version 0 golden_parts"
    "last bodies = BodyVersionEnd e" "ve_fdb_version e = golden_version"
    using reply_records_complete [OF proto3.protobuf_runtime_axioms records(1) _ reply(1) groups]
    unfolding reply(2) by auto
  with records show ?thesis
    by blast
qed

lemma new_listener_inv:
  assumes "new_listener client name kr space cur mx rt ri = Inr l"
  shows "listener_inv l \<and> \<not> li_awaiting_ack l \<and> \<not> li_delivery_failed l"
  using assms
  by (auto simp: new_listener_def result_simps listener_inv_def split: if_splits)

lemma outstanding_poll:
  "li_awaiting_ack (fst s) \<Longrightarrow> poll_records pb nt bts s = (Inl CDCError, s)"
  by (simp add: poll_records_def consume_batch_def run_simps)

text \<open>C3: One reply at a time. In every sequence of method calls on a new listener, whatever the
  binding does and whether or not another thread closes it, a reply is delivered only when none is
  outstanding, and an acknowledgement succeeds only for an outstanding reply, which it settles. While a
  reply is outstanding \<open>poll_records\<close> raises \<open>CDCError\<close> and makes no call at all.\<close>

theorem one_reply_at_a_time:
  assumes "new_listener client name kr space cur mx rt ri = Inr l"
    and "listener_run pb nt (l, w) es (l', w')"
  shows "outstanding False es = Some (li_awaiting_ack l') \<and>
    (li_awaiting_ack l' \<longrightarrow> poll_records pb nt bts (l', w') = (Inl CDCError, (l', w')))"
proof -
  have l: "listener_inv l" "\<not> li_awaiting_ack l"
    using new_listener_inv [OF assms(1)] by auto
  have "outstanding (li_awaiting_ack l) es = Some (li_awaiting_ack l')"
    using listener_run_inv [OF assms(2)] l(1) by simp
  then show ?thesis
    using l(2) outstanding_poll [of "(l', w')"] by simp
qed

text \<open>A new listener for the golden stream, before and after a poll.\<close>

definition golden_listener :: "(unit, unit) listener" where
  "golden_listener = demo_listener\<lparr>li_raw_stream_name := [0x6F, 0x72, 0x64, 0x65, 0x72, 0x73]\<rparr>"

definition golden_polled :: "(unit, unit) listener" where
  "golden_polled = golden_listener\<lparr>li_client := (new_client None 800)\<lparr>fc_db := Some ()\<rparr>, li_consumer := Some (),
     li_awaiting_ack := True\<rparr>"

lemma golden_listener_new:
  "new_listener (new_client None 800) (PBytes [0x6F, 0x72, 0x64, 0x65, 0x72, 0x73]) None None None (PInt 1000) (PInt 10)
     (PFloat (Finite (1 / 20))) = Inr golden_listener"
  using utf8_decode_replace_encode [OF golden_utf8]
  by (simp add: new_listener_def check_seconds_def py_zero_def golden_listener_def demo_listener_def
      del: utf8_decode_replace.simps)

lemma golden_listener_calls:
  "poll_records proto3 demo_natives None (golden_listener, ()) =
     (Inr [version_end_message golden_stream golden_ts golden_version 0], (golden_polled, ()))"
  "poll_records proto3 demo_natives None (golden_polled, ()) = (Inl CDCError, (golden_polled, ()))"
  "listener_acknowledge demo_natives (golden_polled, ()) = (Inr (), (golden_polled\<lparr>li_awaiting_ack := False\<rparr>, ()))"
  using demo_records
  by (simp_all add: poll_records_def consume_batch_def consumer_def active_consumer_def listener_start_def
      on_client_def client_open_def init_fdb_def create_cdc_consumer_def listener_acknowledge_def translating_def
      on_handle_def blocking_def run_simps golden_polled_def golden_listener_def demo_listener_def new_client_def
      MINIMUM_CDC_API_VERSION_def demo_natives_def)

theorem one_reply_at_a_time_witness:
  "\<exists>r. listener_run proto3 demo_natives (golden_listener, ()) [Polled [r], PollFailed CDCError] (golden_polled, ()) \<and>
    outstanding False [Polled [r], PollFailed CDCError] = Some True \<and>
    listener_run proto3 demo_natives (golden_listener, ()) [Polled [r], PollFailed CDCError, Acked]
      (golden_polled\<lparr>li_awaiting_ack := False\<rparr>, ()) \<and>
    outstanding False [Polled [r], PollFailed CDCError, Acked] = Some False"
proof -
  let ?r = "version_end_message golden_stream golden_ts golden_version 0"
  have pending: "listener_run proto3 demo_natives (golden_listener, ()) [Polled [?r], PollFailed CDCError] (golden_polled, ())"
    using PollFail [OF Poll [OF Init golden_listener_calls(1)] golden_listener_calls(2)] by simp
  have acked: "listener_run proto3 demo_natives (golden_listener, ()) [Polled [?r], PollFailed CDCError, Acked]
      (golden_polled\<lparr>li_awaiting_ack := False\<rparr>, ())"
    using Ack [OF pending golden_listener_calls(3)] by simp
  have "li_awaiting_ack golden_polled"
    by (simp add: golden_polled_def)
  with one_reply_at_a_time [OF golden_listener_new pending] one_reply_at_a_time [OF golden_listener_new acked]
    pending acked
  show ?thesis
    by auto
qed

text \<open>
  Why a reply that was consumed has no records: the clock that dates them fails, or they cannot be
  serialized.
\<close>

definition not_deliverable ::
  "protobuf \<Rightarrow> ('w, 'd, 'c) natives \<Rightarrow> int option \<Rightarrow> ('d, 'c) listener \<times> 'w \<Rightarrow> native_reply \<Rightarrow> exn \<Rightarrow> bool" where
  "not_deliverable pb nt bts s batch e \<longleftrightarrow>
     (case (case bts of None \<Rightarrow> nt_time_ns nt | Some ts \<Rightarrow> ret ts) (snd s) of
        (Inl x, _) \<Rightarrow> x = e
      | (Inr ts, _) \<Rightarrow> records_of_reply pb (li_max_record_bytes (fst s)) (li_stream_name (fst s)) ts batch = Inl e)"

lemma undeliverable_poll:
  assumes "consume_batch nt s = (Inr batch, t)" "not_deliverable pb nt bts t batch e"
  shows "\<exists>w. poll_records pb nt bts s = (Inl e, ((fst t)\<lparr>li_delivery_failed := True\<rparr>, w))"
  using assms
  by (auto simp: poll_records_def not_deliverable_def run_simps split: option.splits prod.splits sum.splits)

text \<open>C24: A reply that cannot be turned into records stops the listener for good. When a reply was consumed and
  its records cannot be serialized, or the clock that dates them fails, the poll raises that error and
  marks the listener. From then on no sequence of calls delivers a reply or acknowledges one, and polling
  raises and leaves the binding untouched: only a new listener, resumed from a checkpoint, goes on.\<close>

theorem failed_delivery_is_final:
  assumes "listener_inv l" "consume_batch nt (l, w) = (Inr batch, (l1, w1))"
    and "not_deliverable pb nt bts (l1, w1) batch e" "poll_records pb nt bts (l, w) = (r, (l2, w2))"
    and "listener_run pb nt (l2, w2) es (l', w')"
  shows "r = Inl e \<and> li_delivery_failed l' \<and> Acked \<notin> set es \<and> (\<forall>records. Polled records \<notin> set es) \<and>
    poll_records pb nt bts' (l', w') = (Inl CDCError, (l', w'))"
proof -
  have marked: "r = Inl e" "l2 = l1\<lparr>li_delivery_failed := True\<rparr>"
    using undeliverable_poll [OF assms(2,3)] assms(4) by auto
  have "kept l l1" "\<not> li_awaiting_ack l"
    using wp_InrD [OF consume_effect assms(2)] assms(1) by auto
  then have "listener_inv l2"
    using kept_inv [OF _ assms(1), of l1] by (auto simp: marked listener_inv_def kept_def)
  then show ?thesis
    using poisoned_run [OF assms(5)] poisoned_poll [of "(l', w')"] marked by simp
qed

text \<open>A listener whose records may hold one byte less than the version end needs.\<close>

definition narrow_listener :: "(unit, unit) listener" where
  "narrow_listener = demo_listener\<lparr>li_max_record_bytes := 42\<rparr>"

definition narrow_started :: "(unit, unit) listener" where
  "narrow_started = narrow_listener\<lparr>li_client := (new_client None 800)\<lparr>fc_db := Some ()\<rparr>, li_consumer := Some ()\<rparr>"

lemma narrow_consume: "consume_batch demo_natives (narrow_listener, ()) = (Inr demo_reply, (narrow_started, ()))"
  by (simp add: consume_batch_def consumer_def active_consumer_def listener_start_def on_client_def client_open_def
      init_fdb_def create_cdc_consumer_def translating_def on_handle_def blocking_def run_simps demo_listener_def
      narrow_listener_def narrow_started_def new_client_def MINIMUM_CDC_API_VERSION_def demo_natives_def)

lemma narrow_reply:
  "not_deliverable proto3 demo_natives None (narrow_started, ()) demo_reply (RecordTooLargeError None 43 42)"
proof -
  have "records_of_reply proto3 42 golden_stream golden_ts demo_reply = Inl (RecordTooLargeError None 43 42)"
    using demo_end by (simp add: records_of_reply_def watermark_records_def demo_reply_def golden_version_def)
  moreover have "li_max_record_bytes narrow_started = 42" "li_stream_name narrow_started = golden_stream"
    by (simp_all add: narrow_started_def narrow_listener_def demo_listener_def)
  moreover have "nt_time_ns demo_natives = ret golden_ts"
    by (simp add: demo_natives_def)
  ultimately show ?thesis
    by (auto simp: not_deliverable_def run_simps)
qed

theorem failed_delivery_is_final_witness:
  "\<exists>l. poll_records proto3 demo_natives None (narrow_listener, ()) = (Inl (RecordTooLargeError None 43 42), (l, ())) \<and>
     poll_records proto3 demo_natives None (l, ()) = (Inl CDCError, (l, ()))"
proof -
  have "listener_inv narrow_listener"
    by (simp add: listener_inv_def narrow_listener_def demo_listener_def)
  moreover obtain r l where poll: "poll_records proto3 demo_natives None (narrow_listener, ()) = (r, (l, ()))"
    by (metis old.unit.exhaust surj_pair)
  ultimately show ?thesis
    using failed_delivery_is_final [OF _ narrow_consume narrow_reply poll Init] by blast
qed

section \<open>Resuming ends\<close>

text \<open>
  The documented behaviour of the clock: \<open>now\<close> reads it, \<open>time.monotonic\<close> returns a reading that is
  not earlier than the call, a \<open>time.sleep\<close> that returns has lasted at least its argument, and a read of the cluster version does
  not turn the clock back. The binding raises \<open>Exception\<close>s, never the model's \<open>Diverges\<close>.
\<close>

definition clock_laws :: "('w, 'd, 'c) natives \<Rightarrow> ('w \<Rightarrow> rat) \<Rightarrow> bool" where
  "clock_laws nt now \<longleftrightarrow>
     (\<forall>w r w'. nt_monotonic nt w = (r, w') \<longrightarrow>
        (case r of Inr t \<Rightarrow> now w \<le> t \<and> t \<le> now w' | Inl e \<Rightarrow> e \<noteq> Diverges)) \<and>
     (\<forall>d w r w'. nt_sleep nt (Finite d) w = (r, w') \<longrightarrow>
        (case r of Inr _ \<Rightarrow> now w + d \<le> now w' | Inl e \<Rightarrow> e \<noteq> Diverges))"

definition version_reads :: "('w, 'd, 'c) natives \<Rightarrow> ('w \<Rightarrow> rat) \<Rightarrow> bool" where
  "version_reads nt now \<longleftrightarrow>
     (\<forall>c w. wp (get_read_version nt) (\<lambda>_ t. now w \<le> now (snd t))
        (\<lambda>e t. e \<noteq> Diverges) (c, w))"

lemma clock_reading:
  assumes "clock_laws nt now" "nt_monotonic nt w = (r, w')"
  shows "r = Inr t \<Longrightarrow> now w \<le> t \<and> t \<le> now w'" and "r \<noteq> Inl Diverges"
  using assms unfolding clock_laws_def by (cases r; fastforce)+

lemma wait_readable_ends:
  assumes "clock_laws nt now" "version_reads nt now" "0 < i"
    and "nat \<lceil>(d - now (snd s)) / i\<rceil> < fuel"
  shows "wp (wait_readable nt target (Finite d) (Finite i) fuel) (\<lambda>_ _. True) (\<lambda>e _. e \<noteq> Diverges) s"
  using assms(4)
proof (induction fuel arbitrary: s)
  case (Suc fuel)
  have cont: "wp (wait_readable nt target (Finite d) (Finite i) fuel) (\<lambda>_ _. True) (\<lambda>e _. e \<noteq> Diverges)
      (l, w')"
    if "\<not> d - t \<le> 0" "now w + min i (d - t) \<le> now w'" "now (snd s) \<le> t" "t \<le> now w" for l w w' t
  proof (rule Suc.IH)
    have "nat \<lceil>(d - now w') / i\<rceil> < nat \<lceil>(d - now (snd s)) / i\<rceil>"
    proof (cases "i \<le> d - t")
      case True
      with that have "d - now w' \<le> d - now (snd s) - i" by simp
      then have "(d - now w') / i \<le> (d - now (snd s)) / i - 1"
        using assms(3) divide_right_mono [of "d - now w'" "d - now (snd s) - i" i]
        by (simp add: diff_divide_distrib)
      then have "\<lceil>(d - now w') / i\<rceil> \<le> \<lceil>(d - now (snd s)) / i\<rceil> - 1"
        by (metis ceiling_diff_one ceiling_mono)
      moreover have "0 < (d - now (snd s)) / i"
        using that assms(3) by simp
      ultimately show ?thesis by simp
    next
      case False
      with that have "d \<le> now w'" by simp
      then have "(d - now w') / i \<le> 0"
        using assms(3) by (simp add: divide_le_0_iff)
      moreover have "0 < (d - now (snd s)) / i"
        using that assms(3) by simp
      ultimately show ?thesis by simp
    qed
    with Suc.prems show "nat \<lceil>(d - now (snd (l, w'))) / i\<rceil> < fuel"
      unfolding snd_conv by (meson less_Suc_eq_le order_less_le_trans)
  qed
  have sleep: "wp (thn (outside (nt_sleep nt (py_min (Finite i) (Finite (d - t)))))
      (wait_readable nt target (Finite d) (Finite i) fuel)) (\<lambda>_ _. True) (\<lambda>e _. e \<noteq> Diverges) (l, w)"
    if "\<not> d - t \<le> 0" "now (snd s) \<le> t" "t \<le> now w" for l w t
  proof -
    have "py_min (Finite i) (Finite (d - t)) = Finite (min i (d - t))"
      by (simp add: py_min_def min_def)
    moreover have law: "case r of Inr _ \<Rightarrow> now w + x \<le> now w' | Inl e \<Rightarrow> e \<noteq> Diverges"
      if "nt_sleep nt (Finite x) w = (r, w')" for x r w'
      using assms(1) that unfolding clock_laws_def by blast
    ultimately show ?thesis
      unfolding wp_thn wp_outside by simp (rule wp_I, use that law cont in fastforce, use law in fastforce)
  qed
  have clock: "wp (outside (nt_monotonic nt))
      (\<lambda>t. wp (let remaining = py_minus (Finite d) t in
         if py_le remaining py_zero then raise CDCInvalidCursorError
         else thn (outside (nt_sleep nt (py_min (Finite i) remaining)))
                (wait_readable nt target (Finite d) (Finite i) fuel))
       (\<lambda>_ _. True) (\<lambda>e _. e \<noteq> Diverges)) (\<lambda>e _. e \<noteq> Diverges) (l, w)"
    if "now (snd s) \<le> now w" for l w
    unfolding wp_outside
  proof (rule wp_I)
    show "wp (let remaining = py_minus (Finite d) t in
         if py_le remaining py_zero then raise CDCInvalidCursorError
         else thn (outside (nt_sleep nt (py_min (Finite i) remaining)))
                (wait_readable nt target (Finite d) (Finite i) fuel))
       (\<lambda>_ _. True) (\<lambda>e _. e \<noteq> Diverges) (fst (l, w), w')"
      if m: "nt_monotonic nt (snd (l, w)) = (Inr t, w')" for t w'
    proof -
      have "now (snd s) \<le> t" "t \<le> now w'"
        using clock_reading(1) [OF assms(1) m, of t] \<open>now (snd s) \<le> now w\<close> by auto
      then show ?thesis
        using sleep [of t w' l] by (auto simp: Let_def wp_raise py_zero_def)
    qed
    show "e \<noteq> Diverges" if "nt_monotonic nt (snd (l, w)) = (Inl e, w')" for e w'
      using clock_reading(2) [OF assms(1) that] by simp
  qed
  have "wp (get_read_version nt)
      (\<lambda>_ t. now (snd s) \<le> now (snd t)) (\<lambda>e t. e \<noteq> Diverges) (li_client (fst s), snd s)"
    using assms(2) by (simp add: version_reads_def)
  then show ?case
    unfolding wait_readable.simps wp_bnd wp_on_client
    by (rule wp_weaken) (auto simp: wp_ret wp_bnd simp del: py_minus.simps intro: clock)
qed simp

text \<open>C25: Resuming from a cursor ends. Under the documented behaviour of the clock, waiting for the
  cluster to reach the cursor's version returns or raises within one check per poll interval of
  the resume timeout, and two more; the model's fuel is then never used up.\<close>

theorem resume_wait_ends:
  assumes "clock_laws nt now" "version_reads nt now" "0 < interval"
    and "nat \<lceil>(deadline - now w) / interval\<rceil> < fuel"
  shows "fst (wait_readable nt target (Finite deadline) (Finite interval) fuel (l, w)) \<noteq> Inl Diverges"
  using wait_readable_ends [OF assms(1-3), of deadline "(l, w)" fuel target] assms(4)
  by (auto simp: wp_def split: prod.splits sum.splits)

definition frozen_natives :: "(rat, unit, unit) natives" where
  "frozen_natives = \<lparr>nt_installed = True, nt_get_api_version = ret 800,
     nt_api_version = (\<lambda>_. ret ()), nt_open = (\<lambda>_. ret ()), nt_register = (\<lambda>_ _ _ _. ret 1),
     nt_create = (\<lambda>_ _. ret ()), nt_resume = (\<lambda>_ _. ret ()), nt_remove = (\<lambda>_ _. ret ()),
     nt_list = (\<lambda>_. ret []), nt_cluster_read_version = (\<lambda>_. Some (ret 9)),
     nt_transaction_read_version = (\<lambda>_. ret 9), nt_consume = (\<lambda>_. ret demo_reply),
     nt_acknowledge = (\<lambda>_. ret ()), nt_get_position = (\<lambda>_. ret PNone), nt_close = (\<lambda>_. ret ()),
     nt_closed_meanwhile = (\<lambda>_. False), nt_monotonic = gets id,
     nt_sleep = (\<lambda>d. modify (\<lambda>w. case d of Finite x \<Rightarrow> w + x | _ \<Rightarrow> w)),
     nt_time_ns = ret golden_ts, nt_fuel = 10\<rparr>"

theorem resume_wait_ends_witness:
  "fst (wait_readable frozen_natives 10 (Finite 1) (Finite (1 / 2)) 4 (demo_listener, 0)) \<noteq>
     Inl Diverges"
proof (rule resume_wait_ends)
  show "clock_laws frozen_natives id"
    by (simp add: clock_laws_def frozen_natives_def run_simps)
  show "version_reads frozen_natives id"
    by (auto simp: version_reads_def get_read_version_def client_open_def init_fdb_def
        frozen_natives_def wp_simps split: option.split)
qed simp_all

end
