(* ===== verification/Pipeline_Delivery.thy ===== *)
theory Pipeline_Delivery
  imports Bridge_Core Cdc_Delivery Kafka_Delivery
begin

text \<open>
  The properties of \<open>BridgePipeline\<close>. A run is any number of calls of \<open>step\<close> on a new pipeline with
  the modelled listener, producer and cursor file; the FoundationDB binding, librdkafka and the
  file system may return or raise anything at every call. The witnesses run one step against
  \<open>demo_natives\<close> and \<open>demo_rdkafka\<close> without a cursor file.
\<close>

section \<open>A new pipeline\<close>

lemma new_pipeline_flags:
  "new_pipeline raw name topic key ar ad cr cd ft = Inr p \<Longrightarrow>
     \<not> bp_commit_outstanding p \<and> \<not> bp_delivered_unacked p \<and> \<not> bp_checkpointed p \<and> bp_topic p = topic \<and>
     bp_partition_key p \<noteq> []"
  by (auto simp: new_pipeline_def resolve_partition_key_def result_simps split: if_splits)

lemma new_pipeline_start:
  assumes "new_pipeline raw name topic key ar ad cr cd ft = Inr p" "good_parts s" "\<not> reply_pending s"
  shows "in_step good_parts reply_pending (p, (s, []))"
  using new_pipeline_flags [OF assms(1)] assms(2,3) by (simp add: in_step_def Let_def)

section \<open>A concrete run\<close>

definition demo_os :: "unit os_calls" where
  "demo_os = \<lparr>os_exists = (\<lambda>_ _. False), os_read_text = (\<lambda>_. ret []), os_create = (\<lambda>_. ret ()),
     os_write = (\<lambda>_ _. ret ()), os_fsync = (\<lambda>_. ret ()), os_close = (\<lambda>_. ret ()),
     os_replace = (\<lambda>_ _. ret ()), os_directory = (\<lambda>_. []), os_open_dir = (\<lambda>_. ret ()),
     os_fsync_dir = (\<lambda>_. ret ()), os_close_dir = (\<lambda>_. ret ())\<rparr>"

definition demo_record :: pb_record where
  "demo_record = version_end_message golden_stream golden_ts golden_version 0"

definition demo_parts :: "(unit, unit, unit) parts \<times> unit" where
  "demo_parts = (\<lparr>pa_listener = demo_listener, pa_last_records = [], pa_producer = demo_producer False\<rparr>, ())"

definition demo_pipeline :: pipeline where
  "demo_pipeline = \<lparr>bp_topic = [116], bp_partition_key = [0x6F], bp_ack_retries = 3,
     bp_ack_retry_delay_seconds = Finite (1 / 5), bp_commit_retries = 3,
     bp_commit_retry_delay_seconds = Finite (1 / 5), bp_flush_timeout_seconds = Finite 10,
     bp_pending_count = 0, bp_delivered_unacked = False, bp_checkpointed = False,
     bp_commit_outstanding = False\<rparr>"

definition demo_ports :: "(unit, unit, unit, unit) system ports" where
  "demo_ports = bridge_ports proto3 demo_natives demo_rdkafka demo_os None golden_stream"

definition demo_log :: "delivery_event list" where
  "demo_log = [PollOk [demo_record], ProduceOk [116] demo_record [0x6F], FlushOk, PositionOk PNone,
     CheckpointOk PNone, AckOk]"

lemma demo_new_pipeline:
  "new_pipeline (Some (PBytes [0x6F])) None [116] PNone DEFAULT_ACK_RETRIES DEFAULT_ACK_RETRY_DELAY_SECONDS
     DEFAULT_COMMIT_RETRIES DEFAULT_COMMIT_RETRY_DELAY_SECONDS (PInt 10) = Inr demo_pipeline"
  by (simp add: new_pipeline_def require_delay_def resolve_partition_key_def py_zero_def
      demo_pipeline_def DEFAULT_ACK_RETRIES_def DEFAULT_ACK_RETRY_DELAY_SECONDS_def
      DEFAULT_COMMIT_RETRIES_def DEFAULT_COMMIT_RETRY_DELAY_SECONDS_def)

lemma demo_parts_good: "good_parts demo_parts" "\<not> reply_pending demo_parts"
  by (simp_all add: parts_defs demo_parts_def listener_inv_def demo_listener_def demo_producer_inv)

definition demo_polled :: "(unit, unit) listener" where
  "demo_polled = demo_listener\<lparr>li_client := (new_client None 800)\<lparr>fc_db := Some ()\<rparr>, li_consumer := Some (),
     li_awaiting_ack := True\<rparr>"

lemma demo_listener_calls:
  "poll_records proto3 demo_natives None (demo_listener, ()) = (Inr [demo_record], (demo_polled, ()))"
  "get_position demo_natives (demo_polled, ()) = (Inr PNone, (demo_polled, ()))"
  "listener_acknowledge demo_natives (demo_polled, ()) = (Inr (), (demo_polled\<lparr>li_awaiting_ack := False\<rparr>, ()))"
  using demo_records
  by (simp_all add: poll_records_def consume_batch_def consumer_def active_consumer_def get_position_def
      listener_start_def on_client_def client_open_def init_fdb_def create_cdc_consumer_def
      listener_acknowledge_def translating_def on_handle_def blocking_def run_simps demo_listener_def
      new_client_def MINIMUM_CDC_API_VERSION_def demo_natives_def demo_record_def demo_polled_def)

lemma demo_producer_calls:
  "produce proto3 demo_rdkafka topic r key (demo_producer False, ()) = (Inr (), (demo_producer False, ()))"
  "flush_or_raise demo_rdkafka timeout (demo_producer False, ()) = (Inr (), (demo_producer False, ()))"
  by (simp_all add: produce_def flush_or_raise_def flush_def on_producer_def run_simps demo_producer_def
      demo_rdkafka_def quiet_def)

lemma cursor_file_off: "save_cursor_to_file demo_os None position name () = (Inr (), ())"
  by (simp add: save_cursor_to_file_def run_simps)

definition demo_done :: "(unit, unit, unit) parts \<times> unit" where
  "demo_done = (\<lparr>pa_listener = demo_polled\<lparr>li_awaiting_ack := False\<rparr>, pa_last_records = [demo_record],
     pa_producer = demo_producer False\<rparr>, ())"

lemma demo_step:
  "run_steps (traced demo_ports) 1 (demo_pipeline, (demo_parts, [])) =
     ([Inr 1], (demo_pipeline\<lparr>bp_pending_count := 1\<rparr>, (demo_done, demo_log)))"
proof -
  have "mp_transactional (demo_producer False) = False"
    by (simp add: demo_producer_def)
  then show ?thesis
    by (simp add: pipeline_step_def produce_and_flush_def produce_all_def finish_delivery_def
        checkpoint_and_acknowledge_def acknowledge_with_retry_def run_simps demo_pipeline_def demo_ports_def
        demo_parts_def demo_done_def demo_log_def logged_def counting_poll_def on_listener_def on_kafka_def
        demo_listener_calls demo_producer_calls cursor_file_off numeral_3_eq_3)
qed

section \<open>Properties\<close>

text \<open>C2: At least once. In every run of a pipeline, an acknowledgement that succeeds settles a reply
  whose records have all been enqueued for Kafka, in order and under the pipeline's topic and
  partition key, and confirmed by a flush or by the commit of the transaction they were produced in;
  and after that the position behind the reply was read and checkpointed. The log of the run
  changes nothing in it.\<close>

theorem acknowledged_only_after_delivery:
  assumes "new_pipeline raw name topic key ar ad cr cd ft = Inr p" "good_parts s" "\<not> reply_pending s"
    and "run_steps (traced (bridge_ports pb nt rk os cf sn)) n (p, (s, [])) = (rs, (p', (s', es)))"
    and "es = before @ AckOk # rest"
  shows "(\<exists>earlier cs c. before = earlier @ [CheckpointOk c] \<and>
      delivers topic (bp_partition_key p) earlier (cs @ [c])) \<and>
    run_steps (bridge_ports pb nt rk os cf sn) n (p, s) = (rs, (p', s'))"
proof -
  have "in_step good_parts reply_pending (p', (s', es))"
    using new_pipeline_start [OF assms(1-3)] assms(4) by (rule bridge.run_follows)
  then obtain st where "at_stage st (p', (s', es))"
    using bridge.in_step_stage by blast
  moreover have "bp_topic p' = topic" "bp_partition_key p' = bp_partition_key p"
    using run_target [OF assms(4)] new_pipeline_flags [OF assms(1)] by (simp_all add: target_def)
  ultimately have "follow topic (bp_partition_key p) Idle es = Some st"
    by simp
  with assms(5) have "\<exists>earlier cs c. before = earlier @ [CheckpointOk c] \<and>
      delivers topic (bp_partition_key p) earlier (cs @ [c])"
    using acknowledged_history by blast
  moreover have "run_steps (bridge_ports pb nt rk os cf sn) n (p, s) = (rs, (p', s'))"
    using traced_run [OF assms(4)] by (simp add: strip_def)
  ultimately show ?thesis
    by blast
qed

theorem acknowledged_only_after_delivery_witness:
  "delivers [116] [0x6F] [PollOk [demo_record], ProduceOk [116] demo_record [0x6F], FlushOk,
     PositionOk PNone] [PNone]"
proof -
  have log: "demo_log = [PollOk [demo_record], ProduceOk [116] demo_record [0x6F], FlushOk,
      PositionOk PNone, CheckpointOk PNone] @ AckOk # []"
    by (simp add: demo_log_def)
  from acknowledged_only_after_delivery [OF demo_new_pipeline demo_parts_good
      demo_step [unfolded demo_ports_def] log]
  obtain cs where "delivers [116] [0x6F] [PollOk [demo_record], ProduceOk [116] demo_record [0x6F], FlushOk,
      PositionOk PNone] (cs @ [PNone])"
    by (auto simp: demo_pipeline_def)
  moreover from this have "cs = []"
    by (auto simp: delivers_def Cons_eq_append_conv append_eq_Cons_conv)
  ultimately show ?thesis
    by simp
qed

text \<open>C5: The pipeline implements the life cycle of a reply. After every run the log of successful calls is
  accepted by the abstract machine, and the pipeline's flags tell its stage: a commit to be retried is
  an open transaction with everything enqueued, a delivered reply only waits for its checkpoint and
  acknowledgement, and otherwise nothing is pending, or the reply is lost to this pipeline.\<close>

theorem pipeline_follows_life_cycle:
  assumes "new_pipeline raw name topic key ar ad cr cd ft = Inr p" "good_parts s" "\<not> reply_pending s"
    and "run_steps (traced (bridge_ports pb nt rk os cf sn)) n (p, (s, [])) = (rs, (p', (s', es)))"
  shows "\<exists>st. follow topic (bp_partition_key p) Idle es = Some st \<and>
    (if bp_commit_outstanding p' then st = Publishing True []
     else if bp_delivered_unacked p' then
       if bp_checkpointed p' then st = Saved else st = Delivered \<or> (\<exists>c. st = Located c)
     else if reply_pending s' then undelivered st else st = Idle)"
proof -
  have step: "in_step good_parts reply_pending (p', (s', es))"
    using new_pipeline_start [OF assms(1-3)] assms(4) by (rule bridge.run_follows)
  have "bp_topic p' = topic" "bp_partition_key p' = bp_partition_key p"
    using run_target [OF assms(4)] new_pipeline_flags [OF assms(1)] by (simp_all add: target_def)
  with step show ?thesis
    by (auto simp: in_step_def Let_def split: if_splits)
qed

theorem pipeline_follows_life_cycle_witness:
  "follow [116] [0x6F] Idle demo_log = Some Idle"
  using pipeline_follows_life_cycle [OF demo_new_pipeline demo_parts_good
      demo_step [unfolded demo_ports_def]]
  by (auto simp: demo_pipeline_def demo_done_def reply_pending_def)

end
