(* ===== verification/Bridge_Safety.thy ===== *)
theory Bridge_Safety
  imports Bridge Pipeline_Delivery
begin

text \<open>
  The state of the daemon. Its invariant says that the handles are well-formed and that the pipeline,
  when there is one, runs on the bridge's own listener and producer with flags that are true of the
  listener's pending reply. Every method and every round of the run loop keeps it, whatever the
  FoundationDB binding, librdkafka, the file system and the other threads do.
\<close>

section \<open>The flags of a pipeline\<close>

definition consistent :: "pipeline \<Rightarrow> bool \<Rightarrow> bool" where
  "consistent q pending \<longleftrightarrow>
     (if bp_commit_outstanding q then pending \<and> \<not> bp_delivered_unacked q \<and> \<not> bp_checkpointed q
      else if bp_delivered_unacked q then pending
      else \<not> bp_checkpointed q)"

text \<open>Consistent flags are those of a pipeline somewhere on the life cycle of \<open>Pipeline_Protocol\<close>.\<close>

lemma in_step_consistent: "in_step good pending (q, (s, es)) \<Longrightarrow> consistent q (pending s)"
  by (auto simp: in_step_def consistent_def Let_def split: if_splits)

lemma consistent_in_step:
  assumes "good s" "consistent q (pending s)"
  shows "\<exists>es. in_step good pending (q, (s, es))"
proof -
  obtain r :: pb_record where True
    by simp
  let ?produced = "\<lambda>b. [PollOk [r]] @ (if b then [BeginOk] else []) @ [ProduceOk (bp_topic q) r (bp_partition_key q)]"
  let ?delivered = "?produced False @ [FlushOk]"
  let ?log =
    "if bp_commit_outstanding q then ?produced True
     else if bp_delivered_unacked q then
       if bp_checkpointed q then ?delivered @ [PositionOk PNone, CheckpointOk PNone] else ?delivered
     else if pending s then [PollOk [r]] else []"
  have "in_step good pending (q, (s, ?log))"
    using assms by (auto simp: in_step_def consistent_def Let_def intro!: exI [of _ "Publishing False [r]"])
  then show ?thesis
    by blast
qed

lemma step_consistent:
  assumes "good_parts s" "consistent q (reply_pending s)"
    and "pipeline_step (bridge_ports pb nt rk os cf sn) (q, s) = (r, (q', s'))"
  shows "good_parts s' \<and> consistent q' (reply_pending s')"
proof -
  let ?pt = "bridge_ports pb nt rk os cf sn"
  obtain es where start: "in_step good_parts reply_pending (q, (s, es))"
    using consistent_in_step [of good_parts s q reply_pending] assms(1,2) by blast
  obtain t where run: "pipeline_step (traced ?pt) (q, (s, es)) = (r, t)" "strip t = (q', s')"
    using erasesD [OF erases_step [of ?pt], of "(q, (s, es))"] assms(3)
    by (metis (no_types, lifting) fst_conv prod.collapse prod.inject snd_conv strip_def)
  then obtain es' where "t = (q', (s', es'))"
    by (metis fst_conv prod.collapse snd_conv strip_def)
  with run have "run_steps (traced ?pt) 1 (q, (s, es)) = ([r], (q', (s', es')))"
    by simp
  from bridge.run_follows [OF start this] have "in_step good_parts reply_pending (q', (s', es'))" .
  from in_step_consistent [OF this] this show ?thesis
    by (simp add: in_step_def)
qed

section \<open>The invariant\<close>

definition sound_factory :: "('w, 'h producer) eff \<Rightarrow> bool" where
  "sound_factory f \<longleftrightarrow> (\<forall>w p w'. f w = (Inr p, w') \<longrightarrow> producer_inv p)"

lemma sound_factoryD: "f w = (Inr p, w') \<Longrightarrow> sound_factory f \<Longrightarrow> producer_inv p"
  by (auto simp: sound_factory_def)

lemma config_factory_sound: "sound_factory (producer_from_config rk config)"
  by (auto simp: sound_factory_def producer_from_config_def new_producer_def run_simps producer_inv_def
      merged_config_def split: prod.splits sum.splits if_splits)

definition bridge_inv :: "('d, 'c, 'h, 'w) bridge \<Rightarrow> bool" where
  "bridge_inv b \<longleftrightarrow>
     (\<forall>l. br_listener b = Some l \<longrightarrow> listener_inv l) \<and>
     (\<forall>p. br_producer b = Some p \<longrightarrow> producer_inv p) \<and>
     sound_factory (br_producer_factory b) \<and>
     (\<forall>q. br_pipeline b = Some q \<longrightarrow> br_producer b \<noteq> None \<and> br_counted b \<noteq> None \<and>
        (\<exists>l. br_listener b = Some l \<and> consistent q (li_awaiting_ack l)))"

abbreviation bridge_safe :: "(('d, 'c, 'h, 'w) bridge \<times> 'w, 'a) eff \<Rightarrow> bool" where
  "bridge_safe \<equiv> preserves (\<lambda>s. bridge_inv (fst s))"

lemma outside_safe: "bridge_safe (outside m)"
  by (rule preserves_outside) simp

lemmas safe_intros = preserves_intros outside_safe

section \<open>Methods of the parts\<close>

text \<open>
  A method of the listener keeps the invariant when it keeps the listener's and, with a pipeline on it,
  the pending reply.
\<close>

lemma put_listener_fields [simp]:
  "br_listener (put_listener l b) = Some l" "br_producer (put_listener l b) = br_producer b"
  "br_pipeline (put_listener l b) = br_pipeline b" "br_counted (put_listener l b) = br_counted b"
  "br_config (put_listener l b) = br_config b" "br_producer_factory (put_listener l b) = br_producer_factory b"
  "br_shutdown_requested (put_listener l b) = br_shutdown_requested b"
  by (simp_all add: put_listener_def)

lemma put_listener_inv:
  "bridge_inv b \<Longrightarrow> br_listener b = Some l \<Longrightarrow> listener_inv l' \<Longrightarrow> li_awaiting_ack l' = li_awaiting_ack l \<Longrightarrow>
     bridge_inv (put_listener l' b)"
  by (simp add: bridge_inv_def)

lemma wp_on_bridge_listener:
  assumes "\<And>l. br_listener (fst s) = Some l \<Longrightarrow>
      wp m (\<lambda>x t. Q x (put_listener (fst t) (fst s), snd t)) (\<lambda>e t. E e (put_listener (fst t) (fst s), snd t))
        (l, snd s)"
    and "br_listener (fst s) = None \<Longrightarrow> E AttributeError s"
  shows "wp (on_bridge_listener m) Q E s"
  using assms by (auto simp: on_bridge_listener_def wp_simps split: option.split)

lemma wp_on_bridge_producer:
  assumes "\<And>p. br_producer (fst s) = Some p \<Longrightarrow>
      wp m (\<lambda>x t. Q x ((fst s)\<lparr>br_producer := Some (fst t)\<rparr>, snd t))
        (\<lambda>e t. E e ((fst s)\<lparr>br_producer := Some (fst t)\<rparr>, snd t)) (p, snd s)"
    and "br_producer (fst s) = None \<Longrightarrow> E AttributeError s"
  shows "wp (on_bridge_producer m) Q E s"
  using assms by (auto simp: on_bridge_producer_def wp_simps split: option.split)

lemma listener_method_safe:
  fixes m :: "(('d, 'c) listener \<times> 'w, 'a) eff"
  assumes "\<And>s. listener_inv (fst s) \<Longrightarrow>
    wp m (\<lambda>_ t. listener_inv (fst t) \<and> li_awaiting_ack (fst t) = li_awaiting_ack (fst s))
      (\<lambda>_ t. listener_inv (fst t) \<and> li_awaiting_ack (fst t) = li_awaiting_ack (fst s)) s"
  shows "bridge_safe (on_bridge_listener m)"
proof (rule preservesI, rule wp_on_bridge_listener)
  fix s :: "('d, 'c, 'h, 'w) bridge \<times> 'w" and l
  assume inv: "bridge_inv (fst s)" and l: "br_listener (fst s) = Some l"
  then have "listener_inv (fst (l, snd s))"
    by (simp add: bridge_inv_def)
  from assms [OF this] show "wp m (\<lambda>x t. bridge_inv (fst (put_listener (fst t) (fst s), snd t)))
      (\<lambda>e t. bridge_inv (fst (put_listener (fst t) (fst s), snd t))) (l, snd s)"
    by (rule wp_weaken) (use put_listener_inv [OF inv l] in auto)
qed

lemma listener_calls_safe:
  "bridge_safe (on_bridge_listener (listener_close nt))" "bridge_safe (on_bridge_listener (listener_start nt))"
proof -
  show "bridge_safe (on_bridge_listener (listener_close nt))"
    by (rule listener_method_safe) (rule wp_weaken [OF close_effect], auto simp: listener_inv_def)
  show "bridge_safe (on_bridge_listener (listener_start nt))"
    by (rule listener_method_safe, rule wp_weaken [OF start_kept]) (auto simp: kept_inv, auto simp: kept_def)
qed

lemma producer_method_safe:
  fixes m :: "('h producer \<times> 'w, 'a) eff"
  assumes "\<And>s. producer_inv (fst s) \<Longrightarrow> wp m (\<lambda>_ t. producer_inv (fst t)) (\<lambda>_ t. producer_inv (fst t)) s"
  shows "bridge_safe (on_bridge_producer m)"
proof (rule preservesI, rule wp_on_bridge_producer)
  fix s :: "('d, 'c, 'h, 'w) bridge \<times> 'w" and p
  assume inv: "bridge_inv (fst s)" and p: "br_producer (fst s) = Some p"
  then have "producer_inv (fst (p, snd s))"
    by (simp add: bridge_inv_def)
  from assms [OF this] show "wp m (\<lambda>x t. bridge_inv (fst ((fst s)\<lparr>br_producer := Some (fst t)\<rparr>, snd t)))
      (\<lambda>e t. bridge_inv (fst ((fst s)\<lparr>br_producer := Some (fst t)\<rparr>, snd t))) (p, snd s)"
    by (rule wp_weaken) (use inv p in \<open>auto simp: bridge_inv_def\<close>)
qed

lemma producer_keeps_inv:
  assumes "producer_inv (fst s)"
  shows "wp (call_method pb rk m) (\<lambda>_ t. producer_inv (fst t)) (\<lambda>_ t. producer_inv (fst t)) s"
  by (rule wp_weaken [OF call_effect [OF assms]]) (auto simp: ok_post_def err_post_def)

lemma producer_calls_safe:
  "bridge_safe (on_bridge_producer (producer_close rk timeout))"
  "bridge_safe (on_bridge_producer (bnd (self_gets mp_transactional) (\<lambda>transactional.
     if transactional then init_transactions rk timeout else ret ())))"
  using producer_keeps_inv [where m = "Close timeout"] producer_keeps_inv [where m = "InitTransactions timeout"]
  by (auto intro!: producer_method_safe simp: wp_bnd wp_self_gets wp_ret)

text \<open>A method of the pipeline, on the handles of the bridge.\<close>

lemma pipeline_method_safe:
  fixes m :: "(pipeline \<times> ('d, 'c, 'h, 'w) system, 'a) eff"
  assumes "\<And>q s r q' s'. m (q, s) = (r, (q', s')) \<Longrightarrow> good_parts s \<Longrightarrow> consistent q (reply_pending s) \<Longrightarrow>
    good_parts s' \<and> consistent q' (reply_pending s')"
  shows "bridge_safe (on_pipeline m)"
proof (rule preservesI)
  fix s :: "('d, 'c, 'h, 'w) bridge \<times> 'w"
  assume inv: "bridge_inv (fst s)"
  have "bridge_inv (fst t)" if run: "on_pipeline m s = (r, t)" for r t
  proof (cases "br_pipeline (fst s)")
    case None
    with run inv show ?thesis
      by (auto simp: on_pipeline_def run_simps)
  next
    case (Some q)
    then obtain l p records where parts: "br_listener (fst s) = Some l" "br_producer (fst s) = Some p"
      "br_counted (fst s) = Some records" "consistent q (li_awaiting_ack l)" "listener_inv l" "producer_inv p"
      "sound_factory (br_producer_factory (fst s))"
      using inv by (auto simp: bridge_inv_def)
    obtain r' q' parts' w' where step: "m (q, (\<lparr>pa_listener = l, pa_last_records = records, pa_producer = p\<rparr>, snd s)) =
        (r', (q', (parts', w')))"
      by (metis surj_pair)
    from assms [OF step] have "good_parts (parts', w') \<and> consistent q' (reply_pending (parts', w'))"
      using parts by (simp add: parts_defs)
    with run step parts Some show ?thesis
      by (auto simp: on_pipeline_def run_simps bridge_inv_def parts_defs)
  qed
  then show "wp (on_pipeline m) (\<lambda>_ t. bridge_inv (fst t)) (\<lambda>_ t. bridge_inv (fst t)) s"
    by (auto intro: wp_I)
qed

lemma bridge_step_safe: "bridge_safe (bridge_step env)"
  unfolding bridge_step_def ports_of_def
  by (intro safe_intros pipeline_method_safe) (rule step_consistent)

lemma pop_safe: "bridge_safe (on_pipeline (outside pop_last_records))"
  by (rule pipeline_method_safe) (auto simp: pop_last_records_def run_simps parts_defs)

lemma bridge_step_settles:
  assumes "bridge_step env s = (Inr n, t)"
  shows "\<not> commit_pending (fst t)"
  using assms
  by (auto simp: bridge_step_def on_pipeline_def run_simps put_listener_def commit_pending_def
      split: option.splits prod.splits dest: returned_step_is_finished)

text \<open>More fuel than the two rounds of \<open>finish_outstanding_commit\<close> makes no difference.\<close>

lemma finish_loop_settled: "\<not> commit_pending (fst s) \<Longrightarrow> finish_loop env (Suc n) deadline s = (Inr (), s)"
  by (simp add: run_simps)

lemma finish_loop_fuel: "finish_loop env (Suc (Suc n)) deadline s = finish_loop env 2 deadline s"
  unfolding numeral_2_eq_2 finish_loop.simps(2) [of _ "Suc _"]
  by (auto simp: run_simps finish_loop_settled [OF bridge_step_settles] simp del: finish_loop.simps
      split: prod.split sum.split)

section \<open>Building and discarding\<close>

text \<open>Without a pipeline a handle may be replaced or dropped.\<close>

definition unbuilt :: "('d, 'c, 'h, 'w) bridge \<times> 'w \<Rightarrow> bool" where
  "unbuilt s \<longleftrightarrow> bridge_inv (fst s) \<and> br_pipeline (fst s) = None"

lemma part_methods_keep_pipeline:
  "preserves (\<lambda>s. br_pipeline (fst s) = v) (on_bridge_listener m)"
  "preserves (\<lambda>s. br_pipeline (fst s) = v) (on_bridge_producer n)"
  "preserves (\<lambda>s. br_pipeline (fst s) = v) (on_bridge_client k)"
  by (rule preservesI, auto simp: on_bridge_listener_def on_bridge_producer_def on_bridge_client_def
      wp_simps intro!: wp_all split: option.split)+

lemma unbuilt_preserves:
  "bridge_safe m \<Longrightarrow> preserves (\<lambda>s. br_pipeline (fst s) = None) m \<Longrightarrow> preserves unbuilt m"
  by (simp add: preserves_def unbuilt_def)

lemma outside_unbuilt: "preserves unbuilt (outside m)"
  by (rule preserves_outside) (simp add: unbuilt_def)

lemmas unbuilt_parts = unbuilt_preserves [OF listener_calls_safe(1) part_methods_keep_pipeline(1)]
  unbuilt_preserves [OF listener_calls_safe(2) part_methods_keep_pipeline(1)]
  unbuilt_preserves [OF producer_calls_safe(1) part_methods_keep_pipeline(2)]
  unbuilt_preserves [OF producer_calls_safe(2) part_methods_keep_pipeline(2)]
  outside_unbuilt

text \<open>However a part's close ends, the rest of \<open>_discard_listener_and_producer\<close> runs without it.\<close>

definition discarded :: "('d, 'c, 'h, 'w) bridge \<times> 'w \<Rightarrow> bool" where
  "discarded s \<longleftrightarrow> unbuilt s \<and> br_listener (fst s) = None \<and> br_producer (fst s) = None"

lemma wp_ignoring:
  assumes "preserves I m" "I s"
  shows "wp (ignoring m) (\<lambda>_. I) (\<lambda>e t. I t \<and> \<not> is_Exception e) s"
  using assms unfolding ignoring_def wp_catch by (auto simp: wp_ret intro: wp_preserves)

lemma listener_part_keeps:
  "preserves (\<lambda>s. br_producer (fst s) = v \<and> br_config (fst s) = c) (on_bridge_listener m)"
  by (rule preservesI) (auto simp: on_bridge_listener_def wp_simps intro!: wp_all split: option.split)

lemma producer_part_keeps:
  "preserves (\<lambda>s. br_listener (fst s) = v \<and> br_config (fst s) = c) (on_bridge_producer m)"
  by (rule preservesI) (auto simp: on_bridge_producer_def wp_simps intro!: wp_all split: option.split)

lemma preserves_conj: "preserves I m \<Longrightarrow> preserves J m \<Longrightarrow> preserves (\<lambda>s. I s \<and> J s) m"
  by (simp add: preserves_def)

lemma discard_effect:
  assumes "bridge_inv (fst s)"
  shows "wp (discard_listener_and_producer env) (\<lambda>_ t. discarded t \<and> br_config (fst t) = br_config (fst s))
    (\<lambda>e t. unbuilt t \<and> \<not> is_Exception e) s"
proof -
  let ?b = "(fst s)\<lparr>br_pipeline := None, br_counted := None\<rparr>"
  let ?I = "\<lambda>l p t. unbuilt t \<and> br_producer (fst t) = p \<and> br_config (fst t) = br_config (fst s)"
  have start: "unbuilt (?b, snd s)"
    using assms by (simp add: unbuilt_def bridge_inv_def)
  have listener_closed: "wp (if br_listener (fst s) \<noteq> None
      then thn (ignoring (on_bridge_listener (listener_close (en_natives env))))
             (self_modify (\<lambda>b. b\<lparr>br_listener := None\<rparr>)) else ret ())
      (\<lambda>_ t. unbuilt t \<and> br_listener (fst t) = None \<and> br_producer (fst t) = br_producer (fst s) \<and>
         br_config (fst t) = br_config (fst s)) (\<lambda>e t. unbuilt t \<and> \<not> is_Exception e) (?b, snd s)"
    using start
    by (auto simp: wp_thn wp_self_modify_fun wp_ret unbuilt_def bridge_inv_def
        intro!: wp_weaken [OF wp_ignoring [OF preserves_conj [OF unbuilt_parts(1) listener_part_keeps]]])
  have producer_closed: "wp (if br_producer (fst s) \<noteq> None
      then thn (ignoring (on_bridge_producer (producer_close (en_rdkafka env) timeout)))
             (self_modify (\<lambda>b. b\<lparr>br_producer := None\<rparr>)) else ret ())
      (\<lambda>_ t. discarded t \<and> br_config (fst t) = br_config (fst s)) (\<lambda>e t. unbuilt t \<and> \<not> is_Exception e) t"
    if "unbuilt t \<and> br_listener (fst t) = None \<and> br_producer (fst t) = br_producer (fst s) \<and>
      br_config (fst t) = br_config (fst s)" for t timeout
    using that
    by (auto simp: wp_thn wp_self_modify_fun wp_ret unbuilt_def bridge_inv_def discarded_def
        intro!: wp_weaken [OF wp_ignoring [OF preserves_conj [OF unbuilt_parts(3) producer_part_keeps]]])
  show ?thesis
    unfolding discard_listener_and_producer_def wp_bnd wp_self_gets wp_thn [of "self_modify _"]
      wp_self_modify id_apply wp_thn [of "if _ then _ else _"]
    by (rule wp_weaken [OF listener_closed producer_closed])
qed

text \<open>Building keeps the configuration; each part leaves the handles the others have set.\<close>

lemma build_client_effect:
  assumes "unbuilt s"
  shows "wp (build_client env)
    (\<lambda>_ t. unbuilt t \<and> br_config (fst t) = br_config (fst s) \<and> br_listener (fst t) = br_listener (fst s))
    (\<lambda>_ t. unbuilt t) s"
  using assms unfolding build_client_def
  by (auto simp: wp_bnd wp_self_gets wp_ret wp_self_modify_fun wp_outside unbuilt_def bridge_inv_def intro!: wp_all)

definition fresh_listener :: "('d, 'c, 'h, 'w) bridge \<Rightarrow> bool" where
  "fresh_listener b \<longleftrightarrow> utf8_encode (cf_stream_name (cf_cdc (br_config b))) \<noteq> None \<and>
     (\<exists>l. br_listener b = Some l \<and> \<not> li_awaiting_ack l \<and> \<not> li_delivery_failed l)"

lemma start_listener_effect:
  assumes "unbuilt s" "fresh_listener (fst s)"
  shows "wp (on_bridge_listener (listener_start nt))
    (\<lambda>_ t. unbuilt t \<and> br_config (fst t) = br_config (fst s) \<and> fresh_listener (fst t)) (\<lambda>_ t. unbuilt t) s"
proof (rule wp_on_bridge_listener)
  fix l
  assume l: "br_listener (fst s) = Some l"
  with assms have inv: "listener_inv (fst (l, snd s))"
    by (auto simp: unbuilt_def bridge_inv_def)
  from start_kept [OF this, of nt]
  show "wp (listener_start nt) (\<lambda>x t. unbuilt (put_listener (fst t) (fst s), snd t) \<and>
        br_config (fst (put_listener (fst t) (fst s), snd t)) = br_config (fst s) \<and>
        fresh_listener (fst (put_listener (fst t) (fst s), snd t)))
      (\<lambda>e t. unbuilt (put_listener (fst t) (fst s), snd t)) (l, snd s)"
    by (rule wp_weaken) (use assms l kept_inv [OF _ inv] in
      \<open>auto simp: unbuilt_def bridge_inv_def fresh_listener_def, auto simp: kept_def\<close>)
qed (use assms in auto)

lemma new_listener_fresh:
  "new_listener client (PStr name) kr space cursor sz timeout interval = Inr l \<Longrightarrow>
     listener_inv l \<and> \<not> li_awaiting_ack l \<and> \<not> li_delivery_failed l \<and> utf8_encode name \<noteq> None"
  by (auto simp: new_listener_def result_simps listener_inv_def split: if_splits option.splits)

lemma build_listener_effect:
  assumes "unbuilt s"
  shows "wp (build_listener env)
    (\<lambda>_ t. unbuilt t \<and> br_config (fst t) = br_config (fst s) \<and> br_listener (fst t) \<noteq> None \<and>
       (br_listener (fst s) = None \<longrightarrow> fresh_listener (fst t)))
    (\<lambda>_ t. unbuilt t) s"
proof (cases "br_listener (fst s)")
  case (Some l)
  with assms show ?thesis
    by (simp add: build_listener_def wp_bnd wp_self_gets wp_ret)
next
  case None
  let ?Q = "\<lambda>_ t. unbuilt t \<and> br_config (fst t) = br_config (fst s) \<and> fresh_listener (fst t)"
  have started: "wp (on_bridge_listener (listener_start (en_natives env))) ?Q (\<lambda>_. unbuilt)
      ((put_listener l (fst s))\<lparr>br_shared := True\<rparr>, w)"
    if "new_listener client (PStr (cf_stream_name (cf_cdc (br_config (fst s))))) kr None cursor sz timeout
      interval = Inr l" for client kr cursor sz timeout interval l w
  proof (rule wp_weaken [OF start_listener_effect])
    show "unbuilt ((put_listener l (fst s))\<lparr>br_shared := True\<rparr>, w)"
      using assms new_listener_fresh [OF that] by (simp add: unbuilt_def bridge_inv_def)
    show "fresh_listener (fst ((put_listener l (fst s))\<lparr>br_shared := True\<rparr>, w))"
      using new_listener_fresh [OF that] by (simp add: fresh_listener_def)
  qed auto
  have moved: "unbuilt (fst s, w)" for w
    using assms by (simp add: unbuilt_def)
  have "wp (build_listener env) ?Q (\<lambda>_. unbuilt) s"
    unfolding build_listener_def wp_bnd wp_self_gets id_apply wp_if wp_ret Let_def wp_outside wp_liftE wp_thn
      wp_self_modify
    by (simp only: None if_True refl, rule wp_all)
      (auto simp: moved split: sum.split option.split intro: started)
  then show ?thesis
    by (rule wp_weaken) (auto simp: fresh_listener_def)
qed

lemma build_producer_effect:
  assumes "unbuilt s"
  shows "wp (build_producer env)
    (\<lambda>_ t. unbuilt t \<and> br_config (fst t) = br_config (fst s) \<and> br_listener (fst t) = br_listener (fst s) \<and>
       br_producer (fst t) \<noteq> None)
    (\<lambda>_ t. unbuilt t) s"
proof -
  let ?I = "\<lambda>t. unbuilt t \<and> br_config (fst t) = br_config (fst s) \<and> br_listener (fst t) = br_listener (fst s)"
  let ?init = "on_bridge_producer (bnd (self_gets mp_transactional) (\<lambda>transactional.
      if transactional then init_transactions (en_rdkafka env) (Finite 30) else ret ()))"
  have made: "wp (bnd (self_gets id) (\<lambda>self. if br_producer self = None
      then bnd (outside (br_producer_factory self)) (\<lambda>p. self_modify (\<lambda>b. b\<lparr>br_producer := Some p\<rparr>))
      else ret ())) (\<lambda>_ t. ?I t \<and> br_producer (fst t) \<noteq> None) (\<lambda>_ t. unbuilt t) s"
    using assms unfolding wp_bnd wp_self_gets
    by (auto simp: wp_bnd wp_outside wp_self_modify_fun wp_ret unbuilt_def bridge_inv_def
        intro!: wp_I dest: sound_factoryD)
  have keep: "preserves ?I ?init"
    using preserves_conj [OF unbuilt_parts(4) producer_part_keeps] by (simp add: conj_ac)
  have some: "wp ?init (\<lambda>_ t. br_producer (fst t) \<noteq> None) (\<lambda>_ _. True) t" for t
    by (rule wp_on_bridge_producer) (auto intro!: wp_all)
  have "wp ?init (\<lambda>_ t. ?I t \<and> br_producer (fst t) \<noteq> None) (\<lambda>_ t. unbuilt t) t" if "?I t" for t
    by (rule wp_weaken [OF wp_conj [OF keep [unfolded preserves_wp, rule_format, OF that] some]]) auto
  then show ?thesis
    unfolding build_producer_def wp_thn by (intro wp_weaken [OF made]) auto
qed

text \<open>Assembling fails only for a configuration \<open>from_dict\<close> would not have accepted.\<close>

definition fresh_pipeline :: "('d, 'c, 'h, 'w) bridge \<Rightarrow> bool" where
  "fresh_pipeline b \<longleftrightarrow> br_counted b = Some [] \<and>
     (\<exists>q. br_pipeline b = Some q \<and> \<not> bp_commit_outstanding q \<and> \<not> bp_delivered_unacked q \<and> \<not> bp_checkpointed q)"

lemma valid_flush_timeout:
  assumes "valid_seconds x"
  shows "require_delay (PFloat x) = Inr x" "\<not> py_le x py_zero" "to_double x = Inr x"
  using assms by (cases x; simp add: valid_seconds_def not_rejected_def require_delay_def py_zero_def)+

lemma valid_pipeline_builds:
  assumes "valid_config config" "utf8_encode (cf_stream_name (cf_cdc config)) = Some bs"
  shows "\<exists>q. config_pipeline config raw name = Inr q"
proof -
  have "cf_stream_name (cf_cdc config) \<noteq> []"
    using assms(1) by (auto simp: valid_config_def valid_cdc_def blank_def)
  then have "bs \<noteq> []"
    using assms(2) utf8_encode_Nil_iff by blast
  moreover have "valid_seconds (cf_flush_timeout_seconds (cf_pipeline config))"
    using assms(1) by (simp add: valid_config_def valid_pipeline_def)
  note valid_flush_timeout [OF this]
  ultimately show ?thesis
    by (simp add: config_pipeline_def assms(2) new_pipeline_def resolve_partition_key_def require_delay_def [of "PFloat (Finite _)"] py_zero_def
        DEFAULT_ACK_RETRIES_def DEFAULT_ACK_RETRY_DELAY_SECONDS_def
        DEFAULT_COMMIT_RETRIES_def DEFAULT_COMMIT_RETRY_DELAY_SECONDS_def)
qed

lemma invalid_pipeline:
  "config_pipeline config raw name = Inl e \<Longrightarrow> valid_config config \<Longrightarrow>
     utf8_encode (cf_stream_name (cf_cdc config)) = None"
  using valid_pipeline_builds [of config _ raw name] by (cases "utf8_encode (cf_stream_name (cf_cdc config))") auto

lemma config_pipeline_flags:
  "config_pipeline config raw name = Inr q \<Longrightarrow>
     \<not> bp_commit_outstanding q \<and> \<not> bp_delivered_unacked q \<and> \<not> bp_checkpointed q"
  by (auto simp: config_pipeline_def bindE_eq_Inr dest: new_pipeline_flags)

lemma assemble_effect:
  assumes "unbuilt s" "br_listener (fst s) \<noteq> None" "br_producer (fst s) \<noteq> None"
  shows "wp assemble_pipeline
    (\<lambda>_ t. bridge_inv (fst t) \<and> br_config (fst t) = br_config (fst s) \<and> br_listener (fst t) = br_listener (fst s) \<and>
       fresh_pipeline (fst t))
    (\<lambda>_ t. unbuilt t \<and> \<not> (valid_config (br_config (fst s)) \<and>
       utf8_encode (cf_stream_name (cf_cdc (br_config (fst s)))) \<noteq> None)) s"
  using assms
  by (auto simp: assemble_pipeline_def wp_simps unbuilt_def bridge_inv_def fresh_pipeline_def consistent_def
      split: sum.split dest: config_pipeline_flags invalid_pipeline)

text \<open>What a build leaves: a fresh pipeline, or nothing but the client when an \<open>Exception\<close> stopped it.\<close>

lemma build_effect:
  fixes env :: "('d, 'c, 'h, 'w) environment" and s :: "('d, 'c, 'h, 'w) bridge \<times> 'w"
  assumes "unbuilt s"
  shows "wp (build_pipeline env)
    (\<lambda>_ t. bridge_inv (fst t) \<and> fresh_pipeline (fst t) \<and> (br_listener (fst s) = None \<longrightarrow> fresh_listener (fst t)))
    (\<lambda>e t. unbuilt t \<and> (is_Exception e \<longrightarrow> discarded t \<or>
       \<not> (valid_config (br_config (fst s)) \<and> br_listener (fst s) = None))) s"
proof -
  let ?parts = "\<lambda>t :: ('d, 'c, 'h, 'w) bridge \<times> 'w. unbuilt t \<and> br_config (fst t) = br_config (fst s) \<and> br_listener (fst t) \<noteq> None \<and>
      br_producer (fst t) \<noteq> None \<and> (br_listener (fst s) = None \<longrightarrow> fresh_listener (fst t))"
  have "wp (build_producer env) (\<lambda>_. ?parts) (\<lambda>_. unbuilt) t"
    if "unbuilt t \<and> br_config (fst t) = br_config (fst s) \<and> br_listener (fst t) \<noteq> None \<and>
      (br_listener (fst s) = None \<longrightarrow> fresh_listener (fst t))" for t
    using that by (intro wp_weaken [OF build_producer_effect]) (auto simp: fresh_listener_def)
  then have "wp (thn (build_listener env) (build_producer env)) (\<lambda>_. ?parts) (\<lambda>_. unbuilt) t"
    if "unbuilt t \<and> br_config (fst t) = br_config (fst s) \<and> br_listener (fst t) = br_listener (fst s)" for t
    unfolding wp_thn using that by (intro wp_weaken [OF build_listener_effect]) auto
  then have "wp (thn (build_client env) (thn (build_listener env) (build_producer env))) (\<lambda>_. ?parts) (\<lambda>_. unbuilt) s"
    unfolding wp_thn [of "build_client env"] by (intro wp_weaken [OF build_client_effect [OF assms]]) auto
  then have tried: "wp (catch (thn (build_client env) (thn (build_listener env) (build_producer env))) is_Exception
      (\<lambda>exc. thn (discard_listener_and_producer env) (raise exc)))
      (\<lambda>_. ?parts) (\<lambda>e t. unbuilt t \<and> (is_Exception e \<longrightarrow> discarded t)) s"
    unfolding wp_catch
  proof (rule wp_weaken)
    fix e and t :: "('d, 'c, 'h, 'w) bridge \<times> 'w"
    assume t: "unbuilt t"
    then have "bridge_inv (fst t)"
      by (simp add: unbuilt_def)
    from discard_effect [OF this, of env] t
    show "if is_Exception e then wp (thn (discard_listener_and_producer env) (raise e)) (\<lambda>_. ?parts)
        (\<lambda>e t. unbuilt t \<and> (is_Exception e \<longrightarrow> discarded t)) t else unbuilt t \<and> (is_Exception e \<longrightarrow> discarded t)"
      by (auto simp: wp_thn wp_raise discarded_def elim!: wp_weaken)
  qed
  have "wp assemble_pipeline
      (\<lambda>_ t. bridge_inv (fst t) \<and> fresh_pipeline (fst t) \<and> (br_listener (fst s) = None \<longrightarrow> fresh_listener (fst t)))
      (\<lambda>e t. unbuilt t \<and> (is_Exception e \<longrightarrow> discarded t \<or>
         \<not> (valid_config (br_config (fst s)) \<and> br_listener (fst s) = None))) t" if "?parts t" for t
    using that by (intro wp_weaken [OF assemble_effect]) (auto simp: fresh_listener_def)
  then show ?thesis
    unfolding build_pipeline_def wp_thn by (intro wp_weaken [OF tried]) auto
qed

lemma wp_build:
  assumes "unbuilt s"
  shows "wp (build_pipeline env) (\<lambda>_ t. bridge_inv (fst t)) (\<lambda>_ t. bridge_inv (fst t)) s"
  by (rule wp_weaken [OF build_effect [OF assms]]) (auto simp: unbuilt_def)

lemma start_safe: "bridge_safe (bridge_start env)"
  by (rule preservesI) (auto simp: bridge_start_def wp_bnd wp_self_gets wp_ret wp_raise unbuilt_def intro!: wp_build)

lemma rebuild_effect:
  assumes "bridge_inv (fst s)" "\<not> commit_pending (fst s)"
  shows "wp (rebuild_pipeline env)
    (\<lambda>_ t. bridge_inv (fst t) \<and> fresh_pipeline (fst t) \<and> fresh_listener (fst t))
    (\<lambda>e t. unbuilt t \<and> (is_Exception e \<and> valid_config (br_config (fst s)) \<longrightarrow> discarded t)) s"
proof -
  have "wp (build_pipeline env) (\<lambda>_ t. bridge_inv (fst t) \<and> fresh_pipeline (fst t) \<and> fresh_listener (fst t))
      (\<lambda>e t. unbuilt t \<and> (is_Exception e \<and> valid_config (br_config (fst s)) \<longrightarrow> discarded t)) t"
    if "discarded t \<and> br_config (fst t) = br_config (fst s)" for t
    using that by (intro wp_weaken [OF build_effect]) (auto simp: discarded_def)
  then have "wp (thn (discard_listener_and_producer env) (build_pipeline env))
      (\<lambda>_ t. bridge_inv (fst t) \<and> fresh_pipeline (fst t) \<and> fresh_listener (fst t))
      (\<lambda>e t. unbuilt t \<and> (is_Exception e \<and> valid_config (br_config (fst s)) \<longrightarrow> discarded t)) s"
    unfolding wp_thn by (intro wp_weaken [OF discard_effect [OF assms(1)]]) auto
  then show ?thesis
    using assms(2) unfolding rebuild_pipeline_def wp_bnd wp_self_gets commit_pending_def by simp
qed

lemma rebuild_safe:
  fixes env :: "('d, 'c, 'h, 'w) environment"
  shows "bridge_safe (rebuild_pipeline env)"
proof (rule preservesI)
  fix s :: "('d, 'c, 'h, 'w) bridge \<times> 'w"
  assume inv: "bridge_inv (fst s)"
  show "wp (rebuild_pipeline env) (\<lambda>_ t. bridge_inv (fst t)) (\<lambda>_ t. bridge_inv (fst t)) s"
  proof (cases "commit_pending (fst s)")
    case True
    with inv show ?thesis
      by (auto simp: rebuild_pipeline_def wp_simps commit_pending_def split: option.splits)
  next
    case False
    from rebuild_effect [OF inv this] show ?thesis
      by (rule wp_weaken) (auto simp: unbuilt_def)
  qed
qed

section \<open>The run loop and stop\<close>

lemma others_safe: "bridge_safe (others env)"
  by (auto simp: preserves_def others_def bridge_inv_def split: prod.split interference.split)

lemma request_shutdown_safe: "bridge_safe request_shutdown"
  unfolding request_shutdown_def by (rule preserves_modify) (simp add: bridge_inv_def)

lemma prepare_safe: "bridge_safe (prepare env pending)"
  unfolding prepare_def by (intro safe_intros others_safe rebuild_safe)

lemma publish_safe: "bridge_safe (publish env backoff)"
  unfolding publish_def by (intro safe_intros bridge_step_safe pop_safe) (simp add: bridge_inv_def)

lemma handle_error_safe: "bridge_safe (handle_error env backoff pending exc)"
  unfolding handle_error_def
  by (intro safe_intros others_safe request_shutdown_safe) (simp add: bridge_inv_def)

lemma round_safe: "bridge_safe (run_round env backoff pending)"
  unfolding run_round_def
  by (auto intro!: safe_intros others_safe prepare_safe publish_safe handle_error_safe split: sum.split)

lemma loop_safe: "bridge_safe (run_loop env fuel backoff pending)"
  by (induction fuel arbitrary: backoff pending)
    (auto intro!: safe_intros round_safe split: control.split)

lemma run_safe: "bridge_safe (run env fuel)"
  unfolding run_def runtime_error_def by (intro safe_intros loop_safe)

lemma finish_loop_safe: "bridge_safe (finish_loop env fuel deadline)"
  by (induction fuel) (auto intro!: safe_intros bridge_step_safe split: sum.split)

lemma round_in_flight_safe: "bridge_safe (round_in_flight env backoff pending)"
  unfolding round_in_flight_def
  by (auto intro!: safe_intros rebuild_safe publish_safe handle_error_safe split: sum.split)

text \<open>Without interference, a round that finds no shutdown request is the part of it that may be in flight.\<close>

lemma round_is_round_in_flight:
  assumes "\<not> br_shutdown_requested (fst s)" "\<And>w. en_others env w = (Nothing, w)"
  shows "run_round env backoff pending s = round_in_flight env backoff pending s"
proof -
  have "others env t = (Inr (), t)" for t
    using assms(2) by (simp add: others_def)
  then show ?thesis
    using assms(1) by (auto simp: run_round_def prepare_def round_in_flight_def run_simps split: sum.split prod.split)
qed

lemma acquire_safe: "bridge_safe (acquire_step_lock env timeout)"
  unfolding acquire_step_lock_def
  by (auto intro!: safe_intros others_safe round_in_flight_safe split: option.split prod.split)

lemma close_handles_effect:
  assumes "bridge_inv (fst s)"
  shows "wp (close_handles env timeout) (\<lambda>_ t. bridge_inv (fst t)) (\<lambda>_ t. bridge_inv (fst t)) s"
  using assms
  by (auto simp: close_handles_def wp_simps bridge_inv_def Let_def intro!: wp_all split: option.split)

lemma stop_safe: "bridge_safe (stop env)"
  unfolding stop_def settle_def lock_for_stop_def finish_outstanding_commit_def ignoring_def
  by (intro safe_intros request_shutdown_safe listener_calls_safe finish_loop_safe acquire_safe
      preservesI [OF close_handles_effect])

end
