(* ===== verification/Pipeline_Failures.thy ===== *)
theory Pipeline_Failures
  imports Pipeline_Protocol
begin

text \<open>
  How \<open>BridgePipeline\<close> deals with a commit that fails: which failures are retried, which abort the
  transaction, and what a used-up budget leaves behind. The collaborators are arbitrary \<open>ports\<close>.
\<close>

section \<open>Kinds of commit failures\<close>

text \<open>
  \<open>Again\<close>: retriable and no abort required. \<open>Replace\<close>: fatal, the producer must be replaced.
  \<open>Abort\<close>: any other Kafka error, one without flags included.
\<close>

datatype commit_verdict = Again | Replace | Abort

definition commit_verdict :: "kafka_error option \<Rightarrow> commit_verdict" where
  "commit_verdict error =
     (case error of
        None \<Rightarrow> Abort
      | Some e \<Rightarrow>
          if ke_fatal e = Some True then Replace
          else if ke_retriable e = Some True \<and> ke_txn_requires_abort e \<noteq> Some True then Again
          else Abort)"

lemma commit_step:
  assumes "pt_commit_transaction pt s = (Inl (KafkaException error), t)"
  shows "commit_attempts pt (Suc n) last_exc (p, s) =
    (case commit_verdict error of
       Again \<Rightarrow>
         bnd (self_gets bp_commit_retry_delay_seconds) (\<lambda>delay.
           thn (if 0 < n \<and> py_less py_zero delay then outside (pt_sleep pt delay) else ret ())
             (commit_attempts pt n (Some (KafkaException error)))) (p, t)
     | Replace \<Rightarrow>
         thn (outside (pt_mark_fatal pt)) (raise (KafkaException error)) (p\<lparr>bp_commit_outstanding := False\<rparr>, t)
     | Abort \<Rightarrow>
         abort_and_raise pt (KafkaException error) (p\<lparr>bp_commit_outstanding := False\<rparr>, t))"
  using assms
  by (cases error) (auto simp: commit_verdict_def flag_def run_simps)

lemma retried_commit:
  assumes commit: "\<And>s. \<exists>error t. pt_commit_transaction pt s = (Inl (KafkaException error), t) \<and>
      commit_verdict error = Again \<and> trace t = trace s @ [error]"
    and sleep: "\<And>delay s. \<exists>t. pt_sleep pt delay s = (Inr (), t) \<and> trace t = trace s"
  shows "0 < n \<or> last_exc = Some exc \<Longrightarrow>
    \<exists>errors t. commit_attempts pt n last_exc (p, s) =
        (Inl (if errors = [] then exc else KafkaException (last errors)), (p, t)) \<and>
      trace t = trace s @ errors \<and> length errors = n \<and> (\<forall>error \<in> set errors. commit_verdict error = Again)"
proof (induction n arbitrary: s last_exc exc)
  case 0
  then show ?case
    by (auto simp: run_simps)
next
  case (Suc n)
  obtain error t where failed: "pt_commit_transaction pt s = (Inl (KafkaException error), t)"
    "commit_verdict error = Again" "trace t = trace s @ [error]"
    using commit by blast
  obtain u where slept: "(if 0 < n \<and> py_less py_zero (bp_commit_retry_delay_seconds p)
      then outside (pt_sleep pt (bp_commit_retry_delay_seconds p)) else ret ()) (p, t) = (Inr (), (p, u))"
    "trace u = trace t"
  proof (cases "0 < n \<and> py_less py_zero (bp_commit_retry_delay_seconds p)")
    case True
    from sleep [of "bp_commit_retry_delay_seconds p" t] obtain u
      where "pt_sleep pt (bp_commit_retry_delay_seconds p) t = (Inr (), u)" "trace u = trace t"
      by blast
    with True that [of u] show thesis
      by (simp add: run_simps)
  next
    case False
    with that [of t] show thesis
      by (auto simp: run_simps)
  qed
  have first: "commit_attempts pt (Suc n) last_exc (p, s) = commit_attempts pt n (Some (KafkaException error)) (p, u)"
    unfolding commit_step [OF failed(1)] using failed(2) slept(1) by (simp add: run_simps)
  obtain errors v where "commit_attempts pt n (Some (KafkaException error)) (p, u) =
      (Inl (if errors = [] then KafkaException error else KafkaException (last errors)), (p, v))"
    "trace v = trace u @ errors" "length errors = n" "\<forall>error \<in> set errors. commit_verdict error = Again"
    using Suc.IH [of "Some (KafkaException error)" "KafkaException error" u] by blast
  with first failed slept show ?case
    by (intro exI [of _ "error # errors"] exI [of _ v]) auto
qed

section \<open>What a failed commit leaves alone\<close>

text \<open>
  A predicate on the collaborators that a failing commit keeps holds after every step that leaves its
  commit outstanding: nothing else is called on the way.
\<close>

lemma failed_commit_keeps:
  assumes commit: "\<And>s. I s \<Longrightarrow> wp (pt_commit_transaction pt) (\<lambda>_ _. True) (\<lambda>_. I) s"
    and sleep: "\<And>delay. preserves I (pt_sleep pt delay)"
  shows "I (snd s) \<Longrightarrow> wp (commit_attempts pt n last_exc) (\<lambda>_ _. True)
    (\<lambda>_ t. bp_commit_outstanding (fst t) \<longrightarrow> I (snd t)) s"
proof (induction n arbitrary: s last_exc)
  case 0
  then show ?case
    by (cases last_exc) (simp_all add: wp_raise)
next
  case (Suc n)
  let ?E = "\<lambda>_ t. bp_commit_outstanding (fst t) \<longrightarrow> I (snd t)"
  have given_up: "wp (abort_and_raise pt exc) (\<lambda>_ _. True) ?E t" "wp (thn (outside (pt_mark_fatal pt)) (raise exc)) (\<lambda>_ _. True) ?E t"
    if "\<not> bp_commit_outstanding (fst t)" for exc t
    using that by (auto simp: abort_and_raise_def wp_thn wp_outside wp_raise intro!: wp_all)
  have retry: "wp (bnd (self_gets bp_commit_retry_delay_seconds) (\<lambda>delay.
      thn (if 0 < n \<and> py_less py_zero delay then outside (pt_sleep pt delay) else ret ())
        (commit_attempts pt n (Some exc)))) (\<lambda>_ _. True) ?E t" if "I (snd t)" for exc t
  proof -
    have "wp (if b then outside (pt_sleep pt delay) else ret ()) (\<lambda>_ t. I (snd t)) ?E t" for b delay
      using that by (auto simp: wp_outside wp_ret intro!: wp_preserves [OF sleep])
    then show ?thesis
      unfolding wp_bnd wp_self_gets wp_thn by (rule wp_weaken) (use Suc.IH in auto)
  qed
  show ?case
    unfolding commit_attempts.simps wp_bnd wp_trying wp_outside
    by (rule wp_weaken [OF commit [OF Suc.prems]])
      (auto simp: wp_ret wp_raise wp_thn [of "self_modify _"] wp_self_modify intro!: given_up retry)
qed

lemma failed_step_keeps:
  assumes "\<And>s. I s \<Longrightarrow> wp (pt_commit_transaction pt) (\<lambda>_ _. True) (\<lambda>_. I) s" "\<And>delay. preserves I (pt_sleep pt delay)"
    and "bp_commit_outstanding (fst s)" "I (snd s)"
  shows "wp (pipeline_step pt) (\<lambda>_ _. True) (\<lambda>_ t. bp_commit_outstanding (fst t) \<longrightarrow> I (snd t)) s"
proof -
  let ?E = "\<lambda>_ t. bp_commit_outstanding (fst t) \<longrightarrow> I (snd t)"
  have committed: "wp (thn (checkpoint_and_acknowledge pt)
      (thn (self_modify (\<lambda>p. p\<lparr>bp_delivered_unacked := False\<rparr>)) (self_gets bp_pending_count)))
      (\<lambda>_ _. True) ?E t" if "\<not> bp_commit_outstanding (fst t)" for t
    unfolding wp_thn by (rule wp_I) (use that stays_run [OF checkpoint_stays, of pt t] in \<open>auto simp: wp_simps\<close>)
  have "wp (thn (commit_with_retry pt)
      (self_modify (\<lambda>p. p\<lparr>bp_commit_outstanding := False, bp_delivered_unacked := True\<rparr>)))
      (\<lambda>_ t. \<not> bp_commit_outstanding (fst t)) ?E s"
    unfolding commit_with_retry_def wp_thn wp_bnd wp_self_gets
    by (rule wp_weaken [OF failed_commit_keeps [OF assms(1,2,4)]]) (simp_all add: wp_self_modify)
  then have "wp (finish_delivery pt) (\<lambda>_ _. True) ?E s"
    unfolding finish_delivery_def wp_bnd wp_self_gets wp_thn [of "if _ then _ else _"]
    by (simp add: assms(3)) (erule wp_weaken, auto intro: committed)
  with assms(3) show ?thesis
    unfolding pipeline_step_def wp_bnd wp_self_gets by simp
qed

section \<open>Properties\<close>

text \<open>C13: A transaction is never aborted for a failure that may go away. As long as every commit fails with
  a retriable error, whichever it is this time (\<open>trace\<close> reads off the errors of the commits so far, in
  order), and the pauses in between return, a step makes exactly \<open>commit_retries\<close> attempts, raises the error of the last of them and
  leaves the pipeline as it was, with the commit outstanding for the next step; no other call on the
  producer is made.\<close>

theorem exhausted_commit_stays_open:
  assumes "\<And>s. \<exists>error t. pt_commit_transaction pt s = (Inl (KafkaException error), t) \<and>
      commit_verdict error = Again \<and> trace t = trace s @ [error]"
    and "\<And>delay s. \<exists>t. pt_sleep pt delay s = (Inr (), t) \<and> trace t = trace s"
    and "bp_commit_outstanding p" "0 < bp_commit_retries p"
  shows "\<exists>errors t. pipeline_step pt (p, s) = (Inl (KafkaException (last errors)), (p, t)) \<and>
    trace t = trace s @ errors \<and> length errors = bp_commit_retries p \<and>
    (\<forall>error \<in> set errors. commit_verdict error = Again)"
proof -
  obtain errors t where attempts: "commit_attempts pt (bp_commit_retries p) None (p, s) =
      (Inl (if errors = [] then AssertionError else KafkaException (last errors)), (p, t))"
    "trace t = trace s @ errors" "length errors = bp_commit_retries p" "\<forall>error \<in> set errors. commit_verdict error = Again"
    using retried_commit [where pt = pt and trace = trace, OF assms(1,2), of "bp_commit_retries p" None AssertionError p s] assms(4)
    by blast
  moreover have "errors \<noteq> []"
    using attempts(3) assms(4) by auto
  ultimately show ?thesis
    using assms(3) by (auto simp: pipeline_step_def finish_delivery_def commit_with_retry_def run_simps)
qed


section \<open>Witnesses\<close>

text \<open>Ports with the given commit and abort, on a state that nothing else touches.\<close>

definition failing_ports :: "('s, unit) eff \<Rightarrow> ('s, unit) eff \<Rightarrow> 's ports" where
  "failing_ports commit abort =
     \<lparr>pt_poll_records = ret [], pt_get_position = ret PNone, pt_acknowledge = ret (),
      pt_checkpoint = (\<lambda>_. ret ()), pt_transactional = (\<lambda>_. True), pt_begin_transaction = ret (),
      pt_produce = (\<lambda>_ _ _. ret ()), pt_commit_transaction = commit, pt_abort_transaction = abort,
      pt_flush_or_raise = (\<lambda>_. ret ()), pt_close = ret (), pt_mark_fatal = ret (), pt_sleep = (\<lambda>_. ret ())\<rparr>"

text \<open>A counter of the calls, with a commit that raises the given error.\<close>

definition counting_ports :: "kafka_error \<Rightarrow> nat ports" where
  "counting_ports error =
     failing_ports (thn (modify Suc) (raise (KafkaException (Some error)))) (modify (\<lambda>n. n + 100))"

text \<open>A commit that raises another retriable error each time.\<close>

definition varied_error :: "nat \<Rightarrow> kafka_error" where
  "varied_error n = \<lparr>ke_fatal = (if n = 2 then Some False else None), ke_retriable = Some True,
     ke_txn_requires_abort = (if n = 1 then Some False else None)\<rparr>"

definition varied_ports :: "kafka_error option list ports" where
  "varied_ports = failing_ports
     (\<lambda>es. (Inl (KafkaException (Some (varied_error (length es)))), es @ [Some (varied_error (length es))])) (modify rev)"

definition committing_pipeline :: pipeline where
  "committing_pipeline = \<lparr>bp_topic = [116], bp_partition_key = [0x6F], bp_ack_retries = 3,
     bp_ack_retry_delay_seconds = Finite (1 / 5), bp_commit_retries = 3,
     bp_commit_retry_delay_seconds = Finite (1 / 5), bp_flush_timeout_seconds = Finite 10,
     bp_pending_count = 1, bp_delivered_unacked = False, bp_checkpointed = False,
     bp_commit_outstanding = True\<rparr>"

definition txn_error :: "bool \<Rightarrow> kafka_error" where
  "txn_error abort = \<lparr>ke_fatal = Some False, ke_retriable = Some True, ke_txn_requires_abort = Some abort\<rparr>"

theorem exhausted_commit_stays_open_witness:
  "\<exists>errors. pipeline_step varied_ports (committing_pipeline, []) =
     (Inl (KafkaException (last errors)), (committing_pipeline, errors)) \<and> length errors = 3 \<and>
   pipeline_step varied_ports (committing_pipeline, []) =
     (Inl (KafkaException (Some (varied_error 2))), (committing_pipeline, map (Some \<circ> varied_error) [0, 1, 2]))"
proof -
  have "\<exists>errors t. pipeline_step varied_ports (committing_pipeline, []) =
      (Inl (KafkaException (last errors)), (committing_pipeline, t)) \<and> id t = id [] @ errors \<and>
      length errors = bp_commit_retries committing_pipeline \<and> (\<forall>error \<in> set errors. commit_verdict error = Again)"
    by (rule exhausted_commit_stays_open)
      (simp_all add: varied_ports_def failing_ports_def run_simps commit_verdict_def varied_error_def committing_pipeline_def)
  moreover have "pipeline_step varied_ports (committing_pipeline, []) =
      (Inl (KafkaException (Some (varied_error 2))), (committing_pipeline, map (Some \<circ> varied_error) [0, 1, 2]))"
    by (simp add: pipeline_step_def finish_delivery_def commit_with_retry_def run_simps numeral_3_eq_3 varied_ports_def
        failing_ports_def committing_pipeline_def varied_error_def flag_def)
  moreover have "bp_commit_retries committing_pipeline = 3"
    by (simp add: committing_pipeline_def)
  ultimately show ?thesis
    by auto
qed


end
