(* ===== verification/Bridge_Delivery.thy ===== *)
theory Bridge_Delivery
  imports Bridge_Safety Pipeline_Failures
begin

text \<open>
  The properties of the daemon \<open>Bridge\<close>. The environment is arbitrary up to what a property names: any
  result of any call, other threads that request a shutdown or stop the daemon at any point.
\<close>

section \<open>Sequences of calls\<close>

datatype bridge_call = Start | Run nat | RequestShutdown | Stop

fun call_bridge :: "('d, 'c, 'h, 'w) environment \<Rightarrow> bridge_call \<Rightarrow> (('d, 'c, 'h, 'w) bridge \<times> 'w, unit) eff" where
  "call_bridge env Start = bridge_start env"
| "call_bridge env (Run fuel) = run env fuel"
| "call_bridge env RequestShutdown = request_shutdown"
| "call_bridge env Stop = stop env"

fun run_calls ::
  "('d, 'c, 'h, 'w) environment \<Rightarrow> bridge_call list \<Rightarrow> ('d, 'c, 'h, 'w) bridge \<times> 'w \<Rightarrow>
     (exn + unit) list \<times> ('d, 'c, 'h, 'w) bridge \<times> 'w" where
  "run_calls env [] s = ([], s)"
| "run_calls env (c # cs) s =
     (case call_bridge env c s of (r, t) \<Rightarrow> case run_calls env cs t of (rs, u) \<Rightarrow> (r # rs, u))"

lemma calls_keep_inv: "bridge_inv (fst s) \<Longrightarrow> run_calls env cs s = (rs, t) \<Longrightarrow> bridge_inv (fst t)"
proof (induction cs arbitrary: s rs)
  case (Cons c cs)
  obtain r u where first: "call_bridge env c s = (r, u)"
    by (metis surj_pair)
  have "bridge_safe (call_bridge env c)"
    by (cases c) (simp_all add: start_safe run_safe request_shutdown_safe stop_safe)
  from preservesD [OF this Cons.prems(1) first] have "bridge_inv (fst u)" .
  with Cons.IH Cons.prems(2) first show ?case
    by (auto split: prod.splits)
qed simp

section \<open>A concrete daemon\<close>

text \<open>Handles that are there from the start, calls that succeed, and a lock that is free.\<close>

definition demo_config :: bridge_config where
  "demo_config = default_config [0x6F] (Finite (1 / 10))"

definition demo_env :: "(unit, unit) rdkafka \<Rightarrow> (unit, unit, unit, unit) environment" where
  "demo_env rk = \<lparr>en_pb = proto3, en_natives = demo_natives, en_rdkafka = rk, en_os = demo_os,
     en_native_cursor = None, en_wait = (\<lambda>_. ret ()), en_others = (\<lambda>w. (Nothing, w)),
     en_acquire = (\<lambda>_. ret (None, True))\<rparr>"

definition demo_bridge :: "(unit, unit, unit, unit) bridge" where
  "demo_bridge = \<lparr>br_config = demo_config, br_shutdown_requested = False, br_metrics = fresh_metrics,
     br_client = None, br_listener = Some demo_listener, br_producer = Some (demo_producer False),
     br_producer_factory = producer_from_config demo_rdkafka demo_config, br_pipeline = None, br_counted = None,
     br_shared = False, br_released = nothing_released\<rparr>"

lemma demo_bridge_new:
  "new_bridge demo_rdkafka demo_config None (Some demo_listener) False (Some (demo_producer False)) None =
     Inr demo_bridge"
  by (simp add: new_bridge_def demo_bridge_def demo_producer_def)

lemma demo_listener_inv: "listener_inv demo_listener"
  by (simp add: listener_inv_def demo_listener_def)

definition daemon_pipeline :: pipeline where
  "daemon_pipeline = demo_pipeline\<lparr>bp_topic := ascii ''fdb-cdc''\<rparr>"

definition demo_started :: "(unit, unit, unit, unit) bridge" where
  "demo_started = demo_bridge\<lparr>br_client := Some ((new_client None 800)\<lparr>fc_db := Some ()\<rparr>), br_counted := Some [],
     br_pipeline := Some daemon_pipeline\<rparr>"

lemma demo_config_pipeline: "config_pipeline demo_config raw name = Inr daemon_pipeline"
proof -
  have "utf8_encode [0x6F] = Some [0x6F]"
    by (simp add: utf8_char_def)
  then show ?thesis
    by (simp add: config_pipeline_def demo_config_def default_config_def daemon_pipeline_def demo_pipeline_def
        new_pipeline_def resolve_partition_key_def require_delay_def py_zero_def del: utf8_encode.simps
        add: DEFAULT_ACK_RETRIES_def DEFAULT_ACK_RETRY_DELAY_SECONDS_def
        DEFAULT_COMMIT_RETRIES_def DEFAULT_COMMIT_RETRY_DELAY_SECONDS_def)
qed

lemma demo_client_open:
  "client_open demo_natives (new_client None 800, ()) = (Inr (), ((new_client None 800)\<lparr>fc_db := Some ()\<rparr>, ()))"
  by (simp add: client_open_def init_fdb_def run_simps demo_natives_def new_client_def MINIMUM_CDC_API_VERSION_def)

lemma demo_config_fields [simp]:
  "cf_fdb demo_config = \<lparr>cf_api_version = 800, cf_cluster_file = None\<rparr>"
  "cf_cdc demo_config = \<lparr>cf_stream_name = [0x6F], cf_begin_key = [], cf_end_key = [],
     cf_max_record_bytes = 1000000, cf_cursor_file = None\<rparr>"
  "cf_backoff_base_seconds (cf_pipeline demo_config) = Finite (1 / 10)"
  "cf_backoff_max_seconds (cf_pipeline demo_config) = Finite 2"
  "cf_shutdown_timeout_seconds (cf_pipeline demo_config) = Finite 15"
  "cf_transactional_id (cf_kafka demo_config) = None"
  by (simp_all add: demo_config_def default_config_def)

lemma demo_env_fields [simp]:
  "en_pb (demo_env rk) = proto3" "en_natives (demo_env rk) = demo_natives" "en_rdkafka (demo_env rk) = rk"
  "en_os (demo_env rk) = demo_os" "en_native_cursor (demo_env rk) = None" "en_wait (demo_env rk) timeout = ret ()"
  "en_others (demo_env rk) w = (Nothing, w)" "en_acquire (demo_env rk) timeout = ret (None, True)"
  by (simp_all add: demo_env_def)

lemma demo_transactional [simp]: "mp_transactional (demo_producer b) = b"
  by (simp add: demo_producer_def)

lemma demo_start: "bridge_start (demo_env rk) (demo_bridge, ()) = (Inr (), (demo_started, ()))"
  by (simp add: bridge_start_def build_pipeline_def build_client_def build_listener_def build_producer_def
      assemble_pipeline_def demo_config_pipeline on_bridge_producer_def run_simps demo_client_open
      demo_bridge_def demo_started_def)

section \<open>Properties\<close>

text \<open>C7: The state of a daemon that is built on sound handles is sound after every sequence of calls of \<open>start\<close>, \<open>run\<close>,
  \<open>request_shutdown\<close> and \<open>stop\<close>, however each of them ends and whatever other threads do,
  the round included that the run thread may still finish while \<open>stop\<close> waits for the lock: the
  handles satisfy their invariants, and a pipeline that is there runs on the daemon's own listener and
  producer, with flags that agree with the listener's pending reply, so that the daemon's pipelines have
  the guarantees of every pipeline.\<close>

theorem daemon_state_is_sound:
  assumes "new_bridge rk config client lis shared producer factory = Inr b"
    and "\<And>l. lis = Some l \<Longrightarrow> listener_inv l" "\<And>p. producer = Some p \<Longrightarrow> producer_inv p"
    and "\<And>f. factory = Some f \<Longrightarrow> sound_factory f"
    and "run_calls env cs (b, w) = (rs, (b', w'))"
  shows "bridge_inv b' \<and> (\<forall>q. br_pipeline b' = Some q \<longrightarrow> (\<exists>l p records es.
    br_listener b' = Some l \<and> br_producer b' = Some p \<and> br_counted b' = Some records \<and>
    in_step good_parts reply_pending
      (q, ((\<lparr>pa_listener = l, pa_last_records = records, pa_producer = p\<rparr>, w'), es))))"
proof -
  have "bridge_inv b"
    using assms(1-4) config_factory_sound
    by (auto simp: new_bridge_def bridge_inv_def split: if_splits option.splits)
  then have inv: "bridge_inv b'"
    using calls_keep_inv [OF _ assms(5)] by simp
  moreover have "\<exists>l p records es. br_listener b' = Some l \<and> br_producer b' = Some p \<and>
      br_counted b' = Some records \<and> in_step good_parts reply_pending
        (q, ((\<lparr>pa_listener = l, pa_last_records = records, pa_producer = p\<rparr>, w'), es))"
    if q: "br_pipeline b' = Some q" for q
  proof -
    obtain l p records where parts: "br_listener b' = Some l" "br_producer b' = Some p" "br_counted b' = Some records"
      "consistent q (li_awaiting_ack l)" "listener_inv l" "producer_inv p"
      using inv q by (auto simp: bridge_inv_def)
    let ?s = "(\<lparr>pa_listener = l, pa_last_records = records, pa_producer = p\<rparr>, w')"
    have "good_parts ?s" "consistent q (reply_pending ?s)"
      using parts by (simp_all add: parts_defs)
    then obtain es where "in_step good_parts reply_pending (q, (?s, es))"
      using consistent_in_step [of good_parts ?s q reply_pending] by blast
    with parts show ?thesis
      by blast
  qed
  ultimately show ?thesis
    by blast
qed

text \<open>A run thread that is in a round whenever \<open>stop\<close> waits, and gives the lock back too late.\<close>

definition late_env :: "(unit, unit, unit, unit) environment" where
  "late_env = (demo_env demo_rdkafka)\<lparr>en_acquire := (\<lambda>_. ret (Some (Finite 1, True), False))\<rparr>"

theorem daemon_state_is_sound_witness:
  "(\<exists>es. in_step good_parts reply_pending
     (daemon_pipeline, ((\<lparr>pa_listener = demo_listener, pa_last_records = [], pa_producer = demo_producer False\<rparr>, ()), es))) \<and>
   (\<exists>rs b. run_calls late_env [Start, Run 2, Stop, Start] (demo_bridge, ()) = (rs, (b, ())) \<and> bridge_inv b)"
proof -
  have started: "run_calls (demo_env demo_rdkafka) [Start] (demo_bridge, ()) = ([Inr ()], (demo_started, ()))"
    by (simp add: demo_start)
  obtain rs b where late: "run_calls late_env [Start, Run 2, Stop, Start] (demo_bridge, ()) = (rs, (b, ()))"
    by (metis old.unit.exhaust surj_pair)
  from daemon_state_is_sound [OF demo_bridge_new _ _ _ started] daemon_state_is_sound [OF demo_bridge_new _ _ _ late]
    demo_listener_inv demo_producer_inv late
  show ?thesis
    by (simp add: demo_started_def demo_bridge_def)
qed

text \<open>C9: A rebuild is all or nothing. On a daemon with no commit outstanding and a configuration that
  \<open>from_dict\<close> accepts, it either sets a fresh pipeline on a new listener with no pending and no
  failed reply, or it raises with the pipeline, the listener and the producer all unset, so that the next
  one starts from a clean slate.\<close>

theorem rebuild_is_all_or_nothing:
  assumes "bridge_inv (fst s)" "\<not> commit_pending (fst s)" "valid_config (br_config (fst s))"
    and "rebuild_pipeline env s = (r, t)" "\<And>e. r = Inl e \<Longrightarrow> is_Exception e"
  shows "if r = Inr () then bridge_inv (fst t) \<and> fresh_pipeline (fst t) \<and> fresh_listener (fst t)
    else br_pipeline (fst t) = None \<and> br_listener (fst t) = None \<and> br_producer (fst t) = None"
proof (cases r)
  case (Inl e)
  then have "unbuilt t \<and> (is_Exception e \<and> valid_config (br_config (fst s)) \<longrightarrow> discarded t)"
    using wp_InlD [OF rebuild_effect [OF assms(1,2)]] assms(4) by blast
  with Inl assms(3,5) show ?thesis
    by (simp add: discarded_def unbuilt_def)
next
  case (Inr u)
  then show ?thesis
    using wp_InrD [OF rebuild_effect [OF assms(1,2)]] assms(4) by auto
qed

text \<open>The daemon after a start, and the one a rebuild makes of it.\<close>

definition rebuilt_listener :: "(unit, unit) listener" where
  "rebuilt_listener = demo_listener\<lparr>li_client := (new_client None 800)\<lparr>fc_db := Some ()\<rparr>,
     li_stream_name := utf8_decode_replace [0x6F], li_max_record_bytes := 1000000, li_consumer := Some ()\<rparr>"

definition demo_rebuilt :: "(unit, unit, unit, unit) bridge" where
  "demo_rebuilt = demo_started\<lparr>br_listener := Some rebuilt_listener, br_shared := True\<rparr>"

lemma demo_close:
  "listener_close demo_natives (demo_listener, ()) = (Inr (), (demo_listener\<lparr>li_is_closed := True\<rparr>, ()))"
  "producer_close demo_rdkafka timeout (demo_producer False, ()) =
     (Inr (), ((demo_producer False)\<lparr>mp_producer := None, mp_closed := True\<rparr>, ()))"
  by (simp_all add: listener_close_def producer_close_def on_producer_def run_simps demo_listener_def
      demo_producer_def demo_rdkafka_def quiet_def)

lemma demo_new_listener:
  "new_listener ((new_client None 800)\<lparr>fc_db := Some ()\<rparr>) (PStr [0x6F]) None None None (PInt 1000000)
     (PFloat (Finite 10)) (PFloat (Finite (1 / 20))) = Inr (rebuilt_listener\<lparr>li_consumer := None\<rparr>)"
proof -
  have "utf8_encode [0x6F] = Some [0x6F]"
    by (simp add: utf8_char_def)
  then show ?thesis
    by (simp add: new_listener_def check_seconds_def py_zero_def rebuilt_listener_def demo_listener_def
        del: utf8_encode.simps)
qed

lemma demo_listener_start:
  "listener_start demo_natives (rebuilt_listener\<lparr>li_consumer := None\<rparr>, ()) = (Inr (), (rebuilt_listener, ()))"
  by (simp add: listener_start_def on_client_def client_open_def create_cdc_consumer_def translating_def
      run_simps rebuilt_listener_def demo_listener_def new_client_def demo_natives_def)

lemma rebuilt_client: "li_client rebuilt_listener = (new_client None 800)\<lparr>fc_db := Some ()\<rparr>"
  by (simp add: rebuilt_listener_def)

lemma demo_new_producer:
  "producer_from_config demo_rdkafka demo_config () = (Inr (demo_producer False), ())"
  by (simp add: producer_from_config_def new_producer_def merged_config_def run_simps demo_rdkafka_def
      demo_producer_def quiet_def)

lemma demo_rebuild: "rebuild_pipeline (demo_env demo_rdkafka) (demo_started, ()) = (Inr (), (demo_rebuilt, ()))"
  by (simp add: rebuild_pipeline_def discard_listener_and_producer_def ignoring_def build_pipeline_def
      build_client_def build_listener_def build_producer_def assemble_pipeline_def demo_config_pipeline
      on_bridge_producer_def on_bridge_listener_def run_simps demo_close demo_new_listener demo_listener_start
      demo_new_producer load_cursor_from_file_def config_key_range_def put_listener_def rebuilt_client
      demo_bridge_def demo_started_def demo_rebuilt_def daemon_pipeline_def demo_pipeline_def)

lemma demo_started_inv: "bridge_inv demo_started"
proof -
  have "bridge_inv (fst (demo_bridge, ()))"
    using demo_listener_inv demo_producer_inv config_factory_sound by (simp add: demo_bridge_def bridge_inv_def)
  from preservesD [OF start_safe this demo_start] show ?thesis
    by simp
qed

lemma demo_config_valid: "valid_config demo_config"
proof -
  have "\<not> blank [0x6F]"
    by (simp add: blank_def is_space_def)
  moreover have "py_float (PFloat (Finite (1 / 10))) = Some (Finite (1 / 10))" "\<not> py_le (Finite (1 / 10)) py_zero"
    "to_double (Finite (1 / 10)) = Inr (Finite (1 / 10))"
    by (simp_all add: py_zero_def)
  ultimately have "from_dict (config_data [0x6F] (PFloat (Finite (1 / 10)))) = Inr demo_config"
    unfolding demo_config_def by (simp add: config_data_run positive_seconds_def)
  then show ?thesis
    by (auto simp: from_dict_valid)
qed

theorem rebuild_is_all_or_nothing_witness:
  "bridge_inv demo_rebuilt \<and> fresh_pipeline demo_rebuilt \<and> fresh_listener demo_rebuilt"
  using rebuild_is_all_or_nothing [of "(demo_started, ())" "demo_env demo_rdkafka", OF _ _ _ demo_rebuild]
    demo_started_inv demo_config_valid
  by (simp add: demo_started_def commit_pending_def daemon_pipeline_def demo_pipeline_def demo_bridge_def)

text \<open>What ends a run, besides a shutdown.\<close>

definition permanent :: "exn \<Rightarrow> bool" where
  "permanent e \<longleftrightarrow> is_CDCTerminalError e \<or> is_fatal_kafka_error e \<or> is_ValueError e \<and> \<not> is_SerializationError e"

definition gives_up :: "exn \<Rightarrow> ('d, 'c, 'h, 'w) bridge \<times> 'w \<Rightarrow> bool" where
  "gives_up e t \<longleftrightarrow> is_Exception e \<longrightarrow> permanent e \<and> br_shutdown_requested (fst t)"

lemma wp_others: "wp (others env) Q E s = Q () (snd (others env s))"
  by (simp add: wp_def others_def)

text \<open>The loop ends in two ways: it finds a shutdown request, or it gives up.\<close>

definition ends_requested :: "control \<Rightarrow> ('d, 'c, 'h, 'w) bridge \<times> 'w \<Rightarrow> bool" where
  "ends_requested c t \<longleftrightarrow> c = Break \<longrightarrow> br_shutdown_requested (fst t)"

text \<open>How an \<open>Exception\<close> that is not permanent is handled.\<close>

definition retried :: "pyfloat \<Rightarrow> bool \<Rightarrow> ('d, 'c, 'h, 'w) bridge \<Rightarrow> control \<Rightarrow> ('d, 'c, 'h, 'w) bridge \<Rightarrow> bool" where
  "retried backoff pending b c b' \<longleftrightarrow>
     (\<exists>pending'. c = Continue (next_backoff (br_config b) backoff) pending' \<and> (pending \<longrightarrow> pending')) \<and>
     bm_errors_retried (br_metrics b') = bm_errors_retried (br_metrics b) + 1"

lemma others_fields [simp]:
  "br_config (fst (snd (others env s))) = br_config (fst s)" "br_metrics (fst (snd (others env s))) = br_metrics (fst s)"
  by (auto simp: others_def split: prod.split interference.split)

lemma recoverable_retried:
  assumes "is_Exception exc" "\<not> permanent exc"
  shows "wp (handle_error env backoff pending exc) (\<lambda>c t. retried backoff pending (fst s) c (fst t))
    (\<lambda>e t. \<exists>w w'. en_wait env backoff w = (Inl e, w')) s"
  using assms
  by (auto simp: handle_error_def permanent_def wp_thn wp_bnd wp_if wp_ret wp_self_gets wp_self_modify wp_others
      wp_outside retried_def intro!: wp_I)

lemma handle_error_gives_up:
  assumes "\<And>timeout w e w'. en_wait env timeout w = (Inl e, w') \<Longrightarrow> \<not> is_Exception e"
  shows "wp (handle_error env backoff pending exc) ends_requested gives_up s"
proof (cases "is_Exception exc \<and> \<not> permanent exc")
  case True
  then show ?thesis
    by (intro wp_weaken [OF recoverable_retried])
      (use assms in \<open>auto simp: retried_def ends_requested_def gives_up_def\<close>)
next
  case False
  then have "\<exists>t. handle_error env backoff pending exc s = (Inl exc, t) \<and> gives_up exc t"
    by (cases exc) (auto simp: handle_error_def permanent_def gives_up_def request_shutdown_def run_simps)
  then show ?thesis
    by (auto simp: wp_def)
qed

lemma round_gives_up:
  assumes "\<And>timeout w e w'. en_wait env timeout w = (Inl e, w') \<Longrightarrow> \<not> is_Exception e"
  shows "wp (run_round env backoff pending) ends_requested gives_up s"
proof -
  have handled: "wp (handle_error env backoff pending exc) ends_requested gives_up t" for pending exc t
    by (rule handle_error_gives_up) (rule assms)
  have published: "wp (bnd (trying (publish env backoff)) (\<lambda>r. case r of
      Inl exc \<Rightarrow> handle_error env backoff False exc | Inr backoff \<Rightarrow> ret (Continue backoff False)))
      ends_requested gives_up t" for t
    unfolding wp_bnd wp_trying by (rule wp_all) (simp_all add: wp_ret handled ends_requested_def)
  have prepared: "wp (prepare env pending) (\<lambda>go_on t. go_on \<or> br_shutdown_requested (fst t)) (\<lambda>_ _. True) t" for t
    by (auto simp: prepare_def wp_thn wp_others wp_bnd wp_self_gets wp_ret wp_fun wp_if intro!: wp_all)
  have "wp (bnd (trying (prepare env pending)) (\<lambda>r. case r of
      Inl exc \<Rightarrow> handle_error env backoff pending exc
    | Inr go_on \<Rightarrow> if \<not> go_on then ret Break else bnd (trying (publish env backoff)) (\<lambda>r. case r of
        Inl exc \<Rightarrow> handle_error env backoff False exc | Inr backoff \<Rightarrow> ret (Continue backoff False))))
      ends_requested gives_up t" for t
    unfolding wp_bnd [of "trying (prepare _ _)"] wp_trying
    by (rule wp_weaken [OF prepared]) (auto simp: wp_ret handled published ends_requested_def)
  then show ?thesis
    unfolding run_round_def wp_thn wp_others wp_bnd [of "self_gets _"] wp_self_gets
    by (simp add: wp_ret ends_requested_def)
qed

lemma loop_gives_up:
  assumes "\<And>timeout w e w'. en_wait env timeout w = (Inl e, w') \<Longrightarrow> \<not> is_Exception e"
  shows "wp (run_loop env fuel backoff pending) (\<lambda>_ t. br_shutdown_requested (fst t)) gives_up s"
proof (induction fuel arbitrary: s backoff pending)
  case 0
  show ?case
    by (simp add: wp_raise gives_up_def)
next
  case (Suc fuel)
  have "wp (run_round env backoff pending) ends_requested gives_up s"
    by (rule round_gives_up) (rule assms)
  then show ?case
    unfolding run_loop.simps wp_bnd
    by (rule wp_weaken) (auto simp: wp_ret Suc.IH ends_requested_def split: control.split)
qed

text \<open>Nothing in a round asks for the shutdown on its own, unless it raises.\<close>

abbreviation steady :: "(('d, 'c, 'h, 'w) bridge \<times> 'w, 'a) eff \<Rightarrow> bool" where
  "steady \<equiv> preserves (\<lambda>s. \<not> br_shutdown_requested (fst s))"

lemma parts_steady:
  "steady (on_bridge_listener m)" "steady (on_bridge_producer n)" "steady (on_pipeline k)" "steady (outside f)"
proof -
  show "steady (on_bridge_listener m)" "steady (on_bridge_producer n)"
    by (rule preservesI, auto simp: on_bridge_listener_def on_bridge_producer_def wp_simps intro!: wp_all split: option.split)+
  show "steady (on_pipeline k)"
    by (rule preservesI) (auto simp: on_pipeline_def wp_simps intro!: wp_all split: option.split)
  show "steady (outside f)"
    by (rule preserves_outside) simp
qed

lemma rebuild_steady: "steady (rebuild_pipeline env)"
  unfolding rebuild_pipeline_def discard_listener_and_producer_def build_pipeline_def build_client_def
    build_listener_def build_producer_def assemble_pipeline_def ignoring_def Let_def
  by (intro preserves_intros parts_steady) simp_all

lemma publish_steady: "steady (publish env backoff)"
  unfolding publish_def bridge_step_def by (intro preserves_intros parts_steady) simp_all

lemma others_steady: "(\<And>w. fst (en_others env w) = Nothing) \<Longrightarrow> steady (others env)"
  by (simp add: preserves_def others_def case_prod_beta)

lemma handle_error_steady:
  fixes env :: "('d, 'c, 'h, 'w) environment"
  assumes "\<And>w. fst (en_others env w) = Nothing" "\<not> br_shutdown_requested (fst s)"
  shows "wp (handle_error env backoff pending exc) (\<lambda>_ t. \<not> br_shutdown_requested (fst t)) (\<lambda>_ _. True) s"
proof -
  have "\<not> br_shutdown_requested (fst (snd (others env (b, w))))" if "\<not> br_shutdown_requested b"
    for b :: "('d, 'c, 'h, 'w) bridge" and w
    using assms(1) that by (simp add: others_def case_prod_beta)
  then show ?thesis
    using assms(2)
    by (auto simp: handle_error_def request_shutdown_def wp_thn wp_bnd wp_if wp_ret wp_raise wp_self_gets
        wp_self_modify wp_others wp_outside intro!: wp_all [where m = "en_wait env backoff"])
qed

lemma round_steady:
  assumes "\<And>w. fst (en_others env w) = Nothing" "\<not> br_shutdown_requested (fst s)"
  shows "wp (run_round env backoff pending) (\<lambda>_ t. \<not> br_shutdown_requested (fst t)) (\<lambda>_ _. True) s"
proof -
  note handled = handle_error_steady [OF assms(1)]
  have others: "steady (others env)"
    by (rule others_steady) (rule assms(1))
  have "steady (prepare env pending)"
    unfolding prepare_def by (intro preserves_intros others rebuild_steady)
  note prepared = wp_preserves [OF this]
  note published = wp_preserves [OF publish_steady]
  note asked = wp_preserves [OF others assms(2)]
  show ?thesis
    unfolding run_round_def wp_thn
    by (rule asked) (auto simp: wp_bnd wp_self_gets wp_ret wp_trying intro!: prepared published handled)
qed

lemma loop_steady:
  assumes "\<And>w. fst (en_others env w) = Nothing" "\<not> br_shutdown_requested (fst s)"
  shows "wp (run_loop env fuel backoff pending) (\<lambda>_ t. \<not> br_shutdown_requested (fst t)) (\<lambda>_ _. True) s"
  using assms(2)
proof (induction fuel arbitrary: s backoff pending)
  case (Suc fuel)
  from round_steady [OF assms(1) Suc.prems] show ?case
    unfolding run_loop.simps wp_bnd
    by (rule wp_weaken) (auto simp: wp_ret Suc.IH split: control.split)
qed (simp add: wp_raise)


text \<open>A stream that is gone: consuming raises native error 1007.\<close>

definition gone_natives :: "(unit, unit, unit) natives" where
  "gone_natives = demo_natives\<lparr>nt_consume := (\<lambda>_. raise (FDBError 1007))\<rparr>"

definition gone_env :: "(unit, unit, unit, unit) environment" where
  "gone_env = (demo_env demo_rdkafka)\<lparr>en_natives := gone_natives\<rparr>"

lemma gone_poll:
  "\<exists>l. poll_records proto3 gone_natives None (demo_listener, ()) = (Inl (CDCTerminalError (Some 1007)), (l, ()))"
  by (simp add: poll_records_def consume_batch_def consumer_def active_consumer_def listener_start_def on_client_def
      client_open_def init_fdb_def create_cdc_consumer_def translating_def on_handle_def blocking_def run_simps
      demo_listener_def new_client_def MINIMUM_CDC_API_VERSION_def demo_natives_def gone_natives_def
      raise_consume_failure_def consume_failure_def fdb_code_defs)

lemma gone_run: "\<exists>b. run gone_env 1 (demo_started, ()) = (Inl (CDCTerminalError (Some 1007)), (b, ()))"
  using gone_poll
  by (auto simp: run_def run_round_def prepare_def publish_def bridge_step_def on_pipeline_def pipeline_step_def
      handle_error_def request_shutdown_def others_def ports_of_def counting_poll_def on_listener_def run_simps
      gone_env_def demo_started_def demo_bridge_def daemon_pipeline_def demo_pipeline_def)


section \<open>Stopping\<close>

text \<open>What a close of one object does: the object, the world and the error it leaves, nothing without an object.\<close>

definition closes_to ::
  "('o \<times> 'w, unit) eff \<Rightarrow> 'o option \<Rightarrow> 'w \<Rightarrow> 'o option \<Rightarrow> 'w \<Rightarrow> exn option \<Rightarrow> bool" where
  "closes_to m x w x' w' e \<longleftrightarrow>
     (case x of
        None \<Rightarrow> x' = None \<and> w' = w \<and> e = None
      | Some obj \<Rightarrow> \<exists>obj'. x' = Some obj' \<and>
          m (obj, w) = (case e of None \<Rightarrow> Inr () | Some exc \<Rightarrow> Inl exc, (obj', w')))"

lemma closes_to_ex: "\<exists>x' w' e. closes_to m x w x' w' e"
proof (cases x)
  case (Some obj)
  obtain r obj' w' where "m (obj, w) = (r, (obj', w'))"
    by (metis surj_pair)
  moreover have "\<exists>e. r = (case e of None \<Rightarrow> Inr () | Some exc \<Rightarrow> Inl exc)"
    by (cases r) (auto intro: exI [of _ None] exI [of _ "Some _"])
  ultimately show ?thesis
    using Some by (auto simp: closes_to_def)
qed (simp add: closes_to_def)

lemma producer_close_closes: "wp (producer_close rk timeout) (\<lambda>_ t. mp_closed (fst t)) (\<lambda>e _. \<not> is_Exception e) s"
proof -
  have ignored: "wp (ignoring m) Q (\<lambda>e _. \<not> is_Exception e) t" if "\<And>t. Q () t"
    for m Q and t :: "'a producer \<times> 'b"
    using that by (auto simp: ignoring_def wp_catch wp_ret intro!: wp_all)
  have flushed: "wp (catch m is_Exception (\<lambda>_. catch n is_Exception (\<lambda>_. ret x))) Q (\<lambda>e _. \<not> is_Exception e) t"
    if "\<And>y t. Q y t" for m n and x :: "bool \<times> int" and Q and t :: "'a producer \<times> 'b"
    using that by (auto simp: wp_catch wp_ret intro!: wp_all)
  show ?thesis
    by (auto simp: producer_close_def wp_thn wp_bnd wp_self_gets wp_if wp_ret wp_self_modify wp_fun wp_self_modify_fun
        intro!: ignored flushed)
qed

lemma listener_close_closes:
  "closes_to (listener_close nt) x w (Some l) w' e \<Longrightarrow> li_is_closed l \<and> li_consumer l = None"
  using wp_run [OF close_effect] by (fastforce simp: closes_to_def split: option.splits)

definition shares :: "bool \<Rightarrow> 'd fdb_client option \<Rightarrow> ('d, 'c) listener option \<Rightarrow> ('d, 'c) listener option" where
  "shares shared client lis =
     (case client of
        Some c \<Rightarrow> if shared then map_option (\<lambda>l. l\<lparr>li_client := c\<rparr>) lis else lis
      | None \<Rightarrow> lis)"

lemma close_all_error: "close_all closes first s = (Inl e, t) \<Longrightarrow> \<not> is_Exception e"
proof (induction closes arbitrary: first s)
  case (Cons c cs)
  then show ?case
    by (auto simp: run_simps split: sum.splits if_splits prod.splits)
qed (simp add: run_simps)

lemma handle_closes_run:
  assumes "close_all (handle_closes env timeout shared h) None (h, w) = (Inr error, (h', w'))"
    and "closes_to (producer_close (en_rdkafka env) timeout) (hd_producer h) w producer wk e1"
    and "closes_to (listener_close (en_natives env)) (hd_listener h) wk lis wl e2"
  shows "w' = wl \<and> hd_producer h' = producer \<and>
    hd_client h' = map_option (\<lambda>c. c\<lparr>fc_db := None\<rparr>) (hd_client h) \<and>
    hd_listener h' = shares shared (hd_client h') lis \<and> error = (case e1 of Some e \<Rightarrow> Some e | None \<Rightarrow> e2)"
  using assms
  by (cases "hd_producer h"; cases "hd_listener h"; cases "hd_client h"; cases e1; cases e2)
    (clarsimp simp: handle_closes_def on_released_def put_client_def client_close_def closes_to_def shares_def
      run_simps split: if_splits)+

lemma close_handles_run:
  assumes "close_handles env timeout (b, w) = (r, (b', w'))" "\<forall>e. r = Inl e \<longrightarrow> is_Exception e"
    and "closes_to (producer_close (en_rdkafka env) timeout) (br_producer b) w producer wk e1"
    and "closes_to (listener_close (en_natives env)) (br_listener b) wk lis wl e2"
  shows "br_producer b' = None \<and> br_listener b' = None \<and> br_client b' = None \<and> br_pipeline b' = None"
    "w' = wl" "hd_producer (br_released b') = producer"
    "hd_client (br_released b') = map_option (\<lambda>c. c\<lparr>fc_db := None\<rparr>) (br_client b)"
    "hd_listener (br_released b') = shares (br_shared b) (hd_client (br_released b')) lis"
    "r = (case e1 of Some e \<Rightarrow> Inl e | None \<Rightarrow> case e2 of Some e \<Rightarrow> Inl e | None \<Rightarrow> Inr ())"
proof -
  let ?taken = "\<lparr>hd_producer = br_producer b, hd_listener = br_listener b, hd_client = br_client b\<rparr>"
  obtain r1 h' v where closed: "close_all (handle_closes env timeout (br_shared b) ?taken) None (?taken, w) = (r1, (h', v))"
    by (metis surj_pair)
  have "r1 \<noteq> Inl e" for e
    using close_all_error [of "handle_closes env timeout (br_shared b) ?taken" None "(?taken, w)" e "(h', v)"]
      closed assms(1,2) by (auto simp: close_handles_def run_simps Let_def)
  then obtain error where error: "r1 = Inr error"
    by (cases r1) auto
  have run: "v = w'" "br_released b' = h'"
    "br_producer b' = None \<and> br_listener b' = None \<and> br_client b' = None \<and> br_pipeline b' = None"
    "r = (case error of None \<Rightarrow> Inr () | Some e \<Rightarrow> Inl e)"
    using assms(1) closed error by (auto simp: close_handles_def run_simps Let_def split: option.splits)
  note parts = handle_closes_run [OF closed [unfolded error], simplified, OF assms(3,4)]
  show "br_producer b' = None \<and> br_listener b' = None \<and> br_client b' = None \<and> br_pipeline b' = None"
    "w' = wl" "hd_producer (br_released b') = producer"
    "hd_client (br_released b') = map_option (\<lambda>c. c\<lparr>fc_db := None\<rparr>) (br_client b)"
    "hd_listener (br_released b') = shares (br_shared b) (hd_client (br_released b')) lis"
    "r = (case e1 of Some e \<Rightarrow> Inl e | None \<Rightarrow> case e2 of Some e \<Rightarrow> Inl e | None \<Rightarrow> Inr ())"
    using run parts by (auto split: option.splits)
qed


text \<open>A binding whose consumers fail to close.\<close>

definition stuck_env :: "(unit, unit, unit, unit) environment" where
  "stuck_env = (demo_env demo_rdkafka)\<lparr>en_natives := demo_natives\<lparr>nt_close := (\<lambda>_. raise (FDBError 7))\<rparr>\<rparr>"

lemma stuck_settle:
  "settle stuck_env (Finite 15) (demo_rebuilt\<lparr>br_shutdown_requested := True\<rparr>, ()) =
     (Inr (), (demo_rebuilt\<lparr>br_shutdown_requested := True\<rparr>, ()))"
  by (simp add: settle_def lock_for_stop_def acquire_step_lock_def others_def finish_outstanding_commit_def run_simps
      numeral_2_eq_2 commit_pending_def stuck_env_def demo_natives_def demo_rebuilt_def demo_started_def
      daemon_pipeline_def demo_pipeline_def)

lemma stuck_stop: "\<exists>b. stop stuck_env (demo_rebuilt, ()) = (Inl (FDBError 7), (b, ()))"
proof -
  have "cf_shutdown_timeout_seconds (cf_pipeline (br_config demo_rebuilt)) = Finite 15"
    by (simp add: demo_rebuilt_def demo_started_def demo_bridge_def)
  then show ?thesis
    using stuck_settle
    by (simp add: stop_def request_shutdown_def close_handles_def handle_closes_def on_released_def put_client_def
        run_simps demo_close listener_close_def client_close_def stuck_env_def rebuilt_listener_def
        demo_rebuilt_def demo_started_def demo_bridge_def)
qed


section \<open>Outstanding commits\<close>

definition open_transaction :: "'h \<Rightarrow> 'h producer \<Rightarrow> bool" where
  "open_transaction h p \<longleftrightarrow> mp_producer p = Some h \<and> mp_txn_open p"

lemma failed_commit_keeps_transaction:
  assumes "open_transaction h (fst s)"
  shows "wp (commit_transaction rk timeout) (\<lambda>_ _. True) (\<lambda>_ t. open_transaction h (fst t)) s"
  using assms
  by (auto simp: open_transaction_def commit_transaction_def require_transactional_def marking_fatal_def
      wp_simps intro!: wp_on_producer)

lemma daemon_step_keeps_transaction:
  assumes "br_producer (fst s) = Some p" "open_transaction h p" "commit_pending (fst s)"
  shows "wp (bridge_step env) (\<lambda>_ t. \<not> commit_pending (fst t))
    (\<lambda>_ t. commit_pending (fst t) \<longrightarrow> (\<exists>p. br_producer (fst t) = Some p \<and> open_transaction h p)) s"
proof -
  obtain b w where s: "s = (b, w)"
    by (metis surj_pair)
  let ?I = "\<lambda>u. open_transaction h (pa_producer (fst u))"
  let ?pt = "ports_of env (br_config b)"
  obtain q where q: "br_pipeline b = Some q" "bp_commit_outstanding q"
    using assms(3) s by (auto simp: commit_pending_def split: option.splits)
  have commit: "wp (pt_commit_transaction ?pt) (\<lambda>_ _. True) (\<lambda>_. ?I) u" if "?I u" for u
    using that by (auto simp: ports_of_def wp_on_kafka intro!: failed_commit_keeps_transaction)
  have sleep: "preserves ?I (pt_sleep ?pt delay)" for delay
    by (simp add: ports_of_def preserves_outside)
  have step: "wp (pipeline_step ?pt) (\<lambda>_ _. True) (\<lambda>_ u. bp_commit_outstanding (fst u) \<longrightarrow> ?I (snd u))
      (q, (\<lparr>pa_listener = l, pa_last_records = records, pa_producer = p\<rparr>, w))" for l records w
    by (rule failed_step_keeps [OF commit sleep]) (simp_all add: q assms(2))
  have p: "br_producer b = Some p"
    using assms(1) s by simp
  note run = bridge_step_def on_pipeline_def run_simps p q
  have "\<not> commit_pending (fst t)" if "bridge_step env (b, w) = (Inr n, t)" for n t
    using that returned_step_is_finished [of ?pt]
    by (auto simp: run commit_pending_def split: option.splits prod.splits)
  moreover have "commit_pending (fst t) \<longrightarrow> (\<exists>p. br_producer (fst t) = Some p \<and> open_transaction h p)"
    if "bridge_step env (b, w) = (Inl e, t)" for e t
    using that wp_InlD [OF step] assms(2)
    by (auto simp: run commit_pending_def split: option.splits prod.splits)
  ultimately show ?thesis
    unfolding s by (rule wp_I)
qed

text \<open>
  Where a round can be with an outstanding commit: the transaction is open on the same handle, or another
  thread has stopped the daemon.
\<close>

definition untouched :: "'h \<Rightarrow> ('d, 'c, 'h, 'w) bridge \<times> 'w \<Rightarrow> bool" where
  "untouched h s \<longleftrightarrow> commit_pending (fst s) \<longrightarrow> (\<exists>p. br_producer (fst s) = Some p \<and> open_transaction h p)"

definition committing :: "'h \<Rightarrow> ('d, 'c, 'h, 'w) bridge \<times> 'w \<Rightarrow> bool" where
  "committing h s \<longleftrightarrow> untouched h s \<and> (commit_pending (fst s) \<or> br_shutdown_requested (fst s))"

lemma untouched_moved: "untouched h (b, w) \<longleftrightarrow> untouched h (b, w')"
  by (simp add: untouched_def)

lemma others_untouched: "preserves (untouched h) (others env)"
  by (auto simp: preserves_def others_def untouched_def commit_pending_def split: prod.split interference.split)

lemma others_committing: "committing h s \<Longrightarrow> committing h (snd (others env s))"
  by (auto simp: committing_def others_def untouched_def commit_pending_def split: prod.split interference.split)

lemma handle_error_untouched: "preserves (untouched h) (handle_error env backoff pending exc)"
  unfolding handle_error_def request_shutdown_def
  by (intro preserves_intros others_untouched) (auto simp: untouched_def commit_pending_def)

lemma prepare_committing:
  assumes "committing h s"
  shows "wp (prepare env pending) (\<lambda>go_on t. if go_on then committing h t \<and> commit_pending (fst t) else untouched h t)
    (\<lambda>_. untouched h) s"
  using others_committing [OF assms, of env]
  by (auto simp: prepare_def wp_thn wp_others wp_bnd wp_self_gets wp_ret committing_def rebuild_pipeline_def
      commit_pending_def split: option.splits)

lemma no_commit_untouched: "\<not> commit_pending (fst s) \<Longrightarrow> untouched h s"
  by (simp add: untouched_def)

lemma pop_records_settled: "preserves (\<lambda>s. \<not> commit_pending (fst s)) (on_pipeline (outside pop_last_records))"
  by (rule preservesI)
    (auto simp: on_pipeline_def pop_last_records_def wp_simps commit_pending_def split: option.splits)

lemma publish_untouched:
  assumes "committing h s" "commit_pending (fst s)"
  shows "wp (publish env backoff) (\<lambda>_. untouched h) (\<lambda>_. untouched h) s"
proof -
  obtain p where p: "br_producer (fst s) = Some p" "open_transaction h p"
    using assms by (auto simp: committing_def untouched_def)
  have after: "wp (if sent = 0 then thn (outside (en_wait env backoff)) (ret (next_backoff config backoff))
      else bnd (on_pipeline (outside pop_last_records)) (\<lambda>records.
        thn (self_modify (\<lambda>b. b\<lparr>br_metrics := count_batch sent records (br_metrics b)\<rparr>))
          (ret (cf_backoff_base_seconds (cf_pipeline config))))) (\<lambda>_. untouched h) (\<lambda>_. untouched h) t"
    if "\<not> commit_pending (fst t)" for sent config t
    using that
    by (auto simp: wp_thn wp_bnd wp_outside wp_ret wp_self_modify untouched_def commit_pending_def
        intro!: wp_all [where m = "en_wait env backoff"] wp_preserves [OF pop_records_settled])
  show ?thesis
    unfolding publish_def wp_bnd [of "self_gets _"] wp_self_gets wp_bnd [of "bridge_step _"]
    by (rule wp_weaken [OF daemon_step_keeps_transaction [OF p assms(2)] after]) (auto simp: untouched_def)
qed

lemma round_untouched:
  assumes "committing h s"
  shows "wp (run_round env backoff pending) (\<lambda>_. untouched h) (\<lambda>_. untouched h) s"
proof -
  have handled: "wp (handle_error env backoff pending exc) (\<lambda>_. untouched h) (\<lambda>_. untouched h) t"
    if "untouched h t" for pending exc t
    by (rule wp_preserves [OF handle_error_untouched that])
  have stepped: "wp (bnd (trying (publish env backoff)) (\<lambda>r. case r of
      Inl exc \<Rightarrow> handle_error env backoff False exc | Inr backoff \<Rightarrow> ret (Continue backoff False)))
      (\<lambda>_. untouched h) (\<lambda>_. untouched h) t" if "committing h t" "commit_pending (fst t)" for t
    unfolding wp_bnd wp_trying
    by (rule wp_weaken [OF publish_untouched [OF that]]) (simp_all add: wp_ret handled)
  have looped: "wp (bnd (trying (prepare env pending)) (\<lambda>r. case r of
      Inl exc \<Rightarrow> handle_error env backoff pending exc
    | Inr go_on \<Rightarrow> if \<not> go_on then ret Break else bnd (trying (publish env backoff)) (\<lambda>r. case r of
        Inl exc \<Rightarrow> handle_error env backoff False exc | Inr backoff \<Rightarrow> ret (Continue backoff False))))
      (\<lambda>_. untouched h) (\<lambda>_. untouched h) t" if "committing h t" for t
    unfolding wp_bnd [of "trying (prepare _ _)"] wp_trying
    by (rule wp_weaken [OF prepare_committing [OF that]]) (auto simp: wp_ret handled stepped split: if_splits)
  from looped [OF others_committing [OF assms, of env]] others_committing [OF assms, of env] show ?thesis
    unfolding run_round_def wp_thn wp_others wp_bnd [of "self_gets _"] wp_self_gets
    by (auto simp: wp_ret committing_def)
qed

text \<open>C8: A commit that may still complete is never cut off by the run loop. A round that starts with a commit
  outstanding and ends with one, whatever is raised in between and whether or not a rebuild was
  pending, leaves the transaction open on the same librdkafka handle: it is not aborted, and the
  producer is neither closed nor replaced.\<close>

theorem outstanding_commit_is_not_cut_off:
  assumes "commit_pending (fst s)" "br_producer (fst s) = Some p" "mp_producer p = Some h" "mp_txn_open p"
    and "run_round env backoff pending s = (r, t)" "commit_pending (fst t)"
  shows "\<exists>p'. br_producer (fst t) = Some p' \<and> mp_producer p' = Some h \<and> mp_txn_open p'"
proof -
  have "committing h s"
    using assms(1-4) by (auto simp: committing_def untouched_def open_transaction_def)
  from round_untouched [OF this, of env backoff pending] assms(5) have "untouched h t"
    by (cases r) (auto simp: wp_def)
  with assms(6) show ?thesis
    by (auto simp: untouched_def open_transaction_def)
qed

text \<open>A broker that keeps answering a commit with a retriable error, and a daemon with a commit to make.\<close>

definition busy_rdkafka :: "(unit, unit) rdkafka" where
  "busy_rdkafka = demo_rdkafka\<lparr>rk_commit_transaction :=
     (\<lambda>_ _ w. (Inl (KafkaException (Some (txn_error False))), [], w))\<rparr>"

definition txn_producer :: "unit producer" where
  "txn_producer = (demo_producer True)\<lparr>mp_txn_initialized := True, mp_txn_open := True\<rparr>"

definition committing_bridge :: "(unit, unit, unit, unit) bridge" where
  "committing_bridge = demo_started\<lparr>br_listener := Some (demo_listener\<lparr>li_awaiting_ack := True\<rparr>),
     br_producer := Some txn_producer,
     br_pipeline := Some (daemon_pipeline\<lparr>bp_pending_count := 1, bp_commit_outstanding := True\<rparr>)\<rparr>"

lemma busy_commit:
  "commit_transaction busy_rdkafka timeout (txn_producer, ()) =
     (Inl (KafkaException (Some (txn_error False))), (txn_producer, ()))"
  by (simp add: commit_transaction_def require_transactional_def marking_fatal_def on_producer_def run_simps
      txn_producer_def demo_producer_def busy_rdkafka_def demo_rdkafka_def txn_error_def)

lemma busy_step:
  "bridge_step (demo_env busy_rdkafka) (committing_bridge, ()) =
     (Inl (KafkaException (Some (txn_error False))), (committing_bridge, ()))"
proof -
  have "kafka_error_of (KafkaException (Some (txn_error False))) = Some (txn_error False)"
    "\<not> flag (ke_txn_requires_abort (txn_error False))" "flag (ke_retriable (txn_error False))"
    "\<not> is_fatal_kafka_error (KafkaException (Some (txn_error False)))"
    by (simp_all add: txn_error_def flag_def)
  then show ?thesis
    by (simp add: bridge_step_def on_pipeline_def pipeline_step_def finish_delivery_def commit_with_retry_def
        ports_of_def on_kafka_def busy_commit run_simps numeral_3_eq_3 demo_natives_def py_zero_def put_listener_def
        committing_bridge_def demo_started_def demo_bridge_def daemon_pipeline_def demo_pipeline_def
        del: kafka_error_of.simps is_fatal_kafka_error.simps)
qed

lemma busy_round:
  "\<exists>c b. run_round (demo_env busy_rdkafka) (Finite 1) True (committing_bridge, ()) = (Inr c, (b, ())) \<and>
     commit_pending b"
proof -
  have "br_pipeline committing_bridge = Some (daemon_pipeline\<lparr>bp_pending_count := 1, bp_commit_outstanding := True\<rparr>)"
    "\<not> br_shutdown_requested committing_bridge" "commit_pending committing_bridge"
    "br_metrics committing_bridge = fresh_metrics"
    by (simp_all add: committing_bridge_def demo_started_def demo_bridge_def commit_pending_def)
  then show ?thesis
    using busy_step
    by (simp add: run_round_def prepare_def publish_def handle_error_def rebuild_pipeline_def others_def run_simps
        txn_error_def commit_pending_def)
qed

theorem outstanding_commit_is_not_cut_off_witness:
  "\<exists>c b p. run_round (demo_env busy_rdkafka) (Finite 1) True (committing_bridge, ()) = (Inr c, (b, ())) \<and>
     br_producer b = Some p \<and> mp_producer p = Some () \<and> mp_txn_open p"
proof -
  obtain c b where round: "run_round (demo_env busy_rdkafka) (Finite 1) True (committing_bridge, ()) = (Inr c, (b, ()))"
    "commit_pending b"
    using busy_round by blast
  have start: "commit_pending committing_bridge" "br_producer committing_bridge = Some txn_producer"
    "mp_producer txn_producer = Some ()" "mp_txn_open txn_producer"
    by (simp_all add: committing_bridge_def commit_pending_def txn_producer_def demo_producer_def)
  from outstanding_commit_is_not_cut_off [of "(committing_bridge, ())", simplified, OF start round(1)] round
  show ?thesis
    by simp
qed

section \<open>A reply that is lost for good\<close>

text \<open>
  The reply is pending, but there is nothing to commit and nothing delivered, and no handle shows a fault.
  A step leaves a daemon like this when enqueueing fails with an exception the pipeline does not name.
\<close>

definition lost_reply :: "('d, 'c, 'h, 'w) bridge \<Rightarrow> bool" where
  "lost_reply b \<longleftrightarrow> \<not> br_shutdown_requested b \<and> br_counted b \<noteq> None \<and>
     (\<exists>q. br_pipeline b = Some q \<and> \<not> bp_commit_outstanding q \<and> \<not> bp_delivered_unacked q) \<and>
     (\<exists>l. br_listener b = Some l \<and> li_awaiting_ack l \<and> \<not> li_delivery_failed l) \<and>
     (\<exists>p. br_producer b = Some p \<and> \<not> mp_closed p \<and> \<not> mp_fatal p)"

lemma lost_step:
  assumes "lost_reply b"
  shows "\<exists>b'. bridge_step env (b, w) = (Inl CDCError, (b', w)) \<and> lost_reply b' \<and> br_metrics b' = br_metrics b"
proof -
  obtain q l p records where parts: "br_pipeline b = Some q" "\<not> bp_commit_outstanding q" "\<not> bp_delivered_unacked q"
    "br_listener b = Some l" "li_awaiting_ack l" "\<not> li_delivery_failed l"
    "br_producer b = Some p" "\<not> mp_closed p" "\<not> mp_fatal p" "br_counted b = Some records" "\<not> br_shutdown_requested b"
    using assms by (auto simp: lost_reply_def)
  have "poll_records pb nt bts (l, w) = (Inl CDCError, (l, w))" for pb nt bts
    using parts by (simp add: poll_records_def consume_batch_def run_simps)
  with parts show ?thesis
    by (simp add: bridge_step_def on_pipeline_def pipeline_step_def ports_of_def counting_poll_def on_listener_def
        run_simps lost_reply_def put_listener_def)
qed

lemma lost_round:
  assumes "lost_reply b" "\<And>w. fst (en_others env w) = Nothing" "\<And>timeout w. \<exists>w'. en_wait env timeout w = (Inr (), w')"
  shows "\<exists>backoff' b' w'. run_round env backoff False (b, w) = (Inr (Continue backoff' False), (b', w')) \<and>
    lost_reply b' \<and> br_metrics b' = (br_metrics b)\<lparr>bm_errors_retried := bm_errors_retried (br_metrics b) + 1\<rparr>"
proof -
  have others: "others env (c, v) = (Inr (), (c, snd (en_others env v)))" for c :: "('a, 'b, 'c, 'd) bridge" and v
    using assms(2) [of v] by (cases "en_others env v") (simp add: others_def)
  have awake: "\<not> br_shutdown_requested c" "\<not> needs_rebuild c CDCError"
    if "lost_reply c" for c :: "('a, 'b, 'c, 'd) bridge"
    using that by (auto simp: lost_reply_def needs_rebuild_def)
  obtain q where built: "br_pipeline b = Some q"
    using assms(1) by (auto simp: lost_reply_def)
  let ?w = "snd (en_others env (snd (en_others env w)))"
  obtain b' where step: "bridge_step env (b, ?w) = (Inl CDCError, (b', ?w))" "lost_reply b'"
    "br_metrics b' = br_metrics b"
    using lost_step [OF assms(1)] by blast
  let ?b = "b'\<lparr>br_metrics := (br_metrics b')\<lparr>bm_errors_retried := bm_errors_retried (br_metrics b') + 1\<rparr>\<rparr>"
  have "lost_reply ?b"
    using step(2) by (simp add: lost_reply_def)
  obtain w' where wait: "en_wait env backoff (snd (en_others env ?w)) = (Inr (), w')"
    using assms(3) by blast
  show ?thesis
    using step(1,3) awake [OF assms(1)] awake [OF \<open>lost_reply ?b\<close>] \<open>lost_reply ?b\<close> wait built
    by (simp add: run_round_def prepare_def publish_def handle_error_def run_simps others)
qed

text \<open>C17: A reply can be lost without the daemon ever noticing. Once one is pending with nothing to commit and
  with healthy handles, each round of \<open>run\<close> fails with \<open>CDCError\<close>, is counted as retried, and
  asks for no rebuild: without a shutdown the loop goes on like this for any number of rounds and nothing
  is acknowledged any more. The documentation of \<open>run\<close> promises a rebuild when an error leaves the
  listener unable to poll.\<close>

theorem lost_reply_is_never_recovered:
  assumes "lost_reply (fst s)" "\<And>w. fst (en_others env w) = Nothing"
    and "\<And>timeout w. \<exists>w'. en_wait env timeout w = (Inr (), w')"
  shows "\<exists>t. run_loop env n backoff False s = (Inl Diverges, t) \<and> lost_reply (fst t) \<and>
    br_metrics (fst t) = (br_metrics (fst s))\<lparr>bm_errors_retried := bm_errors_retried (br_metrics (fst s)) + n\<rparr>"
  using assms(1)
proof (induction n arbitrary: s backoff)
  case 0
  then show ?case
    by (simp add: run_simps)
next
  case (Suc n)
  obtain b w where s: "s = (b, w)"
    by (metis surj_pair)
  obtain backoff' b' w' where round: "run_round env backoff False s = (Inr (Continue backoff' False), (b', w'))"
    "lost_reply b'" "br_metrics b' = (br_metrics b)\<lparr>bm_errors_retried := bm_errors_retried (br_metrics b) + 1\<rparr>"
    using lost_round [of b env backoff w] assms(2,3) Suc.prems unfolding s by auto
  with Suc.IH [of "(b', w')" backoff'] show ?case
    by (auto simp: run_simps s)
qed

text \<open>The started daemon with a client library whose \<open>produce\<close> raises \<open>TypeError\<close>.\<close>

definition odd_rdkafka :: "(unit, unit) rdkafka" where
  "odd_rdkafka = demo_rdkafka\<lparr>rk_produce := (\<lambda>_ _ _ _ w. (Inl TypeError, [], w))\<rparr>"

definition demo_lost :: "(unit, unit, unit, unit) bridge" where
  "demo_lost = demo_started\<lparr>br_listener := Some demo_polled, br_counted := Some [demo_record],
     br_metrics := fresh_metrics\<lparr>bm_errors_retried := 1\<rparr>\<rparr>"

lemma odd_round:
  "\<exists>c. run_round (demo_env odd_rdkafka) (Finite (1 / 10)) False (demo_started, ()) = (Inr (Continue c False), (demo_lost, ()))"
proof -
  have produce: "produce proto3 odd_rdkafka topic r key (demo_producer False, ()) =
      (Inl TypeError, (demo_producer False, ()))" for topic r key
    by (simp add: produce_def on_producer_def run_simps demo_producer_def odd_rdkafka_def demo_rdkafka_def)
  have step: "bridge_step (demo_env odd_rdkafka) (demo_started, ()) =
      (Inl TypeError, (demo_lost\<lparr>br_metrics := fresh_metrics\<rparr>, ()))"
    using demo_listener_calls(1)
    by (simp add: bridge_step_def on_pipeline_def pipeline_step_def ports_of_def counting_poll_def on_listener_def
        produce_and_flush_def produce_all_def on_kafka_def produce run_simps put_listener_def daemon_pipeline_def
        demo_pipeline_def demo_started_def demo_bridge_def demo_lost_def)
  show ?thesis
    using step
    by (simp add: run_round_def prepare_def publish_def handle_error_def needs_rebuild_def others_def run_simps
        demo_started_def demo_bridge_def demo_lost_def daemon_pipeline_def demo_pipeline_def demo_polled_def
        demo_listener_def demo_producer_def fresh_metrics_def)
qed

theorem lost_reply_is_never_recovered_witness:
  "\<exists>b. run_loop (demo_env odd_rdkafka) 6 (Finite (1 / 10)) False (demo_started, ()) = (Inl Diverges, (b, ())) \<and>
     lost_reply b \<and> bm_errors_retried (br_metrics b) = 6"
proof -
  obtain c where "run_round (demo_env odd_rdkafka) (Finite (1 / 10)) False (demo_started, ()) =
      (Inr (Continue c False), (demo_lost, ()))"
    using odd_round by blast
  then have "run_loop (demo_env odd_rdkafka) 6 (Finite (1 / 10)) False (demo_started, ()) =
      run_loop (demo_env odd_rdkafka) 5 c False (demo_lost, ())"
    by (simp add: run_simps numeral_eq_Suc)
  moreover have "lost_reply demo_lost"
    by (simp add: lost_reply_def demo_lost_def demo_started_def demo_bridge_def daemon_pipeline_def
        demo_pipeline_def demo_polled_def demo_listener_def demo_producer_def)
  ultimately show ?thesis
    using lost_reply_is_never_recovered [of "(demo_lost, ())" "demo_env odd_rdkafka" 5 c]
    by (auto simp: run_simps demo_lost_def fresh_metrics_def)
qed

end
