(* ===== verification/Demo.thy ===== *)
theory Demo
  imports Workload Bridge
begin

text \<open>
  \<open>demo/run_demo.py\<close>: the workload's writes, the seeding of the keys its clear ranges remove, the consumer of
  the topic and the teardown of the daemon. A transaction is the list of the operations it commits; the
  database, the Kafka consumer and the clock are parameters. Progress output, durations and command-line
  parsing are left out; \<open>run_demo\<close>, which calls these parts, is in \<open>Demo_Run\<close>.
\<close>

section \<open>Writing\<close>

text \<open>The calls on a transaction the workload makes, in FoundationDB's own names.\<close>

datatype operation =
    SetKey bytes bytes
  | ClearRange bytes bytes
  | Add bytes bytes
  | BitAnd bytes bytes
  | BitOr bytes bytes
  | BitXor bytes bytes
  | AppendIfFits bytes bytes
  | MaxOp bytes bytes
  | MinOp bytes bytes
  | SetVersionstampedKey bytes bytes
  | SetVersionstampedValue bytes bytes
  | ByteMin bytes bytes
  | ByteMax bytes bytes

text \<open>\<open>struct.pack("<I", n)\<close>, which raises \<open>struct.error\<close> out of range.\<close>

definition pack_u32 :: "nat \<Rightarrow> exn + bytes" where
  "pack_u32 n = (if n < 2 ^ 32 then Inr (map (\<lambda>i. of_nat (n div 256 ^ i)) [0..<4]) else Inl (OtherError None))"

definition write_operation :: "bytes \<Rightarrow> nat \<Rightarrow> exn + operation" where
  "write_operation key_prefix index =
     (let m = index mod 14; idx_bytes = index_bytes index in
      if m = 0 then Inr (SetKey (key_prefix @ octets ''set_'' @ idx_bytes) (octets ''val-'' @ decimal index))
      else if m = 1 then
        Inr (ClearRange (key_prefix @ octets ''clr_'' @ idx_bytes @ octets ''/a'')
          (key_prefix @ octets ''clr_'' @ idx_bytes @ octets ''/z''))
      else if m = 2 then Inr (Add (key_prefix @ octets ''add_'' @ idx_bytes) (le8 index))
      else if m = 3 then Inr (BitAnd (key_prefix @ octets ''and_'' @ idx_bytes) [0x0F])
      else if m = 4 then Inr (BitOr (key_prefix @ octets ''or_'' @ idx_bytes) [0xF0])
      else if m = 5 then Inr (BitXor (key_prefix @ octets ''xor_'' @ idx_bytes) [0xAA])
      else if m = 6 then Inr (AppendIfFits (key_prefix @ octets ''app_'' @ idx_bytes) (octets ''chunk''))
      else if m = 7 then Inr (MaxOp (key_prefix @ octets ''max_'' @ idx_bytes) (le8 index))
      else if m = 8 then Inr (MinOp (key_prefix @ octets ''min_'' @ idx_bytes) (le8 index))
      else if m = 9 then
        (let k_pref = key_prefix @ octets ''vsk_'' @ idx_bytes in
         bindE (pack_u32 (length k_pref)) (\<lambda>packed.
         Inr (SetVersionstampedKey (k_pref @ replicate 10 0 @ packed) (octets ''vsk_payload''))))
      else if m = 10 then
        (let v_pref = octets ''vsv_'' @ idx_bytes in
         bindE (pack_u32 (length v_pref)) (\<lambda>packed.
         Inr (SetVersionstampedValue (key_prefix @ octets ''vsv_'' @ idx_bytes)
           (v_pref @ replicate 10 0 @ packed))))
      else if m = 11 then Inr (ByteMin (key_prefix @ octets ''bmin_'' @ idx_bytes) [0x10])
      else if m = 12 then Inr (ByteMax (key_prefix @ octets ''bmax_'' @ idx_bytes) [0xFE])
      else Inr (SetKey (key_prefix @ octets ''set_b_'' @ idx_bytes) (octets ''val-b-'' @ decimal index)))"

definition commit_chunk :: "bytes \<Rightarrow> nat \<Rightarrow> nat \<Rightarrow> exn + operation list" where
  "commit_chunk key_prefix s_idx c_size = mapE (write_operation key_prefix) [s_idx..<s_idx + c_size]"

definition batch_size :: nat where
  "batch_size = 500"

text \<open>
  The loop over \<open>range(0, count, batch_size)\<close>: the transactions committed, in order. The first one whose
  operations cannot be built raises.
\<close>

function write_from :: "bytes \<Rightarrow> nat \<Rightarrow> nat \<Rightarrow> exn + operation list list" where
  "write_from key_prefix start_idx cnt =
     (if start_idx < cnt then
        bindE (commit_chunk key_prefix start_idx (min batch_size (cnt - start_idx))) (\<lambda>chunk.
        bindE (write_from key_prefix (start_idx + batch_size) cnt) (\<lambda>rest. Inr (chunk # rest)))
      else Inr [])"
  by pat_completeness auto
termination
  by (relation "measure (\<lambda>(_, start_idx, cnt). cnt - start_idx)") (auto simp: batch_size_def)

declare write_from.simps [simp del]

definition write_samples :: "bytes \<Rightarrow> int \<Rightarrow> exn + operation list list" where
  "write_samples key_prefix cnt = write_from key_prefix 0 (nat cnt)"

section \<open>Seeding\<close>

function slices_of :: "nat list \<Rightarrow> nat list list" where
  "slices_of indexes = (if indexes = [] then [] else take 500 indexes # slices_of (drop 500 indexes))"
  by pat_completeness auto
termination
  by (relation "measure length") auto

declare slices_of.simps [simp del]

definition seed_chunk :: "bytes \<Rightarrow> nat list \<Rightarrow> operation list" where
  "seed_chunk key_prefix indexes =
     map (\<lambda>index. SetKey (key_prefix @ octets ''clr_'' @ index_bytes index @ octets ''/m'') (octets ''seed'')) indexes"

definition seed_clear_targets :: "bytes \<Rightarrow> int \<Rightarrow> operation list list" where
  "seed_clear_targets key_prefix cnt =
     map (seed_chunk key_prefix) (slices_of (filter (\<lambda>index. index mod 14 = 1) [0..<nat cnt]))"

section \<open>Consuming\<close>

text \<open>
  The calls of \<open>confluent_kafka.Consumer\<close> the demonstration makes, and the clock. A message carries an error
  or a value, which may be absent.
\<close>

record message =
  msg_error :: "kafka_error option"
  msg_value :: "bytes option"

record ('w, 'k) consumer_calls =
  cs_new :: "('w, 'k) eff"
  cs_subscribe :: "'k \<Rightarrow> ('w, unit) eff"
  cs_poll :: "'k \<Rightarrow> ('w, message option) eff"
  cs_close :: "'k \<Rightarrow> ('w, unit) eff"
  cs_monotonic :: "('w, rat) eff"

record consumed =
  cd_records :: "pb_record list"
  cd_total_mutations :: nat
  cd_idle_streak :: nat

text \<open>
  The part of a round after the poll; \<open>True\<close> breaks the loop. A value that does not parse raises the
  runtime's \<open>DecodeError\<close>.
\<close>

definition take_message ::
  "protobuf \<Rightarrow> int \<Rightarrow> message option \<Rightarrow> consumed \<Rightarrow> exn + bool \<times> consumed" where
  "take_message pb min_expected message c =
     (case message of
        None \<Rightarrow>
          if min_expected \<le> int (cd_total_mutations c) then
            (let streak = cd_idle_streak c + 1 in Inr (3 \<le> streak, c\<lparr>cd_idle_streak := streak\<rparr>))
          else Inr (False, c)
      | Some msg \<Rightarrow>
          (let c = c\<lparr>cd_idle_streak := 0\<rparr> in
           case msg_error msg of
             Some error \<Rightarrow> Inl (KafkaException (Some error))
           | None \<Rightarrow>
               case msg_value msg of
                 None \<Rightarrow> Inl (RuntimeError [])
               | Some val \<Rightarrow>
                   case ParseFromString pb val of
                     None \<Rightarrow> Inl (OtherError None)
                   | Some record \<Rightarrow>
                       let c = c\<lparr>cd_records := cd_records c @ [record],
                         cd_total_mutations := cd_total_mutations c + record_mutations record\<rparr>
                       in Inr (min_expected \<le> int (cd_total_mutations c) \<and> 2 \<le> cd_idle_streak c, c)))"

fun consume_loop ::
  "protobuf \<Rightarrow> ('w, 'k) consumer_calls \<Rightarrow> 'k \<Rightarrow> int \<Rightarrow> pyfloat \<Rightarrow> nat \<Rightarrow> consumed \<Rightarrow> ('w, consumed) eff"
where
  "consume_loop pb cs k min_expected deadline 0 c = raise Diverges"
| "consume_loop pb cs k min_expected deadline (Suc fuel) c =
     bnd (cs_monotonic cs) (\<lambda>now.
     if \<not> py_less (Finite now) deadline then ret c
     else
       bnd (cs_poll cs k) (\<lambda>message.
       bnd (liftE (take_message pb min_expected message c)) (\<lambda>(stop_here, c).
       if stop_here then ret c else consume_loop pb cs k min_expected deadline fuel c)))"

definition consume_records ::
  "protobuf \<Rightarrow> ('w, 'k) consumer_calls \<Rightarrow> int \<Rightarrow> pyfloat \<Rightarrow> nat \<Rightarrow> ('w, pb_record list) eff" where
  "consume_records pb cs min_expected timeout fuel =
     bnd (cs_new cs) (\<lambda>k.
     thn (cs_subscribe cs k)
     (bnd (cs_monotonic cs) (\<lambda>now.
      bnd (finally_do (consume_loop pb cs k min_expected (py_plus now timeout) fuel
             \<lparr>cd_records = [], cd_total_mutations = 0, cd_idle_streak = 0\<rparr>) (cs_close cs k)) (\<lambda>c.
      if int (cd_total_mutations c) < min_expected then raise TimeoutError else ret (cd_records c)))))"

section \<open>Teardown\<close>

text \<open>\<open>alive\<close> says whether the daemon's thread was started and still runs.\<close>

definition stop_bridge ::
  "('d, 'c, 'h, 'w) environment \<Rightarrow> bool \<Rightarrow> (('d, 'c, 'h, 'w) bridge option \<times> 'w, unit) eff" where
  "stop_bridge env alive =
     bnd (self_gets id) (\<lambda>b. case b of
       None \<Rightarrow> ret ()
     | Some bridge \<Rightarrow>
         if alive then ret ()
         else catch (zoom (\<lambda>s. (bridge, snd s)) (\<lambda>t s. (Some (fst t), snd t)) (stop env)) is_Exception (\<lambda>_. ret ()))"

end
