(* ===== verification/Workload_Spec.thy ===== *)
theory Workload_Spec
  imports Workload
begin

text \<open>
  What the verifier of the demonstration's workload is meant to check (\<open>exact_delivery\<close>), and the proof that it
  accepts exactly that: the state of the loop summarises the records read so far as long as they are
  acceptable, and the checks after the loop complete the specification.
\<close>

section \<open>Specification\<close>

fun record_mutations_of :: "pb_record_arm option \<Rightarrow> pb_mutation list" where
  "record_mutations_of (Some (BatchArm ms)) = ms"
| "record_mutations_of (Some (MutationArm m)) = [m]"
| "record_mutations_of _ = []"

fun record_ends_of :: "pb_record_arm option \<Rightarrow> pb_version_end list" where
  "record_ends_of (Some (VersionEndArm e)) = [e]"
| "record_ends_of _ = []"

definition mutations_of :: "pb_record list \<Rightarrow> pb_mutation list" where
  "mutations_of records = concat (map (\<lambda>r. record_mutations_of (pr_record r)) records)"

definition ends_of :: "pb_record list \<Rightarrow> pb_version_end list" where
  "ends_of records = concat (map (\<lambda>r. record_ends_of (pr_record r)) records)"

definition index_of :: "bytes \<Rightarrow> pb_mutation \<Rightarrow> nat option" where
  "index_of key_prefix m = index_in_key key_prefix (fst (snd (native_parts m)))"

definition genuine :: "bytes \<Rightarrow> pb_mutation \<Rightarrow> bool" where
  "genuine key_prefix m \<longleftrightarrow>
     (case (index_of key_prefix m, native_parts m) of
        (Some i, (c, p1, p2)) \<Rightarrow> matches (expected_mutation key_prefix i) c p1 p2
      | _ \<Rightarrow> False)"

definition version_seqs :: "pb_mutation list \<Rightarrow> int \<Rightarrow> int set" where
  "version_seqs ms v = {q. (v, q) \<in> vi_coordinate ` set ms}"

definition exact_delivery :: "bytes \<Rightarrow> int \<Rightarrow> pb_record list \<Rightarrow> bool" where
  "exact_delivery key_prefix cnt records \<longleftrightarrow>
     (let ms = mutations_of records; es = ends_of records in
      0 \<le> cnt \<and> mset (map (index_of key_prefix) ms) = mset (map Some [0..<nat cnt]) \<and>
      list_all (genuine key_prefix) ms \<and> distinct (map vi_coordinate ms) \<and>
      distinct (map pve_fdb_version es) \<and>
      (\<forall>m \<in> set ms. fst (vi_coordinate m) \<in> pve_fdb_version ` set es) \<and>
      (\<forall>e \<in> set es. version_seqs ms (pve_fdb_version e) = {0..<pve_total_mutations e}))"

definition type_count :: "pb_mutation list \<Rightarrow> int \<Rightarrow> nat" where
  "type_count ms c = length (filter (\<lambda>m. fst (native_parts m) = c) ms)"

section \<open>The loop\<close>

definition acceptable :: "bytes \<Rightarrow> int \<Rightarrow> pb_mutation list \<Rightarrow> pb_version_end list \<Rightarrow> bool" where
  "acceptable key_prefix cnt ms es \<longleftrightarrow>
     distinct (map vi_coordinate ms) \<and> distinct (map (index_of key_prefix) ms) \<and>
     (\<forall>m \<in> set ms. genuine key_prefix m \<and> (\<forall>i. index_of key_prefix m = Some i \<longrightarrow> int i < cnt)) \<and>
     distinct (map pve_fdb_version es)"

lemma acceptable_append: "acceptable p n (ms @ ms') (es @ es') \<Longrightarrow> acceptable p n ms es"
  by (auto simp: acceptable_def)

definition summary :: "bytes \<Rightarrow> pb_mutation list \<Rightarrow> pb_version_end list \<Rightarrow> verification \<Rightarrow> bool" where
  "summary key_prefix ms es s \<longleftrightarrow>
     seqs_of s = version_seqs ms \<and> fst ` set (vw_seqs_by_version s) = (fst \<circ> vi_coordinate) ` set ms \<and>
     vw_totals s = map (\<lambda>e. (pve_fdb_version e, pve_total_mutations e)) es \<and>
     vw_seen s = {i. Some i \<in> index_of key_prefix ` set ms} \<and>
     map_of (vw_type_counts s) = (\<lambda>c. if type_count ms c = 0 then None else Some (type_count ms c))"

definition tracks ::
  "bytes \<Rightarrow> int \<Rightarrow> pb_mutation list \<Rightarrow> pb_version_end list \<Rightarrow> exn + verification \<Rightarrow> bool" where
  "tracks key_prefix cnt ms es r \<longleftrightarrow>
     (case r of
        Inl e \<Rightarrow> e = AssertionError \<and> \<not> acceptable key_prefix cnt ms es
      | Inr s \<Rightarrow> acceptable key_prefix cnt ms es \<and> summary key_prefix ms es s)"

lemma tracks_bind:
  assumes "tracks p n ms es r"
    and "\<And>s. acceptable p n ms es \<Longrightarrow> summary p ms es s \<Longrightarrow> tracks p n (ms @ ms') (es @ es') (f s)"
  shows "tracks p n (ms @ ms') (es @ es') (bindE r f)"
  using assms acceptable_append by (cases r) (auto simp: tracks_def)

lemma version_seqs_snoc:
  "version_seqs (ms @ [m]) v =
     (if v = fst (vi_coordinate m) then insert (snd (vi_coordinate m)) (version_seqs ms v) else version_seqs ms v)"
  by (cases "vi_coordinate m") (auto simp: version_seqs_def)

lemma check_mutation_tracks:
  assumes "acceptable p n ms es" "summary p ms es s"
  shows "tracks p n (ms @ [m]) es (check_mutation p n m s)"
proof -
  obtain v q where c: "vi_coordinate m = (v, q)"
    by fastforce
  obtain t p1 p2 where parts: "native_parts m = (t, p1, p2)"
    by (metis prod_cases3)
  have new: "q \<in> seqs_of s v \<longleftrightarrow> vi_coordinate m \<in> vi_coordinate ` set ms"
    using assms(2) c by (simp add: summary_def version_seqs_def)
  have seen: "i \<in> vw_seen s \<longleftrightarrow> Some i \<in> index_of p ` set ms" for i
    using assms(2) by (simp add: summary_def)
  have accept: "acceptable p n (ms @ [m]) es \<longleftrightarrow> q \<notin> seqs_of s v \<and>
      (\<exists>i. index_in_key p p1 = Some i \<and> int i < n \<and> i \<notin> vw_seen s \<and> matches (expected_mutation p i) t p1 p2)"
    using assms(1) unfolding new seen
    by (auto simp: acceptable_def genuine_def index_of_def parts split: option.split)
  show ?thesis
  proof (cases "acceptable p n (ms @ [m]) es")
    case False
    then show ?thesis
      unfolding accept by (auto simp: tracks_def accept check_mutation_def c parts split: option.split)
  next
    case True
    then obtain i where i: "q \<notin> seqs_of s v" "index_in_key p p1 = Some i" "int i < n" "i \<notin> vw_seen s"
      "matches (expected_mutation p i) t p1 p2"
      unfolding accept by blast
    let ?seqs = "AList.update v (insert q (seqs_of s v)) (vw_seqs_by_version s)"
    let ?counts = "AList.update t ((case map_of (vw_type_counts s) t of None \<Rightarrow> 0 | Some k \<Rightarrow> k) + 1) (vw_type_counts s)"
    let ?s = "s\<lparr>vw_seqs_by_version := ?seqs, vw_seen := insert i (vw_seen s), vw_type_counts := ?counts\<rparr>"
    have "check_mutation p n m s = Inr ?s"
      using i by (simp add: check_mutation_def c parts)
    moreover have "seqs_of ?s = version_seqs (ms @ [m])"
      using assms(2) c by (auto simp: fun_eq_iff seqs_of_def version_seqs_snoc update_conv summary_def)
    moreover have "fst ` set ?seqs = (fst \<circ> vi_coordinate) ` set (ms @ [m])"
      using assms(2) c by (auto simp: summary_def dom_update)
    moreover have "map_of ?counts = (\<lambda>u. if type_count (ms @ [m]) u = 0 then None else Some (type_count (ms @ [m]) u))"
      using assms(2) by (auto simp: fun_eq_iff update_conv summary_def type_count_def parts)
    ultimately show ?thesis
      using assms(2) True i(2) by (auto simp: tracks_def summary_def index_of_def parts)
  qed
qed

lemma check_mutations_tracks:
  "acceptable p n ms es \<Longrightarrow> summary p ms es s \<Longrightarrow> tracks p n (ms @ ms') es (check_mutations p n ms' s)"
proof (induction ms' arbitrary: ms s)
  case (Cons m ms')
  have "tracks p n ((ms @ [m]) @ ms') (es @ []) (bindE (check_mutation p n m s) (check_mutations p n ms'))"
    by (rule tracks_bind [OF check_mutation_tracks [OF Cons.prems]]) (simp only: append_Nil2, rule Cons.IH)
  then show ?case
    by simp
qed (simp add: tracks_def)

lemma check_record_tracks:
  assumes "acceptable p n ms es" "summary p ms es s"
  shows "tracks p n (ms @ record_mutations_of (pr_record r)) (es @ record_ends_of (pr_record r)) (check_record p n r s)"
proof (cases "pr_record r")
  case (Some arm)
  show ?thesis
  proof (cases arm)
    case (VersionEndArm e)
    have "map_of (vw_totals s) v = None \<longleftrightarrow> v \<notin> pve_fdb_version ` set es" for v
      using assms(2) by (simp add: summary_def map_of_eq_None_iff image_image)
    moreover have "AList.update v x kvs = kvs @ [(v, x)]" if "map_of kvs v = None" for v x and kvs :: "(int \<times> int) list"
      using that by (induction kvs) (auto split: if_splits)
    ultimately show ?thesis
      using assms Some VersionEndArm
      by (auto simp: check_record_def tracks_def summary_def acceptable_def seqs_of_def fun_eq_iff)
  qed (use assms Some check_mutation_tracks check_mutations_tracks in \<open>simp_all add: check_record_def\<close>)
qed (use assms in \<open>simp add: check_record_def tracks_def\<close>)

lemma check_records_tracks:
  "acceptable p n ms es \<Longrightarrow> summary p ms es s \<Longrightarrow>
     tracks p n (ms @ mutations_of records) (es @ ends_of records) (check_records p n records s)"
proof (induction records arbitrary: ms es s)
  case (Cons r records)
  have "tracks p n ((ms @ record_mutations_of (pr_record r)) @ mutations_of records)
      ((es @ record_ends_of (pr_record r)) @ ends_of records)
      (bindE (check_record p n r s) (check_records p n records))"
    by (rule tracks_bind [OF check_record_tracks [OF Cons.prems]]) (rule Cons.IH)
  then show ?case
    by (simp add: mutations_of_def ends_of_def)
qed (simp add: tracks_def mutations_of_def ends_of_def)

section \<open>The whole check\<close>

lemma version_seqs_card:
  assumes "distinct (map vi_coordinate ms)"
  shows "card (version_seqs ms v) = card {m \<in> set ms. fst (vi_coordinate m) = v}"
proof -
  have "inj_on vi_coordinate (set ms)"
    using assms by (simp add: distinct_map)
  then have "inj_on (snd \<circ> vi_coordinate) {m \<in> set ms. fst (vi_coordinate m) = v}"
    by (auto simp: inj_on_def prod_eq_iff)
  moreover have "version_seqs ms v = (snd \<circ> vi_coordinate) ` {m \<in> set ms. fst (vi_coordinate m) = v}"
    by (auto simp: version_seqs_def image_iff prod_eq_iff)
  ultimately show ?thesis
    by (simp only: card_image)
qed

text \<open>The last check of the source, on the sum of the totals, follows from the others.\<close>

lemma totals_sum:
  assumes "distinct (map vi_coordinate ms)" "distinct (map pve_fdb_version es)"
    and "\<forall>m \<in> set ms. fst (vi_coordinate m) \<in> pve_fdb_version ` set es"
    and "\<forall>e \<in> set es. version_seqs ms (pve_fdb_version e) = {0..<pve_total_mutations e}"
    and "\<forall>e \<in> set es. 0 \<le> pve_total_mutations e"
  shows "sum_list (map pve_total_mutations es) = int (length ms)"
proof -
  let ?of = "\<lambda>e. {m \<in> set ms. fst (vi_coordinate m) = pve_fdb_version e}"
  have inj: "inj_on pve_fdb_version (set es)" and es: "distinct es" and ms: "distinct ms"
    using assms(1,2) by (simp_all add: distinct_map)
  have part: "pve_total_mutations e = int (card (?of e))" if "e \<in> set es" for e
  proof -
    have "nat (pve_total_mutations e) = card (?of e)" "0 \<le> pve_total_mutations e"
      using assms(4,5) that version_seqs_card [OF assms(1), of "pve_fdb_version e"] by simp_all
    then show ?thesis
      by linarith
  qed
  have "set ms = (\<Union>e \<in> set es. ?of e)"
    using assms(3) by auto
  moreover have "card (\<Union>e \<in> set es. ?of e) = (\<Sum>e \<in> set es. card (?of e))"
    by (rule card_UN_disjoint) (use inj in \<open>auto simp: inj_on_def\<close>)
  ultimately have "int (length ms) = (\<Sum>e \<in> set es. int (card (?of e)))"
    using distinct_card [OF ms] by simp
  also have "\<dots> = (\<Sum>e \<in> set es. pve_total_mutations e)"
    using part by simp
  also have "\<dots> = sum_list (map pve_total_mutations es)"
    using es by (simp add: sum_list_distinct_conv_sum_set)
  finally show ?thesis
    by simp
qed

lemma genuine_index: "genuine p m \<Longrightarrow> \<exists>i. index_of p m = Some i"
  by (auto simp: genuine_def split: option.splits)

lemma indices_exact:
  assumes "list_all (genuine p) ms"
  shows "0 \<le> n \<and> mset (map (index_of p) ms) = mset (map Some [0..<nat n]) \<longleftrightarrow>
    distinct (map (index_of p) ms) \<and> (\<forall>m \<in> set ms. \<forall>i. index_of p m = Some i \<longrightarrow> int i < n) \<and>
    int (card {i. Some i \<in> index_of p ` set ms}) = n"
    (is "?L \<longleftrightarrow> ?R")
proof
  assume ?L
  then have n: "0 \<le> n" and eq: "mset (map (index_of p) ms) = mset (map Some [0..<nat n])"
    by simp_all
  have "distinct (map Some [0..<nat n])"
    by (simp add: distinct_map)
  then have "distinct (map (index_of p) ms)"
    using mset_eq_imp_distinct_iff [OF eq] by blast
  moreover have all: "index_of p ` set ms = Some ` {0..<nat n}"
    using mset_eq_setD [OF eq] by simp
  moreover from all have "{i. Some i \<in> index_of p ` set ms} = {0..<nat n}"
    by auto
  moreover have "int i < n" if "m \<in> set ms" "index_of p m = Some i" for m i
  proof -
    have "Some i \<in> index_of p ` set ms"
      using that by (metis imageI)
    with all show ?thesis
      by auto
  qed
  ultimately show ?R
    using n by simp
next
  assume R: ?R
  let ?I = "{i. Some i \<in> index_of p ` set ms}"
  have all: "\<exists>i. index_of p m = Some i" if "m \<in> set ms" for m
    using assms that genuine_index by (auto simp: list_all_iff)
  have "?I \<subseteq> {0..<nat n}"
    using R by (auto simp: image_iff)
  moreover have "card ?I = card {0..<nat n}"
    using R by (metis card_atLeastLessThan diff_zero nat_int)
  ultimately have I: "?I = {0..<nat n}"
    by (intro card_subset_eq) simp_all
  have "index_of p ` set ms = Some ` ?I"
    using all by (force simp: image_iff)
  then have "set (map (index_of p) ms) = set (map Some [0..<nat n])"
    unfolding I by simp
  then have "mset (map (index_of p) ms) = mset (map Some [0..<nat n])"
    using R by (subst set_eq_iff_mset_eq_distinct [symmetric]) (simp_all add: distinct_map)
  then show ?L
    using R by linarith
qed

lemma indices_card:
  assumes "distinct (map (index_of p) ms)" "list_all (genuine p) ms"
  shows "card {i. Some i \<in> index_of p ` set ms} = length ms"
proof -
  have "Some ` {i. Some i \<in> index_of p ` set ms} = index_of p ` set ms"
    using assms(2) genuine_index by (force simp: list_all_iff image_iff)
  then have "card {i. Some i \<in> index_of p ` set ms} = card (set (map (index_of p) ms))"
    by (metis card_image inj_Some inj_on_subset list.set_map subset_UNIV)
  then show ?thesis
    using distinct_card [OF assms(1)] by simp
qed

lemma verify_exact:
  assumes "\<forall>e \<in> set (ends_of records). 0 \<le> pve_total_mutations e"
  shows "if exact_delivery p n records
    then \<exists>counts. verify_workload records p n = Inr counts \<and>
      map_of counts = (\<lambda>c. let k = type_count (mutations_of records) c in if k = 0 then None else Some k)
    else verify_workload records p n = Inl AssertionError"
proof -
  let ?ms = "mutations_of records" and ?es = "ends_of records"
  let ?s0 = "\<lparr>vw_seqs_by_version = [], vw_totals = [], vw_seen = {}, vw_type_counts = []\<rparr>"
  have "tracks p n ?ms ?es (check_records p n records ?s0)"
    using check_records_tracks [of p n "[]" "[]" ?s0 records]
    by (simp add: acceptable_def summary_def version_seqs_def seqs_of_def type_count_def fun_eq_iff)
  then consider (bad) "check_records p n records ?s0 = Inl AssertionError" "\<not> acceptable p n ?ms ?es"
    | (good) s where "check_records p n records ?s0 = Inr s" "acceptable p n ?ms ?es" "summary p ?ms ?es s"
    by (auto simp: tracks_def split: sum.splits)
  then show ?thesis
  proof cases
    case bad
    then have "\<not> exact_delivery p n records"
      using indices_exact [of p ?ms n] by (auto simp: exact_delivery_def acceptable_def list_all_iff Let_def)
    with bad show ?thesis
      by (simp add: verify_workload_def)
  next
    case good
    have gen: "list_all (genuine p) ?ms" and ms: "distinct (map vi_coordinate ?ms)" and es: "distinct (map pve_fdb_version ?es)"
      using good(2) by (auto simp: acceptable_def list_all_iff)
    have versions: "list_all (\<lambda>(version, _). map_of (vw_totals s) version \<noteq> None) (vw_seqs_by_version s) \<longleftrightarrow>
        (\<forall>m \<in> set ?ms. fst (vi_coordinate m) \<in> pve_fdb_version ` set ?es)"
    proof -
      have "map_of (vw_totals s) v \<noteq> None \<longleftrightarrow> v \<in> pve_fdb_version ` set ?es" for v
        using good(3) by (simp add: summary_def map_of_eq_None_iff image_image)
      then have "list_all (\<lambda>(version, _). map_of (vw_totals s) version \<noteq> None) (vw_seqs_by_version s) \<longleftrightarrow>
          (\<forall>v \<in> fst ` set (vw_seqs_by_version s). v \<in> pve_fdb_version ` set ?es)"
        by (auto simp: list_all_iff simp del: not_None_eq)
      also have "fst ` set (vw_seqs_by_version s) = (\<lambda>m. fst (vi_coordinate m)) ` set ?ms"
        using good(3) by (simp add: summary_def)
      finally show ?thesis
        by simp
    qed
    have totals: "list_all (\<lambda>(version, total). seqs_of s version = set [0..total - 1]) (vw_totals s) \<longleftrightarrow>
        (\<forall>e \<in> set ?es. version_seqs ?ms (pve_fdb_version e) = {0..<pve_total_mutations e})"
    proof -
      have "set [0..t - 1] = {0..<t}" for t :: int
        by auto
      then show ?thesis
        using good(3) by (simp add: summary_def list_all_iff)
    qed
    have "exact_delivery p n records \<longleftrightarrow> int (card (vw_seen s)) = n \<and>
        (\<forall>m \<in> set ?ms. fst (vi_coordinate m) \<in> pve_fdb_version ` set ?es) \<and>
        (\<forall>e \<in> set ?es. version_seqs ?ms (pve_fdb_version e) = {0..<pve_total_mutations e})"
      using good(2,3) gen ms es indices_exact [OF gen, of n]
      by (auto simp: exact_delivery_def acceptable_def summary_def Let_def)
    moreover have "sum_list (map snd (vw_totals s)) = int (length ?ms)"
      if "\<forall>m \<in> set ?ms. fst (vi_coordinate m) \<in> pve_fdb_version ` set ?es"
        "\<forall>e \<in> set ?es. version_seqs ?ms (pve_fdb_version e) = {0..<pve_total_mutations e}"
      using totals_sum [OF ms es that assms] good(3) by (simp add: summary_def comp_def)
    moreover have "length ?ms = card (vw_seen s)"
      using indices_card [OF _ gen] good(2,3) by (simp add: acceptable_def summary_def)
    ultimately show ?thesis
      using good(1,3) versions totals
      by (auto simp: verify_workload_def ensure_def summary_def Let_def)
  qed
qed

section \<open>Keys and indices\<close>

lemma digits_length: "n < 10 ^ k \<Longrightarrow> 0 < k \<Longrightarrow> length (digits n) \<le> k"
proof (induction n arbitrary: k rule: digits.induct)
  case (1 n)
  show ?case
  proof (cases "n < 10")
    case False
    with 1(2) obtain j where k: "k = Suc j" "0 < j"
      by (cases k; cases "k - 1") auto
    with 1 False show ?thesis
      by (subst digits.simps) auto
  qed (use 1(3) in \<open>subst digits.simps, simp\<close>)
qed

lemma digits_value_padded: "digits_value (replicate k 48 @ ds) = digits_value ds"
  by (induction k) (simp_all add: digits_value_def)

lemma digits_value_less: "list_all is_digit ds \<Longrightarrow> digits_value ds < 10 ^ length ds"
proof (induction ds rule: rev_induct)
  case (snoc c ds)
  then show ?case
    by (auto simp: digits_value_append is_digit_def)
qed (simp add: digits_value_def)

lemma eight_digits_less: "eight_digits bs = Some n \<Longrightarrow> n < 10 ^ 8"
  using digits_value_less by (fastforce simp: eight_digits_def Let_def split: if_splits)

lemma match_index_less: "match_index bs = Some n \<Longrightarrow> n < 10 ^ 8"
  by (induction bs) (auto dest: eight_digits_less split: if_splits option.splits)

lemma index_of_less: "index_of p m = Some n \<Longrightarrow> n < 10 ^ 8"
  by (auto simp: index_of_def index_in_key_def dest: match_index_less split: if_splits)

lemma index_bytes_read:
  assumes "i < 10 ^ 8"
  shows "eight_digits (index_bytes i @ rest) = Some i"
proof -
  have len: "length (digits i) \<le> 8"
    using digits_length [of i 8] assms by simp
  have "map unat (decimal i) = digits i"
    using digits_are_digits [of i] by (auto simp: decimal_def is_digit_def intro!: map_idI)
  then have read: "map unat (index_bytes i) = replicate (8 - length (digits i)) 48 @ digits i"
    by (simp add: index_bytes_def)
  moreover have "length (index_bytes i) = 8"
    using len by (simp add: index_bytes_def decimal_def)
  moreover have "list_all is_digit (replicate (8 - length (digits i)) 48 @ digits i)"
    using digits_are_digits [of i] by (auto simp: list_all_iff is_digit_def)
  ultimately show ?thesis
    using len by (simp add: eight_digits_def Let_def digits_value_padded digits_value_digits)
qed

lemma match_index_read:
  assumes "eight_digits bs = Some i"
  shows "tag \<noteq> [] \<Longrightarrow> list_all is_tag tag \<Longrightarrow> match_index (tag @ bs) = Some i"
proof (induction tag)
  case (Cons b tag)
  show ?case
  proof (cases tag)
    case (Cons c cs)
    with Cons.prems have "eight_digits (tag @ bs) = None"
      by (auto simp: eight_digits_def Let_def is_digit_def is_tag_def word_le_nat_alt)
    with Cons.prems Cons.IH Cons show ?thesis
      by simp
  qed (use Cons.prems assms in simp)
qed simp

lemma index_in_key_read:
  "tag \<noteq> [] \<Longrightarrow> list_all is_tag tag \<Longrightarrow> i < 10 ^ 8 \<Longrightarrow>
     index_in_key p (p @ tag @ index_bytes i @ rest) = Some i"
  by (simp add: index_in_key_def match_index_read index_bytes_read)

text \<open>The tag of each kind of operation.\<close>

definition tags :: "bytes list" where
  "tags = map octets [''set_'', ''clr_'', ''add_'', ''and_'', ''or_'', ''xor_'', ''app_'', ''max_'',
     ''min_'', ''vsk_'', ''vsv_'', ''bmin_'', ''bmax_'', ''set_b_'']"

lemma tags_are_tags: "tag \<in> set tags \<Longrightarrow> tag \<noteq> [] \<and> list_all is_tag tag"
  by (auto simp: tags_def octets_def is_tag_def)

lemma kind_cases: "(i::nat) mod 14 \<in> {0, 1, 2, 3, 4, 5, 6, 7, 8, 9, 10, 11, 12, 13}"
proof -
  have "{..<14::nat} = {0, 1, 2, 3, 4, 5, 6, 7, 8, 9, 10, 11, 12, 13}"
    by (simp only: lessThan_nat_numeral pred_numeral_simps lessThan_Suc lessThan_0 arith_simps)
      (simp add: insert_commute)
  moreover have "i mod 14 \<in> {..<14}"
    by simp
  ultimately show ?thesis
    by (simp only:)
qed

definition key_start :: "bytes \<Rightarrow> nat \<Rightarrow> bytes" where
  "key_start p i = p @ tags ! (i mod 14) @ index_bytes i"

lemma expected_param1:
  "\<exists>rest. ex_param1 (expected_mutation p i) = key_start p i @ rest"
  using kind_cases [of i]
  by (elim insertE emptyE) (simp_all add: expected_mutation_def operation_table_def tags_def key_start_def Let_def)

lemma expected_stamp:
  "ex_stamp (expected_mutation p i) = (if i mod 14 = 9 then Some (1, length (key_start p i))
     else if i mod 14 = 10 then Some (2, length (octets ''vsv_'' @ index_bytes i)) else None)"
  by (simp add: expected_mutation_def operation_table_def tags_def key_start_def Let_def)

lemma expected_key:
  assumes "matches (expected_mutation p i) c p1 p2"
  shows "\<exists>rest. p1 = key_start p i @ rest"
proof (cases "i mod 14 = 9")
  case True
  obtain rest where "ex_param1 (expected_mutation p i) = key_start p i @ rest"
    using expected_param1 by blast
  then have "take (length (key_start p i)) p1 = key_start p i"
    using assms True by (auto simp: matches_def expected_stamp Let_def split: if_splits)
  then show ?thesis
    by (metis append_take_drop_id)
next
  case False
  then have "p1 = ex_param1 (expected_mutation p i)"
    using assms by (auto simp: matches_def expected_stamp Let_def split: if_splits)
  then show ?thesis
    using expected_param1 by simp
qed

lemma matches_genuine:
  assumes "matches (expected_mutation p i) c p1 p2" "i < 10 ^ 8" "native_parts m = (c, p1, p2)"
  shows "genuine p m \<and> index_of p m = Some i"
proof -
  have "index_of p m = Some i"
  proof -
    have "tags ! (i mod 14) \<in> set tags"
      by (rule nth_mem) (simp add: tags_def)
    with expected_key [OF assms(1)] tags_are_tags assms(2,3) show ?thesis
      by (auto simp: index_of_def key_start_def index_in_key_read)
  qed
  with assms(1,3) show ?thesis
    by (simp add: genuine_def)
qed

end
