(* ===== verification/Demo_Run.thy ===== *)
theory Demo_Run
  imports Demo Workload_Spec Key_Range
begin

text \<open>
  \<open>run_demo\<close> of \<open>demo/run_demo.py\<close>: it opens the database, starts a daemon on a thread of its own, commits the
  workload, waits for the daemon to publish it, verifies what the topic holds and tears everything down. The
  thread is a parameter: whenever the main thread looks at what they share, \<open>dc_daemon\<close> says how far the
  daemon came meanwhile. What is printed is left out, but for the figures of the report, which the model
  returns.
\<close>

section \<open>The configuration\<close>

definition to_hex :: "bytes \<Rightarrow> pystr" where
  "to_hex bs = concat (map (\<lambda>b. [hex_digit (unat b div 16), hex_digit (unat b mod 16)]) bs)"

definition run_prefix :: "pystr \<Rightarrow> bytes" where
  "run_prefix run_id = octets ''demo/'' @ map of_nat run_id @ octets ''/''"

definition run_stream :: "pystr \<Rightarrow> pystr" where
  "run_stream run_id = ascii ''demo-'' @ run_id"

definition run_topic :: "pystr \<Rightarrow> pystr" where
  "run_topic run_id = ascii ''fdb-cdc-demo-'' @ run_id"

definition run_cursor_file :: "pystr \<Rightarrow> pystr" where
  "run_cursor_file run_id = ascii ''/tmp/fdb-kafka-demo-'' @ run_id @ ascii ''.cursor.json''"

definition run_settings :: "pystr \<Rightarrow> bytes \<Rightarrow> pystr \<Rightarrow> pyval" where
  "run_settings run_id end_key bootstrap_servers = PDict
     [(PStr (ascii ''fdb''), PDict [(PStr (ascii ''api_version''), PInt 800)]),
      (PStr (ascii ''cdc''), PDict
        [(PStr (ascii ''stream_name''), PStr (run_stream run_id)),
         (PStr (ascii ''begin_key''), PStr (to_hex (run_prefix run_id))),
         (PStr (ascii ''end_key''), PStr (to_hex end_key)),
         (PStr (ascii ''max_record_bytes''), PInt 1000000),
         (PStr (ascii ''cursor_file''), PStr (run_cursor_file run_id))]),
      (PStr (ascii ''kafka''), PDict
        [(PStr (ascii ''bootstrap_servers''), PStr bootstrap_servers),
         (PStr (ascii ''topic''), PStr (run_topic run_id))]),
      (PStr (ascii ''pipeline''), PDict
        [(PStr (ascii ''flush_timeout_seconds''), PFloat (Finite 10)),
         (PStr (ascii ''backoff_base_seconds''), PFloat (Finite (1 / 10))),
         (PStr (ascii ''backoff_max_seconds''), PFloat (Finite 2)),
         (PStr (ascii ''shutdown_timeout_seconds''), PFloat (Finite 15))])]"

section \<open>The state\<close>

text \<open>
  The locals of \<open>run_demo\<close> that its parts share. \<open>de_thread\<close> says that \<open>bridge_thread\<close> is set, \<open>de_alive\<close> that the
  thread runs; \<open>de_errors\<close> is \<open>bridge_errors\<close>.
\<close>

record ('d, 'c, 'h, 'w) demo =
  de_client :: "'d fdb_client"
  de_bridge :: "('d, 'c, 'h, 'w) bridge option"
  de_thread :: bool
  de_alive :: bool
  de_errors :: "exn list"

text \<open>
  \<open>dc_uuid\<close> are the bytes of a \<open>uuid4\<close>, \<open>dc_commit\<close> runs a \<open>fdb.transactional\<close> function that makes the given calls, and
  \<open>dc_clear\<close> is \<open>del database[begin:end]\<close>. \<open>dc_daemon\<close> tells of the thread since it was last looked at: whether
  it still runs, the exceptions it recorded and the bridge it leaves.
\<close>

record ('d, 'c, 'h, 'w, 'k) demo_calls =
  dc_env :: "('d, 'c, 'h, 'w) environment"
  dc_consumer :: "pystr \<Rightarrow> pystr \<Rightarrow> ('w, 'k) consumer_calls"
  dc_uuid :: "('w, bytes) eff"
  dc_commit :: "'d \<Rightarrow> operation list \<Rightarrow> ('w, unit) eff"
  dc_clear :: "'d \<Rightarrow> bytes \<Rightarrow> bytes \<Rightarrow> ('w, unit) eff"
  dc_thread_start :: "('w, unit) eff"
  dc_join :: "pyfloat \<Rightarrow> ('w, unit) eff"
  dc_daemon :: "('d, 'c, 'h, 'w) bridge \<Rightarrow> 'w \<Rightarrow> bool \<times> exn list \<times> ('d, 'c, 'h, 'w) bridge \<times> 'w"
  dc_unlink :: "pystr \<Rightarrow> ('w, unit) eff"

definition fresh_demo :: "('d, 'c, 'h, 'w) demo" where
  "fresh_demo = \<lparr>de_client = new_client None 800, de_bridge = None, de_thread = False, de_alive = False,
     de_errors = []\<rparr>"

definition meanwhile :: "('d, 'c, 'h, 'w, 'k) demo_calls \<Rightarrow> (('d, 'c, 'h, 'w) demo \<times> 'w, unit) eff" where
  "meanwhile dc = (\<lambda>s. (Inr (),
     (case de_bridge (fst s) of
        None \<Rightarrow> s
      | Some b \<Rightarrow>
          if de_alive (fst s) then
            (case dc_daemon dc b (snd s) of (alive, new, b, w) \<Rightarrow>
               ((fst s)\<lparr>de_bridge := Some b, de_alive := alive, de_errors := de_errors (fst s) @ new\<rparr>, w))
          else s)))"

definition on_demo_client :: "('d fdb_client \<times> 'w, 'a) eff \<Rightarrow> (('d, 'c, 'h, 'w) demo \<times> 'w, 'a) eff" where
  "on_demo_client m = zoom (\<lambda>s. (de_client (fst s), snd s)) (\<lambda>t s. ((fst s)\<lparr>de_client := fst t\<rparr>, snd t)) m"

definition on_demo_bridge ::
  "(('d, 'c, 'h, 'w) bridge \<times> 'w, 'a) eff \<Rightarrow> (('d, 'c, 'h, 'w) demo \<times> 'w, 'a) eff" where
  "on_demo_bridge m =
     bnd (self_gets de_bridge) (\<lambda>b. case b of
       None \<Rightarrow> raise AttributeError
     | Some b \<Rightarrow> zoom (\<lambda>s. (b, snd s)) (\<lambda>t s. ((fst s)\<lparr>de_bridge := Some (fst t)\<rparr>, snd t)) m)"

text \<open>The shared state, looked at: \<open>bridge.mutations_published\<close>, \<open>bridge_errors\<close> and \<open>is_alive()\<close>.\<close>

definition bridge_mutations_published :: "('d, 'c, 'h, 'w) bridge \<Rightarrow> nat" where
  "bridge_mutations_published b = bm_mutations_published (br_metrics b)"

definition look_published :: "('d, 'c, 'h, 'w, 'k) demo_calls \<Rightarrow> (('d, 'c, 'h, 'w) demo \<times> 'w, int) eff" where
  "look_published dc =
     thn (meanwhile dc) (on_demo_bridge (self_gets (\<lambda>b. int (bridge_mutations_published b))))"

definition look_errors :: "('d, 'c, 'h, 'w, 'k) demo_calls \<Rightarrow> (('d, 'c, 'h, 'w) demo \<times> 'w, exn list) eff" where
  "look_errors dc = thn (meanwhile dc) (self_gets de_errors)"

definition look_alive :: "('d, 'c, 'h, 'w, 'k) demo_calls \<Rightarrow> (('d, 'c, 'h, 'w) demo \<times> 'w, bool) eff" where
  "look_alive dc = thn (meanwhile dc) (self_gets (\<lambda>d. de_thread d \<and> de_alive d))"

section \<open>The steps\<close>

text \<open>The body of the thread: the list of the exceptions \<open>run\<close> leaves.\<close>

definition run_bridge ::
  "('d, 'c, 'h, 'w) environment \<Rightarrow> nat \<Rightarrow> (('d, 'c, 'h, 'w) bridge \<times> 'w, exn list) eff" where
  "run_bridge env fuel = catch (thn (run env fuel) (ret [])) (\<lambda>exc. exc \<noteq> Diverges) (\<lambda>exc. ret [exc])"

text \<open>\<open>_write_samples\<close> on the database: every chunk is built and committed before the next one.\<close>

function commit_samples ::
  "('d, 'c, 'h, 'w, 'k) demo_calls \<Rightarrow> 'd \<Rightarrow> bytes \<Rightarrow> nat \<Rightarrow> nat \<Rightarrow> ('w, unit) eff" where
  "commit_samples dc db key_prefix start_idx cnt =
     (if start_idx < cnt then
        bnd (liftE (commit_chunk key_prefix start_idx (min batch_size (cnt - start_idx)))) (\<lambda>chunk.
        thn (dc_commit dc db chunk) (commit_samples dc db key_prefix (start_idx + batch_size) cnt))
      else ret ())"
  by pat_completeness auto
termination
  by (relation "measure (\<lambda>(_, _, _, start_idx, cnt). cnt - start_idx)") (auto simp: batch_size_def)

declare commit_samples.simps [simp del]

definition launch ::
  "('d, 'c, 'h, 'w, 'k) demo_calls \<Rightarrow> pystr \<Rightarrow> pystr \<Rightarrow> (('d, 'c, 'h, 'w) demo \<times> 'w, unit) eff" where
  "launch dc run_id bootstrap_servers =
     bnd (liftE (strinc (run_prefix run_id))) (\<lambda>end_key.
     bnd (liftE (from_dict (run_settings run_id end_key bootstrap_servers))) (\<lambda>bridge_cfg.
     bnd (liftE (new_bridge (en_rdkafka (dc_env dc)) bridge_cfg None None False None None)) (\<lambda>bridge.
     thn (self_modify (\<lambda>d. d\<lparr>de_bridge := Some bridge\<rparr>))
     (thn (on_demo_bridge (bridge_start (dc_env dc)))
     (thn (self_modify (\<lambda>d. d\<lparr>de_thread := True\<rparr>))
     (thn (outside (dc_thread_start dc))
     (thn (self_modify (\<lambda>d. d\<lparr>de_alive := True\<rparr>))
          (outside (nt_sleep (en_natives (dc_env dc)) (Finite 1))))))))))"

fun await_published ::
  "('d, 'c, 'h, 'w, 'k) demo_calls \<Rightarrow> int \<Rightarrow> pyfloat \<Rightarrow> nat \<Rightarrow> (('d, 'c, 'h, 'w) demo \<times> 'w, unit) eff" where
  "await_published dc cnt deadline 0 = raise Diverges"
| "await_published dc cnt deadline (Suc fuel) =
     bnd (look_published dc) (\<lambda>pub.
     if \<not> pub < cnt then ret ()
     else
       bnd (look_errors dc) (\<lambda>errors.
       if errors \<noteq> [] then raise (RuntimeError ''Bridge daemon failed'')
       else
         bnd (outside (nt_monotonic (en_natives (dc_env dc)))) (\<lambda>now.
         if py_le deadline (Finite now) then raise TimeoutError
         else
           thn (outside (nt_sleep (en_natives (dc_env dc)) (Finite (1 / 5))))
               (await_published dc cnt deadline fuel))))"

definition finish_daemon :: "('d, 'c, 'h, 'w, 'k) demo_calls \<Rightarrow> (('d, 'c, 'h, 'w) demo \<times> 'w, unit) eff" where
  "finish_daemon dc =
     thn (on_demo_bridge request_shutdown)
     (thn (outside (dc_join dc (Finite 10)))
     (bnd (look_alive dc) (\<lambda>alive.
      if alive then raise TimeoutError
      else
        bnd (look_errors dc) (\<lambda>errors.
        if errors \<noteq> [] then raise (RuntimeError ''Bridge daemon failed'') else ret ()))))"

section \<open>The report\<close>

definition MUTATION_TYPE_NAMES :: "(int \<times> string) list" where
  "MUTATION_TYPE_NAMES =
     [(0, ''SET_VALUE''), (1, ''CLEAR_RANGE''), (2, ''ADD (Atomic Int64)''), (6, ''AND (Atomic Bitwise)''),
      (7, ''OR (Atomic Bitwise)''), (8, ''XOR (Atomic Bitwise)''), (9, ''APPEND_IF_FITS (Atomic)''),
      (12, ''MAX (Atomic Int64)''), (13, ''MIN (Atomic Int64)''), (14, ''SET_VERSIONSTAMPED_KEY''),
      (15, ''SET_VERSIONSTAMPED_VALUE''), (16, ''BYTE_MIN (Atomic)''), (17, ''BYTE_MAX (Atomic)''),
      (18, ''MIN_V2 (Atomic)''), (19, ''AND_V2 (Atomic Bitwise)''), (20, ''COMPARE_AND_CLEAR (Atomic)'')]"

text \<open>A code without a name is printed as \<open>TYPE_\<close> and its number; here it has no label.\<close>

definition type_lines :: "(int \<times> nat) list \<Rightarrow> (string option \<times> int \<times> nat) list" where
  "type_lines type_counts =
     map (\<lambda>(code, n). (map_of MUTATION_TYPE_NAMES code, code, n)) (sort_key fst type_counts)"

record demo_report =
  rp_prefix :: bytes
  rp_consumed :: "pb_record list"
  rp_version_ends :: nat
  rp_types :: "(string option \<times> int \<times> nat) list"
  rp_metrics :: metrics

definition verify_run ::
  "('d, 'c, 'h, 'w, 'k) demo_calls \<Rightarrow> pystr \<Rightarrow> pystr \<Rightarrow> pyfloat \<Rightarrow> int \<Rightarrow> nat \<Rightarrow>
     (('d, 'c, 'h, 'w) demo \<times> 'w, demo_report) eff" where
  "verify_run dc run_id bootstrap_servers timeout cnt fuel =
     bnd (look_published dc) (\<lambda>published.
     bnd (outside (consume_records (en_pb (dc_env dc)) (dc_consumer dc bootstrap_servers (run_topic run_id))
            published timeout fuel)) (\<lambda>consumed.
     bnd (look_published dc) (\<lambda>published.
     if published \<noteq> cnt then raise AssertionError
     else
       bnd (liftE (verify_workload consumed (run_prefix run_id) cnt)) (\<lambda>type_counts.
       bnd (on_demo_bridge (self_gets br_metrics)) (\<lambda>metrics.
       thn (on_demo_bridge (stop (dc_env dc)))
           (ret \<lparr>rp_prefix = run_prefix run_id, rp_consumed = consumed,
              rp_version_ends = length (ends_of consumed),
              rp_types = type_lines type_counts, rp_metrics = metrics\<rparr>))))))"

section \<open>The run\<close>

definition demo_body ::
  "('d, 'c, 'h, 'w, 'k) demo_calls \<Rightarrow> 'd \<Rightarrow> pystr \<Rightarrow> pystr \<Rightarrow> pyfloat \<Rightarrow> int \<Rightarrow> nat \<Rightarrow>
     (('d, 'c, 'h, 'w) demo \<times> 'w, demo_report) eff" where
  "demo_body dc db run_id bootstrap_servers timeout cnt fuel =
     thn (outside (for_each (dc_commit dc db) (seed_clear_targets (run_prefix run_id) cnt)))
     (thn (launch dc run_id bootstrap_servers)
     (bnd (outside (nt_monotonic (en_natives (dc_env dc)))) (\<lambda>stream_start.
      thn (outside (commit_samples dc db (run_prefix run_id) 0 (nat cnt)))
      (thn (await_published dc cnt (py_plus stream_start timeout) fuel)
      (thn (finish_daemon dc)
           (verify_run dc run_id bootstrap_servers timeout cnt fuel))))))"

definition demo_cleanup ::
  "('d, 'c, 'h, 'w, 'k) demo_calls \<Rightarrow> 'd \<Rightarrow> pystr \<Rightarrow> (('d, 'c, 'h, 'w) demo \<times> 'w, unit) eff" where
  "demo_cleanup dc db run_id =
     bnd (self_gets de_bridge) (\<lambda>b.
     thn (if b \<noteq> None then on_demo_bridge request_shutdown else ret ())
     (thn (bnd (look_alive dc) (\<lambda>alive. if alive then outside (dc_join dc (Finite 10)) else ret ()))
     (thn (bnd (look_alive dc) (\<lambda>alive.
           zoom (\<lambda>s. (de_bridge (fst s), snd s)) (\<lambda>t s. ((fst s)\<lparr>de_bridge := fst t\<rparr>, snd t))
             (stop_bridge (dc_env dc) alive)))
     (thn (ignoring (bnd (liftE (strinc (run_prefix run_id))) (\<lambda>end_key.
           outside (dc_clear dc db (run_prefix run_id) end_key))))
     (thn (ignoring (on_demo_client (remove_cdc_stream (en_natives (dc_env dc)) (PStr (run_stream run_id)))))
     (thn (on_demo_client client_close)
          (catch (outside (dc_unlink dc (run_cursor_file run_id))) is_OSError (\<lambda>_. ret ()))))))))"

text \<open>The \<open>try\<close> statement of \<open>run_demo\<close>, and all of it.\<close>

definition demo_session ::
  "('d, 'c, 'h, 'w, 'k) demo_calls \<Rightarrow> 'd \<Rightarrow> pystr \<Rightarrow> pystr \<Rightarrow> pyfloat \<Rightarrow> int \<Rightarrow> nat \<Rightarrow>
     (('d, 'c, 'h, 'w) demo \<times> 'w, demo_report) eff" where
  "demo_session dc db run_id bootstrap_servers timeout cnt fuel =
     finally_do (demo_body dc db run_id bootstrap_servers timeout cnt fuel) (demo_cleanup dc db run_id)"

definition run_demo ::
  "('d, 'c, 'h, 'w, 'k) demo_calls \<Rightarrow> pystr \<Rightarrow> pyfloat \<Rightarrow> int \<Rightarrow> nat \<Rightarrow>
     (('d, 'c, 'h, 'w) demo \<times> 'w, demo_report) eff" where
  "run_demo dc bootstrap_servers timeout cnt fuel =
     thn (self_modify (\<lambda>_. fresh_demo))
     (bnd (outside (dc_uuid dc)) (\<lambda>uuid.
      let run_id = take 10 (to_hex uuid) in
      bnd (on_demo_client (client_open (en_natives (dc_env dc)))) (\<lambda>db.
      thn (on_demo_client (get_read_version (en_natives (dc_env dc))))
          (demo_session dc db run_id bootstrap_servers timeout cnt fuel))))"

end
