(* ===== verification/Demo_Delivery.thy ===== *)
theory Demo_Delivery
  imports Demo Workload_Spec Cdc_Delivery
begin

text \<open>
  The demonstration from its writes to its verdict. FoundationDB's part, what native CDC emits for an operation,
  is a parameter with the documented rewrites as its laws (\<open>cdc_emission\<close>); the bridge's part is
  \<open>records_of_reply\<close>, the modelled serializers.
\<close>

section \<open>What is written\<close>

lemma write_from_all:
  "write_from p start n = Inr txs \<Longrightarrow>
     mapE (write_operation p) [start..<n] = Inr (concat txs) \<and>
     (\<forall>tx \<in> set txs. tx \<noteq> [] \<and> length tx \<le> batch_size)"
proof (induction p start n arbitrary: txs rule: write_from.induct)
  case (1 p start n)
  show ?case
  proof (cases "start < n")
    case True
    let ?size = "min batch_size (n - start)"
    obtain chunk rest where parts: "commit_chunk p start ?size = Inr chunk"
      "write_from p (start + batch_size) n = Inr rest" "txs = chunk # rest"
      using 1(2) True by (subst (asm) write_from.simps) (auto simp: result_simps)
    have "mapE (write_operation p) [start + batch_size..<n] = Inr (concat rest)"
      "\<forall>tx \<in> set rest. tx \<noteq> [] \<and> length tx \<le> batch_size"
      using 1(1) [OF True parts(2)] by auto
    moreover have "mapE (write_operation p) [start..<start + ?size] = Inr chunk"
      using parts(1) by (simp add: commit_chunk_def)
    moreover have "[start..<n] = [start..<start + ?size] @ [start + batch_size..<n]"
    proof (cases "start + batch_size \<le> n")
      case True
      then show ?thesis
        using upt_add_eq_append [of start "start + batch_size" "n - (start + batch_size)"] by simp
    qed (use True in simp)
    moreover have "length chunk = ?size" "0 < ?size"
      using mapE_length [OF parts(1) [unfolded commit_chunk_def]] True by (simp_all add: batch_size_def)
    ultimately show ?thesis
      using parts(3) by (auto simp: mapE_append)
  next
    case False
    with 1(2) show ?thesis
      by (subst (asm) write_from.simps) simp
  qed
qed

section \<open>What native CDC emits\<close>

text \<open>
  \<open>emission stamp op\<close> is the native mutation for \<open>op\<close> in a transaction whose versionstamp is \<open>stamp\<close>: the legacy
  \<open>AND\<close> and \<open>MIN\<close> arrive as their second versions, and a versionstamped operation arrives as a \<open>SET_VALUE\<close> with
  the stamp in place of the ten bytes at the offset given by the four-byte suffix, which is dropped.
\<close>

locale cdc_emission =
  fixes emission :: "bytes \<Rightarrow> operation \<Rightarrow> int \<times> bytes \<times> bytes"
  assumes emit_plain: "emission stamp (SetKey k v) = (0, k, v)" "emission stamp (ClearRange b e) = (1, b, e)"
      "emission stamp (Add k v) = (2, k, v)" "emission stamp (BitOr k v) = (7, k, v)" "emission stamp (BitXor k v) = (8, k, v)"
      "emission stamp (AppendIfFits k v) = (9, k, v)" "emission stamp (MaxOp k v) = (12, k, v)"
      "emission stamp (ByteMin k v) = (16, k, v)" "emission stamp (ByteMax k v) = (17, k, v)"
    and emit_legacy: "emission stamp (BitAnd k v) = (19, k, v)" "emission stamp (MinOp k v) = (18, k, v)"
    and emit_stamped:
      "pack_u32 (length before) = Inr packed \<Longrightarrow> length blank_bytes = VERSIONSTAMP_LEN \<Longrightarrow>
         emission stamp (SetVersionstampedKey (before @ blank_bytes @ packed) v) = (0, before @ stamp, v)"
      "pack_u32 (length before) = Inr packed \<Longrightarrow> length blank_bytes = VERSIONSTAMP_LEN \<Longrightarrow>
         emission stamp (SetVersionstampedValue k (before @ blank_bytes @ packed)) = (0, k, before @ stamp)"
begin

lemma emitted_matches:
  assumes "write_operation p i = Inr op" "length stamp = VERSIONSTAMP_LEN"
  shows "case emission stamp op of (c, p1, p2) \<Rightarrow> matches (expected_mutation p i) c p1 p2"
proof -
  have len: "replicate 10 0 = replicate VERSIONSTAMP_LEN (0 :: byte)"
    by (simp add: VERSIONSTAMP_LEN_def)
  consider (key) "i mod 14 = 9" | (val) "i mod 14 = 10" | (plain) "i mod 14 \<noteq> 9" "i mod 14 \<noteq> 10"
    by blast
  then show ?thesis
  proof cases
    case key
    let ?key = "p @ octets ''vsk_'' @ index_bytes i"
    obtain packed where op: "pack_u32 (length ?key) = Inr packed"
      "op = SetVersionstampedKey (?key @ replicate VERSIONSTAMP_LEN 0 @ packed) (octets ''vsk_payload'')"
      using assms(1) key by (auto simp: write_operation_def Let_def result_simps len)
    show ?thesis
      using emit_stamped(1) [OF op(1), of "replicate VERSIONSTAMP_LEN 0"] assms(2) key
      unfolding op(2) by (simp add: matches_def expected_mutation_def SET_VALUE_def Let_def)
  next
    case val
    let ?val = "octets ''vsv_'' @ index_bytes i"
    obtain packed where op: "pack_u32 (length ?val) = Inr packed"
      "op = SetVersionstampedValue (p @ octets ''vsv_'' @ index_bytes i) (?val @ replicate VERSIONSTAMP_LEN 0 @ packed)"
      using assms(1) val by (auto simp: write_operation_def Let_def result_simps len)
    show ?thesis
      using emit_stamped(2) [OF op(1), of "replicate VERSIONSTAMP_LEN 0"] assms(2) val
      unfolding op(2) by (simp add: matches_def expected_mutation_def SET_VALUE_def Let_def)
  next
    case plain
    with kind_cases [of i] assms(1) show ?thesis
      by (elim insertE emptyE) (auto simp: write_operation_def expected_mutation_def operation_table_def matches_def
          emit_plain emit_legacy SET_VALUE_def CLEAR_RANGE_def Let_def)
  qed
qed

end

text \<open>An emission with these laws, which reads the offset back from the suffix.\<close>

definition unpack_u32 :: "bytes \<Rightarrow> nat" where
  "unpack_u32 bs = foldr (\<lambda>b n. unat b + 256 * n) bs 0"

definition splice :: "bytes \<Rightarrow> bytes \<Rightarrow> bytes" where
  "splice stamp param =
     (let body = take (length param - 4) param; offset = unpack_u32 (drop (length param - 4) param)
      in take offset body @ stamp @ drop (offset + VERSIONSTAMP_LEN) body)"

fun native_emission :: "bytes \<Rightarrow> operation \<Rightarrow> int \<times> bytes \<times> bytes" where
  "native_emission stamp (SetKey k v) = (0, k, v)"
| "native_emission stamp (ClearRange b e) = (1, b, e)"
| "native_emission stamp (Add k v) = (2, k, v)"
| "native_emission stamp (BitAnd k v) = (19, k, v)"
| "native_emission stamp (BitOr k v) = (7, k, v)"
| "native_emission stamp (BitXor k v) = (8, k, v)"
| "native_emission stamp (AppendIfFits k v) = (9, k, v)"
| "native_emission stamp (MaxOp k v) = (12, k, v)"
| "native_emission stamp (MinOp k v) = (18, k, v)"
| "native_emission stamp (SetVersionstampedKey k v) = (0, splice stamp k, v)"
| "native_emission stamp (SetVersionstampedValue k v) = (0, k, splice stamp v)"
| "native_emission stamp (ByteMin k v) = (16, k, v)"
| "native_emission stamp (ByteMax k v) = (17, k, v)"

lemma unpack_pack:
  assumes "pack_u32 n = Inr bs"
  shows "length bs = 4 \<and> unpack_u32 bs = n"
proof -
  let ?a = "n div 256" let ?b = "?a div 256" let ?c = "?b div 256"
  have n: "n < 2 ^ 32" and "bs = map (\<lambda>i. of_nat (n div 256 ^ i)) [0, 1, 2, 3]"
    using assms by (auto simp: pack_u32_def upt_conv_Cons split: if_splits)
  then have bs: "bs = [of_nat n, of_nat ?a, of_nat ?b, of_nat ?c]"
    by (simp add: div_mult2_eq [symmetric])
  have "?c < 256"
    using n by (simp add: div_mult2_eq [symmetric] less_mult_imp_div_less)
  then have "unpack_u32 bs = n mod 256 + 256 * (?a mod 256 + 256 * (?b mod 256 + 256 * ?c))"
    by (simp add: bs unpack_u32_def unat_of_nat)
  also have "?b mod 256 + 256 * ?c = ?b"
    by (rule mod_mult_div_eq)
  also have "?a mod 256 + 256 * ?b = ?a"
    by (rule mod_mult_div_eq)
  also have "n mod 256 + 256 * ?a = n"
    by (rule mod_mult_div_eq)
  finally show ?thesis
    by (simp add: bs)
qed

lemma splice_stamped:
  assumes "pack_u32 (length before) = Inr packed" "length blank_bytes = VERSIONSTAMP_LEN"
  shows "splice stamp (before @ blank_bytes @ packed) = before @ stamp"
  using unpack_pack [OF assms(1)] assms(2) by (simp add: splice_def)

interpretation native: cdc_emission native_emission
  by unfold_locales (simp_all add: splice_stamped)

section \<open>The records of a reply, as messages\<close>

lemma native_parts_message: "native_parts (mutation_message c p1 p2 v s) = (c, p1, p2)"
  by (simp add: native_parts_def mutation_message_def CLEAR_RANGE_def Let_def)

lemma coordinate_message: "vi_coordinate (mutation_message c p1 p2 v s) = (v, s)"
  by (simp add: vi_coordinate_def mutation_message_def Let_def)

lemma native_parts_messages: "map native_parts (mutation_messages v s ns) = ns"
  by (induction v s ns rule: mutation_messages.induct) (simp_all add: native_parts_message)

lemma coordinates_messages:
  "map vi_coordinate (mutation_messages v s ns) = map (\<lambda>i. (v, s + int i)) [0..<length ns]"
  by (rule nth_equalityI) (auto simp: nth_mutation_messages coordinate_message split: prod.split)

lemma mutations_of_append: "mutations_of (xs @ ys) = mutations_of xs @ mutations_of ys"
  by (simp add: mutations_of_def)

definition end_pairs :: "pb_record list \<Rightarrow> (int \<times> int) list" where
  "end_pairs records = map (\<lambda>e. (pve_fdb_version e, pve_total_mutations e)) (ends_of records)"

lemma end_pairs_append: "end_pairs (xs @ ys) = end_pairs xs @ end_pairs ys"
  by (simp add: end_pairs_def ends_of_def)

lemma version_end_parts:
  "mutations_of [version_end_message n t v k] = []" "end_pairs [version_end_message n t v k] = [(v, k)]"
  by (simp_all add: mutations_of_def end_pairs_def ends_of_def version_end_message_def)

context protobuf_runtime
begin

lemma parse_written: "wf_record r \<Longrightarrow> length (SerializeToString pb r) < 2 ^ 31 \<Longrightarrow>
    parse_record pb (SerializeToString pb r) = Inr r"
  by (simp add: parse_record_def parse_serialize)

lemma group_messages:
  assumes "serialize_version_group pb (Yields items None) (PInt v) (PInt mx) (PStr n) (PInt t) = Inr datas"
    and "list_all2 native_of items ns" "mx < 2 ^ 31"
  shows "\<exists>records. mapE (parse_record pb) datas = Inr records \<and>
    mutations_of records = mutation_messages v 0 ns \<and> end_pairs records = [(v, int (length ns))]"
proof -
  let ?ms = "mutation_messages v 0 ns"
  obtain natives done_slices start where
    ok: "valid_version v" "valid_envelope n t" "list_all2 native_of items natives"
      "int (length items) \<le> max_total_mutations"
    and loop: "slice_loop pb (length (wire_record pb n t None)) mx 0 [] 0 0 (mutation_messages v 0 natives) =
      Inr (done_slices, start)"
    and datas: "datas = map (\<lambda>(a, b). wire_record pb n t (Some (BatchArm (py_slice a b (mutation_messages v 0 natives)))))
      (all_slices (mutation_messages v 0 natives) done_slices start)
      @ [SerializeToString pb (version_end_message n t v (int (length items)))]"
    using assms(1) by (auto simp: serialize_version_group_Inr)
  have ns: "natives = ns" "length items = length ns"
    using native_lists_unique [OF ok(3) assms(2)] assms(2) by (simp_all add: list_all2_lengthD)
  define slices where "slices = all_slices ?ms done_slices start"
  define batch where "batch = (\<lambda>(a, b). record_message n t (Some (BatchArm (py_slice a b ?ms))))"
  have small: "length d < 2 ^ 31" if "d \<in> set datas" for d
    using group_record_fits [OF assms(1) that] assms(3) by simp
  have wf: "list_all wf_mutation ?ms"
    using ok ns by (intro wf_mutation_messages natives_codes)
      (auto simp: valid_version_def list_all2_lengthD limit_defs)
  have "wf_record (batch (a, b))" for a b
    using wf set_py_slice [of a b ?ms] ok(2) unfolding batch_def prod.case
    by (intro wf_record_message) (auto simp: valid_envelope_def list_all_iff)
  moreover have "SerializeToString pb (batch s) \<in> set datas" if "s \<in> set slices" for s
    using that datas by (auto simp: ns slices_def batch_def wire_record_def split: prod.splits)
  ultimately have "parse_record pb (SerializeToString pb (batch s)) = Inr (batch s)" if "s \<in> set slices" for s
    using that small by (cases s) (simp add: parse_written)
  moreover have "parse_record pb (SerializeToString pb (version_end_message n t v (int (length ns)))) =
      Inr (version_end_message n t v (int (length ns)))"
    using ok ns small datas by (intro parse_written wf_version_end_record) auto
  moreover have "datas = map (\<lambda>s. SerializeToString pb (batch s)) slices
      @ [SerializeToString pb (version_end_message n t v (int (length ns)))]"
    by (simp add: datas ns slices_def batch_def wire_record_def case_prod_unfold)
  ultimately have "mapE (parse_record pb) datas = Inr (map batch slices @ [version_end_message n t v (int (length ns))])"
    by (simp add: mapE_Inr_iff)
  moreover have "mutations_of (map batch slices) = concat (map (\<lambda>(a, b). py_slice a b ?ms) slices)"
    by (simp add: mutations_of_def batch_def record_message_def comp_def case_prod_unfold)
  moreover have "concat (map (\<lambda>(a, b). py_slice a b ?ms) slices) = ?ms"
    using concat_chain [OF slice_loop_Inr(1) [OF loop], of ?ms] py_slice_all [of ?ms] by (simp add: slices_def ns)
  moreover have "end_pairs (map batch slices) = []"
    by (simp add: end_pairs_def ends_of_def batch_def record_message_def case_prod_unfold)
  ultimately show ?thesis
    by (simp add: mutations_of_append end_pairs_append version_end_parts)
qed

lemma groups_messages:
  "group_records pb mx n t l0 groups = Inr (datas, l) \<Longrightarrow> list_all2 group_natives groups nss \<Longrightarrow> mx < 2 ^ 31 \<Longrightarrow>
     \<exists>records. mapE (parse_record pb) datas = Inr records \<and>
       mutations_of records = concat (map2 (\<lambda>g ns. mutation_messages (vg_version g) 0 ns) groups nss) \<and>
       end_pairs records = map2 (\<lambda>g ns. (vg_version g, int (length ns))) groups nss \<and> l = last_version l0 groups"
proof (induction groups arbitrary: l0 datas l nss)
  case Nil
  then show ?case
    by (simp add: mutations_of_def end_pairs_def ends_of_def last_version_def)
next
  case (Cons g groups)
  from Cons.prems obtain first rest ns nss' where
    parts: "serialize_version_group pb (vg_mutations g) (PInt (vg_version g)) (PInt mx) (PStr n) (PInt t) = Inr first"
    "group_records pb mx n t (vg_version g) groups = Inr (rest, l)" "datas = first @ rest"
    "nss = ns # nss'" "group_natives g ns" "list_all2 group_natives groups nss'"
    by (auto simp: result_simps list_all2_Cons1)
  then obtain items where items: "vg_mutations g = Yields items None" "list_all2 native_of items ns"
    by (auto simp: group_natives_def)
  obtain rs where "mapE (parse_record pb) first = Inr rs" "mutations_of rs = mutation_messages (vg_version g) 0 ns"
    "end_pairs rs = [(vg_version g, int (length ns))]"
    using group_messages [OF parts(1) [unfolded items(1)] items(2) Cons.prems(3)] by blast
  moreover obtain rs' where "mapE (parse_record pb) rest = Inr rs'"
    "mutations_of rs' = concat (map2 (\<lambda>g ns. mutation_messages (vg_version g) 0 ns) groups nss')"
    "end_pairs rs' = map2 (\<lambda>g ns. (vg_version g, int (length ns))) groups nss'" "l = last_version (vg_version g) groups"
    using Cons.IH [OF parts(2,6) Cons.prems(3)] by blast
  ultimately show ?case
    by (intro exI [of _ "rs @ rs'"])
      (simp add: parts mapE_append mutations_of_append end_pairs_append last_version_def)
qed

end

text \<open>The groups of a reply, and the watermark it reports beyond them.\<close>

definition reply_groups :: "native_reply \<Rightarrow> version_group list" where
  "reply_groups batch = (case nr_mutations batch of None \<Rightarrow> [] | Some groups \<Rightarrow> groups)"

definition reply_watermark :: "native_reply \<Rightarrow> int list" where
  "reply_watermark batch =
     (let w = (case nr_last_consumed_version batch of None \<Rightarrow> -1 | Some w \<Rightarrow> w)
      in if 0 \<le> w \<and> last_version (-1) (reply_groups batch) < w then [w] else [])"

definition reported_versions :: "native_reply \<Rightarrow> int list" where
  "reported_versions batch = map vg_version (reply_groups batch) @ reply_watermark batch"

lemma reply_messages:
  assumes "protobuf_runtime pb" "records_of_reply pb mx n t batch = Inr records" "mx < 2 ^ 31"
    and "list_all2 group_natives (reply_groups batch) nss"
  shows "mutations_of records = concat (map2 (\<lambda>g ns. mutation_messages (vg_version g) 0 ns) (reply_groups batch) nss) \<and>
    end_pairs records = map2 (\<lambda>g ns. (vg_version g, int (length ns))) (reply_groups batch) nss
      @ map (\<lambda>w. (w, 0)) (reply_watermark batch)"
proof -
  define w where "w = (case nr_last_consumed_version batch of None \<Rightarrow> -1 | Some w \<Rightarrow> w)"
  obtain datas l marks where run: "group_records pb mx n t (-1) (reply_groups batch) = Inr (datas, l)"
    "watermark_records pb mx n t l w = Inr marks" "mapE (parse_record pb) (datas @ marks) = Inr records"
    using assms(2) by (auto simp: records_of_reply_eq result_simps w_def reply_groups_def)
  obtain rs where rs: "mapE (parse_record pb) datas = Inr rs"
    "mutations_of rs = concat (map2 (\<lambda>g ns. mutation_messages (vg_version g) 0 ns) (reply_groups batch) nss)"
    "end_pairs rs = map2 (\<lambda>g ns. (vg_version g, int (length ns))) (reply_groups batch) nss"
    "l = last_version (-1) (reply_groups batch)"
    using protobuf_runtime.groups_messages [OF assms(1) run(1) assms(4,3)] by blast
  have "\<exists>ms. mapE (parse_record pb) marks = Inr ms \<and> mutations_of ms = [] \<and>
      end_pairs ms = map (\<lambda>w. (w, 0)) (reply_watermark batch)"
  proof (cases "0 \<le> w \<and> l < w")
    case True
    then obtain d where d: "serialize_version_end pb (PInt w) (PInt 0) (PStr n) (PInt t) = Inr d"
      "int (length d) \<le> mx" "marks = [d]"
      using run(2) by (auto simp: watermark_records_def result_simps split: if_splits)
    then have "valid_version w" "valid_envelope n t" "d = SerializeToString pb (version_end_message n t w 0)"
      by (auto simp: serialize_version_end_Inr)
    then have "parse_record pb d = Inr (version_end_message n t w 0)"
      using d(2) assms(3) protobuf_runtime.parse_written [OF assms(1) wf_version_end_record [of n t w 0]]
      by (simp add: limit_defs)
    then show ?thesis
      using True d(3) rs(4) w_def by (simp add: version_end_parts reply_watermark_def Let_def)
  next
    case False
    then show ?thesis
      using run(2) rs(4) w_def
      by (auto simp: watermark_records_def reply_watermark_def Let_def mutations_of_def end_pairs_def ends_of_def)
  qed
  with run(3) rs show ?thesis
    by (auto simp: mapE_append mutations_of_append end_pairs_append)
qed

section \<open>Groups of the workload's mutations verify\<close>

definition group_mutations :: "(int \<times> (int \<times> bytes \<times> bytes) list) list \<Rightarrow> pb_mutation list" where
  "group_mutations gs = concat (map (\<lambda>(v, ns). mutation_messages v 0 ns) gs)"

lemma group_mutations_simps:
  "group_mutations [] = []"
  "group_mutations (g # gs) = mutation_messages (fst g) 0 (snd g) @ group_mutations gs"
  by (simp_all add: group_mutations_def case_prod_unfold)

lemma group_natives_parts: "map native_parts (group_mutations gs) = concat (map snd gs)"
  by (induction gs) (auto simp: group_mutations_def native_parts_messages)

lemma group_coordinates: "vi_coordinate ` set (group_mutations gs) = {(v, int i) |v ns i. (v, ns) \<in> set gs \<and> i < length ns}"
proof -
  have one: "vi_coordinate ` set (mutation_messages v 0 ns) = {(v, int i) |i. i < length ns}" for v ns
    using arg_cong [OF coordinates_messages [of v 0 ns], of set] by auto
  show ?thesis
    by (induction gs) (auto simp: group_mutations_simps image_Un one)
qed

lemma group_coordinates_distinct: "distinct (map fst gs) \<Longrightarrow> distinct (map vi_coordinate (group_mutations gs))"
proof (induction gs)
  case (Cons g gs)
  obtain v ns where g: "g = (v, ns)"
    by fastforce
  have "distinct (map vi_coordinate (mutation_messages v 0 ns))"
    unfolding coordinates_messages by (simp add: distinct_map inj_on_def)
  moreover have "vi_coordinate ` set (mutation_messages v 0 ns) \<inter> vi_coordinate ` set (group_mutations gs) = {}"
    using Cons.prems arg_cong [OF coordinates_messages [of v 0 ns], of set]
    by (force simp: g group_coordinates)
  ultimately show ?case
    using Cons by (simp add: g group_mutations_def)
qed (simp add: group_mutations_def)

lemma group_indices:
  assumes "list_all2 (\<lambda>i (c, p1, p2). matches (expected_mutation p i) c p1 p2) ids (concat (map snd gs))"
    and "\<forall>i \<in> set ids. i < 10 ^ 8"
  shows "map (index_of p) (group_mutations gs) = map Some ids \<and> list_all (genuine p) (group_mutations gs)"
proof -
  have "list_all2 (\<lambda>i m. genuine p m \<and> index_of p m = Some i) ids (group_mutations gs)"
    using assms(1) unfolding group_natives_parts [symmetric] list.rel_map
    by (rule list.rel_mono_strong) (use assms(2) matches_genuine in \<open>auto simp: case_prod_unfold\<close>)
  then show ?thesis
    by (auto simp: list_all2_conv_all_nth list_all_length intro!: nth_equalityI)
qed

lemma groups_exact:
  assumes "mset (mutations_of records) = mset (group_mutations gs)"
    and "mset (end_pairs records) = mset (map (\<lambda>(v, ns). (v, int (length ns))) gs @ map (\<lambda>w. (w, 0)) ws)"
    and "distinct (map fst gs @ ws)" "mset ids = mset [0..<cnt]" "cnt \<le> 10 ^ 8"
    and "list_all2 (\<lambda>i (c, p1, p2). matches (expected_mutation p i) c p1 p2) ids (concat (map snd gs))"
  shows "exact_delivery p (int cnt) records"
proof -
  let ?ms = "mutations_of records" and ?es = "ends_of records"
  have "set ids = {0..<cnt}"
    using mset_eq_setD [OF assms(4)] by simp
  then have idx: "map (index_of p) (group_mutations gs) = map Some ids" "list_all (genuine p) (group_mutations gs)"
    using group_indices [OF assms(6)] assms(5) by auto
  have ms: "set ?ms = set (group_mutations gs)"
    using assms(1) by (rule mset_eq_setD)
  have indices: "mset (map (index_of p) ?ms) = mset (map Some [0..<cnt])"
    using assms(1,4) idx(1) by (metis mset_map)
  have gen: "list_all (genuine p) ?ms"
    using idx(2) ms by (simp add: list_all_iff)
  have coords: "distinct (map vi_coordinate ?ms)"
    using group_coordinates_distinct [of gs] assms(1,3) by (metis distinct_append map_append mset_eq_imp_distinct_iff mset_map)
  have fsts: "map pve_fdb_version ?es = map fst (end_pairs records)"
    by (simp add: end_pairs_def)
  have "map fst (map (\<lambda>(v, ns). (v, int (length ns))) gs @ map (\<lambda>w. (w, 0)) ws) = map fst gs @ ws"
    by (simp add: comp_def case_prod_unfold)
  moreover have "mset (map fst (end_pairs records)) =
      mset (map fst (map (\<lambda>(v, ns). (v, int (length ns))) gs @ map (\<lambda>w. (w, 0)) ws))"
    using arg_cong [OF assms(2), of "image_mset fst"] by (simp only: mset_map)
  ultimately have versions: "mset (map fst (end_pairs records)) = mset (map fst gs @ ws)"
    by (simp only:)
  have ends: "distinct (map pve_fdb_version ?es)"
    unfolding fsts mset_eq_imp_distinct_iff [OF versions] by (rule assms(3))
  have covered: "fst (vi_coordinate m) \<in> pve_fdb_version ` set ?es" if "m \<in> set ?ms" for m
  proof -
    have "vi_coordinate m \<in> vi_coordinate ` set (group_mutations gs)"
      using that ms by simp
    then have "fst (vi_coordinate m) \<in> fst ` set gs"
      unfolding group_coordinates by force
    moreover have "pve_fdb_version ` set ?es = fst ` set gs \<union> set ws"
      using arg_cong [OF fsts, of set] mset_eq_setD [OF versions] by simp
    ultimately show ?thesis
      by simp
  qed
  have seqs: "version_seqs ?ms v = {0..<k}" if "(v, k) \<in> set (end_pairs records)" for v k
  proof -
    have seqs: "version_seqs ?ms v = {int i |ns i. (v, ns) \<in> set gs \<and> i < length ns}"
      unfolding version_seqs_def ms group_coordinates by auto
    have "(v, k) \<in> (\<lambda>(v, ns). (v, int (length ns))) ` set gs \<union> (\<lambda>w. (w, 0)) ` set ws"
      using that mset_eq_setD [OF assms(2)] by simp
    then consider ns where "(v, ns) \<in> set gs" "k = int (length ns)" | "v \<in> set ws" "k = 0"
      by auto
    then show ?thesis
    proof cases
      case 1
      have "(v, ns') \<in> set gs \<longleftrightarrow> ns' = ns" for ns'
        using 1(1) assms(3) eq_key_imp_eq_value [of gs v ns ns'] by auto
      then have "version_seqs ?ms v = int ` {0..<length ns}"
        unfolding seqs by auto
      also have "\<dots> = {0..<k}"
        unfolding 1(2) by (simp add: image_int_atLeastLessThan)
      finally show ?thesis .
    next
      case 2
      then have "(v, ns) \<notin> set gs" for ns
        using assms(3) by (auto dest: in_set_zipE image_eqI [where f = fst])
      then show ?thesis
        unfolding seqs 2(2) by simp
    qed
  qed
  show ?thesis
    using indices gen coords ends covered seqs
    by (auto simp: exact_delivery_def end_pairs_def Let_def)
qed

section \<open>Replies\<close>

lemma mset_concat_map: "mset xs = mset ys \<Longrightarrow> mset (concat (map f xs)) = mset (concat (map f ys))"
  unfolding mset_concat sum_mset_sum_list [symmetric] by (metis mset_map)

lemma replies_messages:
  assumes "protobuf_runtime pb" "mx < 2 ^ 31"
  shows "list_all2 (\<lambda>(t, batch) rs. records_of_reply pb mx n t batch = Inr rs) replies rss \<Longrightarrow>
    list_all2 (\<lambda>(t, batch) nss. list_all2 group_natives (reply_groups batch) nss) replies nsss \<Longrightarrow>
    \<exists>gs ws. mutations_of (concat rss) = group_mutations gs \<and>
      mset (end_pairs (concat rss)) = mset (map (\<lambda>(v, ns). (v, int (length ns))) gs @ map (\<lambda>w. (w, 0)) ws) \<and>
      mset (concat (map (\<lambda>(t, batch). reported_versions batch) replies)) = mset (map fst gs @ ws) \<and>
      concat (map snd gs) = concat (concat nsss)"
proof (induction replies arbitrary: rss nsss)
  case Nil
  then show ?case
    by (intro exI [of _ "[]"]) (simp add: mutations_of_def end_pairs_def ends_of_def group_mutations_simps)
next
  case (Cons reply replies)
  obtain t batch rs rss' nss nsss' where parts: "reply = (t, batch)" "rss = rs # rss'" "nsss = nss # nsss'"
    "records_of_reply pb mx n t batch = Inr rs" "list_all2 group_natives (reply_groups batch) nss"
    "list_all2 (\<lambda>(t, batch) rs. records_of_reply pb mx n t batch = Inr rs) replies rss'"
    "list_all2 (\<lambda>(t, batch) nss. list_all2 group_natives (reply_groups batch) nss) replies nsss'"
    using Cons.prems by (cases reply) (auto simp: list_all2_Cons1)
  let ?gs = "zip (map vg_version (reply_groups batch)) nss" and ?ws = "reply_watermark batch"
  obtain gs ws where rest: "mutations_of (concat rss') = group_mutations gs"
    "mset (end_pairs (concat rss')) = mset (map (\<lambda>(v, ns). (v, int (length ns))) gs @ map (\<lambda>w. (w, 0)) ws)"
    "mset (concat (map (\<lambda>(t, batch). reported_versions batch) replies)) = mset (map fst gs @ ws)"
    "concat (map snd gs) = concat (concat nsss')"
    using Cons.IH [OF parts(6,7)] by blast
  have len: "length (reply_groups batch) = length nss"
    using parts(5) by (rule list_all2_lengthD)
  have "mutations_of rs = group_mutations ?gs"
    and ends: "end_pairs rs = map (\<lambda>(v, ns). (v, int (length ns))) ?gs @ map (\<lambda>w. (w, 0)) ?ws"
    using reply_messages [OF assms(1) parts(4) assms(2) parts(5)]
    by (simp_all add: group_mutations_def zip_map1 comp_def case_prod_unfold)
  then show ?case
    using rest len
    by (intro exI [of _ "?gs @ gs"] exI [of _ "?ws @ ws"])
      (simp add: parts(1-3) mutations_of_append end_pairs_append group_mutations_def reported_versions_def)
qed

lemma list_all2_reordered:
  "list_all2 R xs ys \<Longrightarrow> mset zs = mset ys \<Longrightarrow> \<exists>us. list_all2 R us zs \<and> mset us = mset xs"
proof (induction zs arbitrary: xs ys)
  case (Cons z zs)
  obtain ys1 ys2 where ys: "ys = ys1 @ z # ys2"
    using Cons.prems(2) split_list [of z ys] by (metis list.set_intros(1) mset_eq_setD)
  then obtain xs1 x xs2 where xs: "xs = xs1 @ x # xs2" "list_all2 R xs1 ys1" "list_all2 R xs2 ys2" "R x z"
    using Cons.prems(1) by (auto simp: list_all2_append2 list_all2_Cons2)
  obtain us where "list_all2 R us zs" "mset us = mset (xs1 @ xs2)"
    using Cons.IH [OF list_all2_appendI [OF xs(2,3)]] Cons.prems(2) ys by auto
  then show ?case
    using xs(1,4) by (intro exI [of _ "x # us"]) simp
qed simp

lemma replies_verify:
  assumes "protobuf_runtime pb" "mx < 2 ^ 31" "cnt \<le> 10 ^ 8"
    and "list_all2 (\<lambda>(t, batch) rs. records_of_reply pb mx n t batch = Inr rs) replies rss"
    and "list_all2 (\<lambda>(t, batch) nss. list_all2 group_natives (reply_groups batch) nss) replies nsss"
    and "distinct (concat (map (\<lambda>(t, batch). reported_versions batch) replies))"
    and "list_all2 (\<lambda>i (c, p1, p2). matches (expected_mutation p i) c p1 p2) [0..<cnt] natives"
    and "mset (concat (concat nsss)) = mset natives" "mset records = mset (concat rss)"
  shows "\<exists>counts. verify_workload records p (int cnt) = Inr counts"
proof -
  obtain gs ws where rest: "mutations_of (concat rss) = group_mutations gs"
    "mset (end_pairs (concat rss)) = mset (map (\<lambda>(v, ns). (v, int (length ns))) gs @ map (\<lambda>w. (w, 0)) ws)"
    "mset (concat (map (\<lambda>(t, batch). reported_versions batch) replies)) = mset (map fst gs @ ws)"
    "concat (map snd gs) = concat (concat nsss)"
    using replies_messages [OF assms(1,2,4,5)] by blast
  have ms: "mset (mutations_of records) = mset (group_mutations gs)"
    unfolding rest(1) [symmetric] mutations_of_def using assms(9) by (rule mset_concat_map)
  have "mset (ends_of records) = mset (ends_of (concat rss))"
    unfolding ends_of_def using assms(9) by (rule mset_concat_map)
  then have ends: "mset (end_pairs records) = mset (map (\<lambda>(v, ns). (v, int (length ns))) gs @ map (\<lambda>w. (w, 0)) ws)"
    using rest(2) unfolding end_pairs_def by (metis mset_map)
  have versions: "distinct (map fst gs @ ws)"
    using assms(6) unfolding mset_eq_imp_distinct_iff [OF rest(3)] .
  have "mset (concat (map snd gs)) = mset natives"
    unfolding rest(4) by (rule assms(8))
  from list_all2_reordered [OF assms(7) this] obtain ids where
    "list_all2 (\<lambda>i (c, p1, p2). matches (expected_mutation p i) c p1 p2) ids (concat (map snd gs))"
    "mset ids = mset [0..<cnt]"
    by blast
  from groups_exact [OF ms ends versions this(2) assms(3) this(1)]
  have "exact_delivery p (int cnt) records" .
  moreover have "0 \<le> pve_total_mutations e" if "e \<in> set (ends_of records)" for e
  proof -
    have "(pve_fdb_version e, pve_total_mutations e) \<in> set (end_pairs records)"
      using that by (simp add: end_pairs_def)
    then show ?thesis
      unfolding mset_eq_setD [OF ends] by auto
  qed
  ultimately show ?thesis
    using verify_exact [of records p "int cnt"] by auto
qed

section \<open>The size of a workload\<close>

text \<open>
  Only eight digits of a key are read, so an index from \<open>10 ^ 8\<close> on is never recognised, and no workload with
  more operations passes.
\<close>

lemma exact_delivery_limit:
  assumes "exact_delivery p n records"
  shows "n \<le> 10 ^ 8"
proof (rule ccontr)
  assume "\<not> n \<le> 10 ^ 8"
  then have "10 ^ 8 \<in> set [0..<nat n]"
    by simp
  moreover have "set (map (index_of p) (mutations_of records)) = set (map Some [0..<nat n])"
    using assms by (intro mset_eq_setD) (simp add: exact_delivery_def Let_def)
  ultimately have "Some (10 ^ 8) \<in> set (map (index_of p) (mutations_of records))"
    by simp
  then obtain m where "index_of p m = Some (10 ^ 8)"
    by (metis (no_types, lifting) image_iff list.set_map)
  then show False
    using index_of_less by fastforce
qed

lemma wf_totals: "list_all wf_record records \<Longrightarrow> \<forall>e \<in> set (ends_of records). 0 \<le> pve_total_mutations e"
proof -
  assume wf: "list_all wf_record records"
  have "0 \<le> pve_total_mutations e" if "r \<in> set records" "e \<in> set (record_ends_of (pr_record r))" for r e
    using that wf by (cases "pr_record r" rule: record_ends_of.cases) (auto simp: list_all_iff wf_defs)
  then show ?thesis
    by (auto simp: ends_of_def)
qed

section \<open>Consuming\<close>

text \<open>
  The exit of the loop that asks for two idle polls after a message is never taken: the message has just reset
  their number.
\<close>

lemma early_exit_is_dead: "take_message pb k (Some msg) c \<noteq> Inr (True, c')"
  by (auto simp: take_message_def Let_def split: option.splits)

definition counted :: "consumed \<Rightarrow> bool" where
  "counted c \<longleftrightarrow> cd_total_mutations c = sum_list (map record_mutations (cd_records c))"

lemma take_message_counted: "take_message pb k m c = Inr (b, c') \<Longrightarrow> counted c \<Longrightarrow> counted c'"
  by (auto simp: take_message_def counted_def Let_def split: option.splits if_splits)

lemma consume_loop_keeps:
  assumes "\<And>m c b c'. take_message pb n m c = Inr (b, c') \<Longrightarrow> I c \<Longrightarrow> I c'" "I c"
  shows "wp (consume_loop pb cs k n deadline fuel c) (\<lambda>c _. I c) (\<lambda>_ _. True) w"
  using assms(2)
proof (induction fuel arbitrary: c w)
  case (Suc fuel)
  have polled: "wp (bnd (cs_poll cs k) (\<lambda>message. bnd (liftE (take_message pb n message c)) (\<lambda>(stop_here, c).
      if stop_here then ret c else consume_loop pb cs k n deadline fuel c))) (\<lambda>c _. I c) (\<lambda>_ _. True) v" for v
    unfolding wp_bnd wp_liftE
    by (rule wp_all) (auto simp: wp_ret Suc.IH Suc.prems assms(1) split: sum.split)
  show ?case
    unfolding consume_loop.simps wp_bnd [of "cs_monotonic cs"]
    by (rule wp_all) (simp_all add: wp_ret Suc.prems polled)
qed (simp add: wp_raise)

text \<open>What every round keeps holds of the records that are returned, and they carry at least the mutations asked for.\<close>

lemma consume_keeps:
  assumes "\<And>m c b c'. take_message pb n m c = Inr (b, c') \<Longrightarrow> I (cd_records c) \<Longrightarrow> I (cd_records c')" "I []"
  shows "wp (consume_records pb cs n timeout fuel) (\<lambda>records _. I records \<and> n \<le> int (sum_list (map record_mutations records)))
    (\<lambda>_ _. True) w"
proof -
  let ?J = "\<lambda>c. I (cd_records c) \<and> counted c"
  let ?loop = "\<lambda>k d. consume_loop pb cs k n d fuel \<lparr>cd_records = [], cd_total_mutations = 0, cd_idle_streak = 0\<rparr>"
  have "wp (?loop k d) (\<lambda>c _. ?J c) (\<lambda>_ _. True) v" for k d v
    by (rule consume_loop_keeps) (auto simp: counted_def assms(2) intro: assms(1) take_message_counted [unfolded counted_def])
  then have closed: "wp (finally_do (?loop k d) (cs_close cs k)) (\<lambda>c _. ?J c) (\<lambda>_ _. True) v" for k d v
    unfolding finally_do_def wp_bnd wp_trying wp_thn wp_liftE
    by (rule wp_weaken) (auto intro!: wp_all)
  have enough: "wp (bnd (finally_do (?loop k d) (cs_close cs k)) (\<lambda>c. if int (cd_total_mutations c) < n then raise TimeoutError
      else ret (cd_records c))) (\<lambda>records _. I records \<and> n \<le> int (sum_list (map record_mutations records))) (\<lambda>_ _. True) v" for k d v
    unfolding wp_bnd by (rule wp_weaken [OF closed]) (simp_all add: wp_ret wp_raise counted_def)
  show ?thesis
    unfolding consume_records_def wp_bnd [of "cs_new cs"] wp_thn wp_bnd [of "cs_monotonic cs"]
    by (rule wp_all, rule wp_all, rule wp_all) (simp_all only: enough)
qed
lemma consumed_enough:
  "wp (consume_records pb cs n timeout fuel) (\<lambda>records _. n \<le> int (sum_list (map record_mutations records)))
     (\<lambda>_ _. True) w"
  by (rule wp_weaken [OF consume_keeps [where I = "\<lambda>_. True"]]) auto

text \<open>They are messages the runtime decodes.\<close>

lemma consumed_wf:
  assumes "protobuf_runtime pb"
  shows "wp (consume_records pb cs n timeout fuel) (\<lambda>records _. list_all wf_record records) (\<lambda>_ _. True) w"
proof (rule wp_weaken [OF consume_keeps [where I = "list_all wf_record"]])
  show "list_all wf_record (cd_records c')" if "take_message pb n m c = Inr (b, c')" "list_all wf_record (cd_records c)" for m c b c'
    using that protobuf_runtime.parse_wf [OF assms]
    by (auto simp: take_message_def Let_def split: option.splits if_splits)
qed auto

section \<open>Teardown\<close>

text \<open>The teardown raises nothing a caller could handle, and leaves a daemon alone whose thread still runs.\<close>

lemma stop_bridge_quiet: "wp (stop_bridge env alive) (\<lambda>_ t. alive \<longrightarrow> t = s) (\<lambda>e _. \<not> is_Exception e) s"
  by (cases "fst s") (auto simp: stop_bridge_def wp_simps split: sum.split intro!: wp_all)

section \<open>Properties\<close>

text \<open>A workload of one operation, the mutation emitted for it, and a reply that delivers it.\<close>

definition demo_prefix :: bytes where
  "demo_prefix = [0x70]"

definition first_native :: "int \<times> bytes \<times> bytes" where
  "first_native = (0, demo_prefix @ octets ''set_'' @ index_bytes 0, octets ''val-'' @ decimal 0)"

definition first_reply :: native_reply where
  "first_reply = \<lparr>nr_mutations = Some [\<lparr>vg_version = golden_version,
       vg_mutations = Yields [native 0 (fst (snd first_native)) (snd (snd first_native))] None\<rparr>],
     nr_last_consumed_version = Some golden_version\<rparr>"

definition first_records :: "pb_record list" where
  "first_records = [\<lparr>pr_stream_name = golden_stream, pr_bridge_timestamp = Some (timestamp golden_ts),
       pr_record = Some (MutationArm (mutation_message 0 (fst (snd first_native)) (snd (snd first_native)) 7 0))\<rparr>,
     version_end_message golden_stream golden_ts 7 1]"

lemma first_written: "write_samples demo_prefix 1 =
    Inr [[SetKey (fst (snd first_native)) (snd (snd first_native))]]"
  by (simp add: write_samples_def write_from.simps commit_chunk_def batch_size_def write_operation_def
      first_native_def)

lemma first_bytes:
  "fst (snd first_native) = [0x70, 0x73, 0x65, 0x74, 0x5F, 0x30, 0x30, 0x30, 0x30, 0x30, 0x30, 0x30, 0x30]"
  "snd (snd first_native) = [0x76, 0x61, 0x6C, 0x2D, 0x30]"
  by (simp_all add: first_native_def demo_prefix_def octets_def index_bytes_def decimal_def digits.simps numeral_eq_Suc)

lemma first_natives: "group_natives (hd (reply_groups first_reply)) [first_native]"
proof -
  have "native_of (native 0 (fst (snd first_native)) (snd (snd first_native))) first_native"
    using native_of_native [of 0 "fst (snd first_native)" "snd (snd first_native)"]
    by (simp add: first_native_def limit_defs)
  then show ?thesis
    by (auto simp: group_natives_def reply_groups_def first_reply_def)
qed

lemma first_sizes:
  "map (ByteSize proto3) (mutation_messages golden_version 0 [first_native]) = [33]"
  "length (wire_record proto3 golden_stream golden_ts None) = 21"
  "length (SerializeToString proto3 (version_end_message golden_stream golden_ts golden_version 1)) = 45"
proof -
  have native: "first_native = (0, [0x70, 0x73, 0x65, 0x74, 0x5F, 0x30, 0x30, 0x30, 0x30, 0x30, 0x30, 0x30, 0x30],
      [0x76, 0x61, 0x6C, 0x2D, 0x30])"
    unfolding first_bytes [symmetric] by (simp add: first_native_def)
  show "map (ByteSize proto3) (mutation_messages golden_version 0 [first_native]) = [33]"
    unfolding native by (simp add: proto3_eval golden_version_def)
qed (simp_all add: proto3_eval golden_utf8 golden_ts_def golden_version_def)

lemma first_reply_records:
  "\<exists>rs. records_of_reply proto3 1000 golden_stream golden_ts first_reply = Inr rs"
proof -
  let ?items = "[native 0 (fst (snd first_native)) (snd (snd first_native))]"
  have items: "list_all2 native_of ?items [first_native]"
    using first_natives by (simp add: group_natives_def reply_groups_def first_reply_def)
  have "slice_loop proto3 21 1000 0 [] 0 0 (mutation_messages golden_version 0 [first_native]) = Inr ([], 0)"
    using first_sizes(1) unfolding first_native_def
    by (simp add: small_framed batch_tag_bytes_eq mutations_tag_bytes_eq Let_def)
  then obtain datas where group: "serialize_version_group proto3 (Yields ?items None) (PInt golden_version)
      (PInt 1000) (PStr golden_stream) (PInt golden_ts) = Inr datas"
    using serialize_version_group_ok [OF _ _ golden_envelope items, of golden_version 1000 proto3 "[]" 0] first_sizes(2,3)
    by (simp add: valid_version_def golden_version_def limit_defs del: slice_loop.simps mutation_messages.simps)
  from proto3.group_messages [OF this items] obtain rs where "mapE (parse_record proto3) datas = Inr rs"
    by auto
  with group show ?thesis
    by (simp add: records_of_reply_eq first_reply_def watermark_records_def)
qed

lemma first_matches: "case first_native of (c, p1, p2) \<Rightarrow> matches (expected_mutation demo_prefix 0) c p1 p2"
  using native.emitted_matches [of demo_prefix 0 _ "replicate 10 0"]
  by (simp add: write_operation_def first_native_def VERSIONSTAMP_LEN_def)

text \<open>C11: The verifier of the demonstration accepts exactly what it should. On records whose fields are in range it
  succeeds when, and only when, the mutations in them are those of the workload, each index below the count once and
  as expected, under distinct coordinates, with one version end per version that states the positions
  \<open>0 .. total - 1\<close> of its mutations; it then returns the number of mutations of each type. In every other case it
  raises \<open>AssertionError\<close>, and so it does for every count above \<open>10 ^ 8\<close>, whatever was delivered. The last
  check of the code, on the sum of the totals, adds nothing to the others.\<close>

theorem verify_workload_exact:
  assumes "list_all wf_record records"
  shows "if exact_delivery p n records
    then n \<le> 10 ^ 8 \<and> (\<exists>counts. verify_workload records p n = Inr counts \<and>
      map_of counts = (\<lambda>c. let k = type_count (mutations_of records) c in if k = 0 then None else Some k))
    else verify_workload records p n = Inl AssertionError"
  using verify_exact [OF wf_totals [OF assms], of p n] exact_delivery_limit by simp

theorem verify_workload_exact_witness:
  "\<exists>counts. verify_workload first_records demo_prefix 1 = Inr counts \<and> map_of counts 0 = Some 1"
proof -
  have wf: "list_all wf_record first_records"
  proof -
    have "wf_record (version_end_message golden_stream golden_ts 7 1)"
      using golden_envelope by (intro wf_version_end_record) (auto simp: valid_version_def limit_defs)
    moreover have "wf_mutation (mutation_message 0 p1 p2 7 0)" for p1 p2
      by (rule wf_mutation_message) (simp_all add: limit_defs)
    moreover have "wf_timestamp (timestamp golden_ts)"
      by (rule wf_timestamp_timestamp) (simp_all add: golden_ts_def limit_defs)
    ultimately show ?thesis
      by (simp add: first_records_def wf_record_def golden_utf8)
  qed
  have parts: "mutations_of first_records = group_mutations [(7, [first_native])]" "end_pairs first_records = [(7, 1)]"
    by (simp_all add: first_records_def mutations_of_def end_pairs_def ends_of_def version_end_message_def
        group_mutations_def first_native_def)
  have "exact_delivery demo_prefix (int 1) first_records"
    by (rule groups_exact [where ws = "[]" and gs = "[(7, [first_native])]" and ids = "[0]"])
      (use parts first_matches in simp_all)
  moreover have "type_count (mutations_of first_records) 0 = 1"
    unfolding parts by (simp add: group_mutations_def type_count_def native_parts_message first_native_def)
  ultimately show ?thesis
    using verify_workload_exact [OF wf, of demo_prefix 1] by auto
qed

text \<open>C26: The expectations stay in step with the writes. Under the documented rewrites of native CDC, whatever the
  versionstamp, the mutation emitted for the operation that \<open>_write_samples\<close> performs at an index
  matches what \<open>expected_mutation\<close> says of that index, for each of the fourteen kinds of operation.\<close>

theorem workload_in_step:
  assumes "cdc_emission emission" "write_operation p i = Inr op" "length stamp = VERSIONSTAMP_LEN"
  shows "case emission stamp op of (c, p1, p2) \<Rightarrow> matches (expected_mutation p i) c p1 p2"
  using assms by (rule cdc_emission.emitted_matches)

theorem workload_in_step_witness:
  "\<exists>op. write_operation demo_prefix 9 = Inr op \<and>
     (case native_emission (replicate 10 7) op of (c, p1, p2) \<Rightarrow> matches (expected_mutation demo_prefix 9) c p1 p2)"
proof -
  obtain op where op: "write_operation demo_prefix 9 = Inr op"
    by (auto simp: write_operation_def pack_u32_def demo_prefix_def octets_def index_bytes_def decimal_def digits.simps)
  from workload_in_step [OF native.cdc_emission_axioms op, of "replicate 10 7"] op show ?thesis
    by (simp add: VERSIONSTAMP_LEN_def)
qed

text \<open>C10: The demonstration verifies, end to end. Suppose \<open>_write_samples\<close> commits a workload of at most \<open>10 ^ 8\<close>
  operations and native CDC delivers what it emits for them, in any order, in any replies and version
  groups with distinct versions. Then the records the bridge makes of the replies, in any order, pass
  \<open>verify_workload\<close>.\<close>

theorem demo_run_verifies:
  assumes "protobuf_runtime pb" "cdc_emission emission" "mx < 2 ^ 31" "cnt \<le> 10 ^ 8"
    and "write_samples p (int cnt) = Inr txs"
    and "list_all2 (\<lambda>op native. \<exists>stamp. length stamp = VERSIONSTAMP_LEN \<and> native = emission stamp op) (concat txs) natives"
    and "list_all2 (\<lambda>(t, batch) nss. list_all2 group_natives (reply_groups batch) nss) replies nsss"
    and "mset (concat (concat nsss)) = mset natives"
    and "distinct (concat (map (\<lambda>(t, batch). reported_versions batch) replies))"
    and "list_all2 (\<lambda>(t, batch) rs. records_of_reply pb mx n t batch = Inr rs) replies rss"
    and "mset records = mset (concat rss)"
  shows "\<exists>counts. verify_workload records p (int cnt) = Inr counts"
proof (rule replies_verify [OF assms(1,3,4,10,7,9) _ assms(8,11)])
  have "mapE (write_operation p) [0..<cnt] = Inr (concat txs)"
    using write_from_all assms(5) by (simp add: write_samples_def)
  then have "map (write_operation p) [0..<cnt] = map Inr (concat txs)"
    by (simp add: mapE_Inr_iff)
  then have "list_all2 (\<lambda>i op. write_operation p i = Inr op) [0..<cnt] (concat txs)"
    unfolding list_all2_conv_all_nth by (metis length_map nth_map)
  then show "list_all2 (\<lambda>i (c, p1, p2). matches (expected_mutation p i) c p1 p2) [0..<cnt] natives"
    using assms(6)
    by (rule list_all2_trans [rotated]) (auto dest: cdc_emission.emitted_matches [OF assms(2)])
qed

theorem demo_run_verifies_witness:
  "\<exists>rs counts. records_of_reply proto3 1000 golden_stream golden_ts first_reply = Inr rs \<and>
     verify_workload rs demo_prefix 1 = Inr counts"
proof -
  obtain rs where rs: "records_of_reply proto3 1000 golden_stream golden_ts first_reply = Inr rs"
    using first_reply_records by blast
  have "list_all2 (\<lambda>op native. \<exists>stamp. length stamp = VERSIONSTAMP_LEN \<and> native = native_emission stamp op)
      (concat [[SetKey (fst (snd first_native)) (snd (snd first_native))]]) [first_native]"
    by (auto simp: first_native_def intro: exI [of _ "replicate VERSIONSTAMP_LEN 0"])
  moreover have "list_all2 (\<lambda>(t, batch) nss. list_all2 group_natives (reply_groups batch) nss)
      [(golden_ts, first_reply)] [[[first_native]]]"
    using first_natives by (simp add: reply_groups_def first_reply_def)
  moreover have "distinct (concat (map (\<lambda>(t, batch). reported_versions batch) [(golden_ts, first_reply)]))"
    by (simp add: reported_versions_def reply_groups_def reply_watermark_def last_version_def first_reply_def)
  ultimately show ?thesis
    using demo_run_verifies [OF proto3.protobuf_runtime_axioms native.cdc_emission_axioms, of 1000 1 demo_prefix
        "[[SetKey (fst (snd first_native)) (snd (snd first_native))]]" "[first_native]"
        "[(golden_ts, first_reply)]" "[[[first_native]]]" golden_stream "[rs]" rs] first_written rs
    by auto
qed

end
