(* ===== verification/Demo_Run_Delivery.thy ===== *)
theory Demo_Run_Delivery
  imports Demo_Run Demo_Delivery
begin

text \<open>
  What a run of the demonstration guarantees: its key range holds what it writes, a return means that the run
  was verified, and every way out releases the handles. The concrete run of one mutation shows that it can
  succeed.
\<close>

section \<open>The key range\<close>

lemma from_hex_digits:
  "x < 16 \<Longrightarrow> y < 16 \<Longrightarrow> from_hex (hex_digit x # hex_digit y # cs) = map_option (\<lambda>bs. of_nat (16 * x + y) # bs) (from_hex cs)"
  by (auto simp: hex_value_digit) (auto simp: hex_digit_def split: if_splits)

lemma from_to_hex: "from_hex (to_hex bs) = Some bs"
proof (induction bs)
  case (Cons b bs)
  have "unat b div 16 < 16"
    using unat_byte_less [of b] by (simp add: less_mult_imp_div_less)
  moreover have "of_nat (16 * (unat b div 16) + unat b mod 16) = b"
    by (simp add: mult.commute)
  ultimately show ?case
    using Cons from_hex_digits [of "unat b div 16" "unat b mod 16" "to_hex bs"] by (simp add: to_hex_def)
qed (simp add: to_hex_def)

text \<open>The prefix ends with a slash, so its range ends before the same prefix with a zero.\<close>

definition run_end :: "pystr \<Rightarrow> bytes" where
  "run_end run_id = octets ''demo/'' @ map of_nat run_id @ octets ''0''"

lemma rstrip_ff_id: "b \<noteq> 0xFF \<Longrightarrow> rstrip_ff (bs @ [b]) = bs @ [b]"
  by (induction bs) (auto split: list.splits)

lemma strinc_run_prefix: "strinc (run_prefix run_id) = Inr (run_end run_id)"
proof -
  let ?body = "octets ''demo/'' @ map of_nat run_id"
  have parts: "run_prefix run_id = ?body @ [0x2F]" "run_end run_id = ?body @ [0x30]"
    by (simp_all add: run_prefix_def run_end_def octets_def)
  have "rstrip_ff (?body @ [0x2F]) = ?body @ [0x2F]"
    by (rule rstrip_ff_id) simp
  then show ?thesis
    unfolding parts strinc_def by (simp only: Let_def butlast_snoc last_snoc) simp
qed

definition run_config :: "pystr \<Rightarrow> pystr \<Rightarrow> bridge_config" where
  "run_config run_id bootstrap_servers =
    \<lparr>cf_fdb = \<lparr>cf_api_version = 800, cf_cluster_file = None\<rparr>,
     cf_cdc = \<lparr>cf_stream_name = run_stream run_id, cf_begin_key = run_prefix run_id, cf_end_key = run_end run_id,
       cf_max_record_bytes = 1000000, cf_cursor_file = Some (run_cursor_file run_id)\<rparr>,
     cf_kafka = \<lparr>cf_bootstrap_servers = bootstrap_servers, cf_topic = run_topic run_id, cf_transactional_id = None\<rparr>,
     cf_pipeline = \<lparr>cf_flush_timeout_seconds = Finite 10, cf_backoff_base_seconds = Finite (1 / 10),
       cf_backoff_max_seconds = Finite 2, cf_shutdown_timeout_seconds = Finite 15\<rparr>\<rparr>"

lemma run_names_not_blank: "\<not> blank (run_stream run_id)" "\<not> blank (run_topic run_id)"
  by (simp_all add: run_stream_def run_topic_def blank_def is_space_def ascii_def)

lemma run_keys_nonempty: "run_prefix run_id \<noteq> []" "run_end run_id \<noteq> []"
  by (simp_all add: run_prefix_def run_end_def octets_def)

lemma run_settings_accepted:
  "from_dict (run_settings run_id (run_end run_id) bootstrap_servers) =
     (if blank bootstrap_servers then Inl ValueError else Inr (run_config run_id bootstrap_servers))"
proof -
  have "\<not> run_end run_id \<le> run_prefix run_id"
    using strinc_less [OF strinc_run_prefix] by (simp add: not_le)
  moreover have "blank bootstrap_servers \<longleftrightarrow> list_all is_space bootstrap_servers" "\<not> list_all is_space (run_stream run_id)"
    "\<not> list_all is_space (run_topic run_id)"
    using run_names_not_blank by (simp_all add: blank_def)
  ultimately show ?thesis
    by (simp add: run_settings_def from_dict_def fdb_from_dict_def cdc_from_dict_def kafka_from_dict_def
        pipeline_from_dict_def reject_unknown_keys_def get_default_def py_get_def ascii_def positive_int_def
        optional_nonblank_def py_zero_def blank_def run_config_def from_to_hex run_keys_nonempty
        positive_seconds_def ensure_def)
qed

text \<open>
  The keys an operation touches. For a versionstamped key this is the operand, with its placeholder and the
  offset behind it: the key that is written has the stamp in the place of the placeholder, behind the same prefix.
\<close>

fun operation_keys :: "operation \<Rightarrow> bytes list" where
  "operation_keys (ClearRange b e) = [b, e]"
| "operation_keys (SetKey k v) = [k]"
| "operation_keys (Add k v) = [k]"
| "operation_keys (BitAnd k v) = [k]"
| "operation_keys (BitOr k v) = [k]"
| "operation_keys (BitXor k v) = [k]"
| "operation_keys (AppendIfFits k v) = [k]"
| "operation_keys (MaxOp k v) = [k]"
| "operation_keys (MinOp k v) = [k]"
| "operation_keys (SetVersionstampedKey k v) = [k]"
| "operation_keys (SetVersionstampedValue k v) = [k]"
| "operation_keys (ByteMin k v) = [k]"
| "operation_keys (ByteMax k v) = [k]"

lemma written_below_prefix: "write_operation p i = Inr op \<Longrightarrow> k \<in> set (operation_keys op) \<Longrightarrow> prefix p k"
  by (auto simp: write_operation_def Let_def result_simps split: if_splits)

lemma seeded_below_prefix: "op \<in> set (concat (seed_clear_targets p n)) \<Longrightarrow> k \<in> set (operation_keys op) \<Longrightarrow> prefix p k"
  by (auto simp: seed_clear_targets_def seed_chunk_def)

lemma samples_below_prefix:
  assumes "write_samples p (int n) = Inr txs" "op \<in> set (concat txs)" "k \<in> set (operation_keys op)"
  shows "prefix p k"
proof -
  have "mapE (write_operation p) [0..<n] = Inr (concat txs)"
    using write_from_all assms(1) by (simp add: write_samples_def)
  then have "map (write_operation p) [0..<n] = map Inr (concat txs)"
    by (simp add: mapE_Inr_iff)
  moreover have "Inr op \<in> set (map Inr (concat txs))"
    using assms(2) by simp
  ultimately obtain i where "write_operation p i = Inr op"
    by (metis (no_types, lifting) imageE image_set)
  then show ?thesis
    using assms(3) by (rule written_below_prefix)
qed

section \<open>Committing\<close>

text \<open>The effectful loop commits what \<open>write_from\<close> lists, in its order.\<close>

lemma commit_samples_eq:
  "write_from p i n = Inr txs \<Longrightarrow> commit_samples dc db p i n = for_each (dc_commit dc db) txs"
proof (induction p i n arbitrary: txs rule: write_from.induct)
  case (1 p i n)
  show ?case
  proof (cases "i < n")
    case True
    obtain chunk rest where parts: "commit_chunk p i (min batch_size (n - i)) = Inr chunk"
      "write_from p (i + batch_size) n = Inr rest" "txs = chunk # rest"
      using 1(2) True by (subst (asm) write_from.simps) (auto simp: result_simps)
    show ?thesis
      using 1(1) [OF True parts(2)] True parts(1,3)
      by (subst commit_samples.simps) (simp add: bnd_liftE)
  next
    case False
    with 1(2) show ?thesis
      by (subst commit_samples.simps, subst (asm) write_from.simps) simp
  qed
qed

section \<open>Teardown\<close>

text \<open>A call that raises nothing the code could catch as an \<open>Exception\<close>, as a lock, a clock or a \<open>join\<close>.\<close>

definition never_fails :: "('s, 'a) eff \<Rightarrow> bool" where
  "never_fails m \<longleftrightarrow> (\<forall>s. wp m (\<lambda>_ _. True) (\<lambda>e _. \<not> is_Exception e) s)"

lemma never_failsD: "never_fails m \<Longrightarrow> wp m (\<lambda>_ _. True) (\<lambda>e _. \<not> is_Exception e) s"
  by (simp add: never_fails_def)

lemma wp_never_fails:
  assumes "never_fails m" "\<And>x t. Q x t" "\<And>e t. \<not> is_Exception e \<Longrightarrow> E e t"
  shows "wp m Q E s"
  by (rule wp_weaken [OF never_failsD [OF assms(1)]]) (use assms(2,3) in auto)

lemma never_fails_ret: "never_fails (ret x)"
  by (simp add: never_fails_def wp_simps)

lemma never_fails_bnd: "never_fails m \<Longrightarrow> (\<And>x. never_fails (f x)) \<Longrightarrow> never_fails (bnd m f)"
  unfolding never_fails_def wp_bnd by (auto intro: wp_weaken)

lemma never_fails_thn: "never_fails m \<Longrightarrow> never_fails k \<Longrightarrow> never_fails (thn m k)"
  unfolding thn_def by (rule never_fails_bnd)

lemma never_fails_basic:
  "never_fails (self_gets g)" "never_fails (self_modify f)" "never_fails (trying m)" "never_fails (ignoring n)"
  by (auto simp: never_fails_def ignoring_def wp_simps intro!: wp_all)

lemma never_fails_outside: "never_fails m \<Longrightarrow> never_fails (outside m)"
  by (simp add: never_fails_def wp_simps)

lemmas never_fails_intros = never_fails_ret never_fails_bnd never_fails_thn never_fails_basic never_fails_outside

lemma finish_loop_never_fails:
  "never_fails (nt_monotonic (en_natives env)) \<Longrightarrow> never_fails (finish_loop env fuel deadline)"
proof (induction fuel)
  case (Suc fuel)
  then have "never_fails (case r of Inl exc \<Rightarrow> if is_Exception exc then ret () else raise exc
      | Inr _ \<Rightarrow> finish_loop env fuel deadline)" for r :: "exn + nat"
    by (cases r) (auto simp: never_fails_def wp_simps)
  then show ?case
    using Suc.prems by (auto intro!: never_fails_intros split: if_splits)
qed (simp add: never_fails_def wp_simps)

lemma acquire_never_fails:
  assumes "\<And>timeout. never_fails (en_acquire env timeout)"
  shows "never_fails (acquire_step_lock env timeout)"
proof -
  have "never_fails (others env)"
    by (simp add: never_fails_def wp_def others_def)
  moreover have "never_fails (case flight of None \<Rightarrow> ret locked | Some (backoff, pending) \<Rightarrow>
      bnd (trying (round_in_flight env backoff pending)) (\<lambda>r. ret (locked \<and> r \<noteq> Inl Diverges)))" for flight locked
    by (cases flight) (auto intro!: never_fails_intros)
  ultimately show ?thesis
    unfolding acquire_step_lock_def by (auto intro!: never_fails_thn never_fails_bnd never_fails_outside assms)
qed

lemma settle_never_fails:
  assumes "never_fails (nt_monotonic (en_natives env))" "\<And>timeout. never_fails (en_acquire env timeout)"
  shows "never_fails (settle env timeout)"
  unfolding settle_def lock_for_stop_def finish_outstanding_commit_def
  by (auto intro!: never_fails_intros acquire_never_fails assms finish_loop_never_fails)

definition no_handles :: "('d, 'c, 'h, 'w) bridge option \<Rightarrow> bool" where
  "no_handles bridge \<longleftrightarrow> (case bridge of
     None \<Rightarrow> True
   | Some b \<Rightarrow> br_producer b = None \<and> br_listener b = None \<and> br_client b = None \<and> br_pipeline b = None)"

lemma stop_drops_handles:
  assumes "never_fails (settle env (cf_shutdown_timeout_seconds (cf_pipeline (br_config (fst s)))))"
  shows "wp (stop env) (\<lambda>_ t. no_handles (Some (fst t))) (\<lambda>e t. is_Exception e \<longrightarrow> no_handles (Some (fst t))) s"
proof -
  have closed: "wp (close_handles env timeout) (\<lambda>_ t. no_handles (Some (fst t)))
      (\<lambda>e t. is_Exception e \<longrightarrow> no_handles (Some (fst t))) t" for timeout t
    by (auto simp: close_handles_def Let_def wp_simps no_handles_def split: option.splits intro!: wp_all)
  show ?thesis
    unfolding stop_def request_shutdown_def wp_thn wp_bnd wp_self_modify wp_self_gets
    by (rule wp_never_fails) (use assms closed in simp_all)
qed

lemma stop_bridge_drops_handles:
  assumes "\<And>timeout. never_fails (settle env timeout)"
  shows "wp (stop_bridge env alive) (\<lambda>_ t. alive \<or> no_handles (fst t)) (\<lambda>e _. \<not> is_Exception e) s"
proof (cases "fst s")
  case (Some b)
  have "wp (stop env) (\<lambda>_ t. no_handles (Some (fst t))) (\<lambda>e t. if is_Exception e then no_handles (Some (fst t)) else True) (b, snd s)"
    by (rule wp_weaken [OF stop_drops_handles [of env "(b, snd s)", OF assms]]) simp_all
  then show ?thesis
    using Some by (auto simp: stop_bridge_def wp_simps elim!: wp_weaken)
qed (simp add: stop_bridge_def wp_simps no_handles_def)

definition released :: "('d, 'c, 'h, 'w) demo \<Rightarrow> bool" where
  "released d \<longleftrightarrow> fc_db (de_client d) = None \<and> (de_alive d \<or> no_handles (de_bridge d))"

lemma wp_on_demo_client:
  "wp (on_demo_client m) Q E s \<longleftrightarrow>
     wp m (\<lambda>x t. Q x ((fst s)\<lparr>de_client := fst t\<rparr>, snd t)) (\<lambda>e t. E e ((fst s)\<lparr>de_client := fst t\<rparr>, snd t))
       (de_client (fst s), snd s)"
  by (simp add: on_demo_client_def wp_simps)

lemma cleanup_releases:
  assumes "never_fails (nt_monotonic (en_natives (dc_env dc)))" "\<And>timeout. never_fails (en_acquire (dc_env dc) timeout)"
    and "\<And>timeout. never_fails (dc_join dc timeout)"
  shows "wp (demo_cleanup dc db run_id) (\<lambda>_ t. released (fst t)) (\<lambda>e t. is_Exception e \<longrightarrow> released (fst t)) s"
proof -
  let ?E = "\<lambda>e t. is_Exception e \<longrightarrow> released (fst t)"
  let ?I = "\<lambda>t. de_alive (fst t) \<or> no_handles (de_bridge (fst t))"
  have unlink: "wp (catch (outside (dc_unlink dc path)) is_OSError (\<lambda>_. ret ())) (\<lambda>_ t. released (fst t)) ?E t"
    if "released (fst t)" for path t
    using that by (auto simp: wp_simps intro!: wp_all)
  have close: "wp (thn (on_demo_client client_close) (catch (outside (dc_unlink dc path)) is_OSError (\<lambda>_. ret ())))
      (\<lambda>_ t. released (fst t)) ?E t" if "?I t" for path t
    unfolding wp_thn wp_on_demo_client client_close_def wp_self_modify
    by (rule unlink) (use that in \<open>auto simp: released_def\<close>)
  have client: "wp (ignoring (on_demo_client m)) (\<lambda>_. ?I) (\<lambda>e _. \<not> is_Exception e) t" if "?I t" for m t
    using that by (auto simp: ignoring_def wp_catch wp_on_demo_client wp_ret intro!: wp_all)
  have clear: "wp (ignoring (bnd (liftE r) (\<lambda>x. outside (f x)))) (\<lambda>_. ?I) (\<lambda>e _. \<not> is_Exception e) t" if "?I t" for r f t
    using that by (auto simp: ignoring_def wp_simps split: sum.split intro!: wp_all)
  let ?clear = "ignoring (bnd (liftE (strinc (run_prefix run_id))) (\<lambda>end_key. outside (dc_clear dc db (run_prefix run_id) end_key)))"
  let ?remove = "ignoring (on_demo_client (remove_cdc_stream (en_natives (dc_env dc)) (PStr (run_stream run_id))))"
  let ?close = "thn (on_demo_client client_close) (catch (outside (dc_unlink dc (run_cursor_file run_id))) is_OSError (\<lambda>_. ret ()))"
  have tail: "wp (thn ?clear (thn ?remove ?close)) (\<lambda>_ t. released (fst t)) ?E t" if "?I t" for t
    unfolding wp_thn [of ?clear] wp_thn [of ?remove]
    by (rule wp_weaken [OF clear [OF that]], rule wp_weaken [OF client]) (simp_all add: close)
  let ?stop = "\<lambda>alive. zoom (\<lambda>s. (de_bridge (fst s), snd s)) (\<lambda>t s. ((fst s)\<lparr>de_bridge := fst t\<rparr>, snd t)) (stop_bridge (dc_env dc) alive)"
  have stop: "wp (?stop alive) (\<lambda>_. ?I) (\<lambda>e _. \<not> is_Exception e) t" if "alive \<longrightarrow> de_alive (fst t)" for alive t
    unfolding wp_zoom
    by (rule wp_weaken [OF stop_bridge_drops_handles])
      (use that in \<open>auto intro: settle_never_fails assms\<close>)
  have look: "wp (look_alive dc) Q E t" if "\<And>alive t. alive \<longrightarrow> de_alive (fst t) \<Longrightarrow> Q alive t" for Q E t
    using that by (simp add: look_alive_def meanwhile_def wp_def run_simps)
  have stopped: "wp (thn (bnd (look_alive dc) ?stop) (thn ?clear (thn ?remove ?close))) (\<lambda>_ t. released (fst t)) ?E t" for t
    unfolding wp_thn [of "bnd _ _"] wp_bnd
    by (rule look, rule wp_weaken [OF stop]) (simp_all add: tail)
  have joined: "wp (bnd (look_alive dc) (\<lambda>alive. if alive then outside (dc_join dc (Finite 10)) else ret ()))
      (\<lambda>_ _. True) (\<lambda>e _. \<not> is_Exception e) t" for t
    unfolding wp_bnd
    by (rule look) (auto simp: wp_ret wp_outside intro!: never_failsD assms)
  have asked: "wp (if b \<noteq> None then on_demo_bridge request_shutdown else ret ()) (\<lambda>_ _. True) (\<lambda>_ _. False) t"
    if "de_bridge (fst t) = b" for b t
    using that by (auto simp: on_demo_bridge_def request_shutdown_def wp_simps split: option.split)
  show ?thesis
    unfolding demo_cleanup_def wp_bnd [of "self_gets de_bridge"] wp_self_gets wp_thn [of "if _ then _ else _"]
      wp_thn [of "bnd (look_alive dc) (\<lambda>alive. if alive then _ alive else _ alive)"]
    by (rule wp_weaken [OF asked], simp, rule wp_weaken [OF joined]) (simp_all add: stopped)
qed

section \<open>The report\<close>

lemma named_codes: "ex_type_code (expected_mutation p i) \<in> fst ` set MUTATION_TYPE_NAMES"
  using kind_cases [of i]
  by (elim insertE emptyE) (simp_all add: expected_mutation_def operation_table_def MUTATION_TYPE_NAMES_def
      SET_VALUE_def CLEAR_RANGE_def Let_def)

lemma genuine_named: "genuine p m \<Longrightarrow> map_of MUTATION_TYPE_NAMES (fst (native_parts m)) \<noteq> None"
  using named_codes by (auto simp: genuine_def matches_def map_of_eq_None_iff split: option.splits prod.splits if_splits)

lemma map_of_filter: "map_of xs k = (case filter (\<lambda>x. fst x = k) xs of [] \<Rightarrow> None | x # _ \<Rightarrow> Some (snd x))"
  by (induction xs) auto

lemma map_of_sort_key: "map_of (sort_key fst xs) = map_of xs"
  by (rule ext) (simp add: map_of_filter [of "sort_key fst xs"] map_of_filter [of xs] sort_key_stable)

text \<open>What a report that is returned says, where \<open>n\<close> is the number of mutations asked for.\<close>

definition report_ok :: "int \<Rightarrow> demo_report \<Rightarrow> bool" where
  "report_ok n report \<longleftrightarrow>
     exact_delivery (rp_prefix report) n (rp_consumed report) \<and>
     int (bm_mutations_published (rp_metrics report)) = n \<and>
     rp_version_ends report = length (ends_of (rp_consumed report)) \<and>
     (\<forall>(label, code, k) \<in> set (rp_types report). label \<noteq> None) \<and>
     map_of (map snd (rp_types report)) =
       (\<lambda>c. let k = type_count (mutations_of (rp_consumed report)) c in if k = 0 then None else Some k)"

lemma verified_report:
  assumes "list_all wf_record consumed" "verify_workload consumed p n = Inr counts" "int (bm_mutations_published metrics) = n"
  shows "report_ok n \<lparr>rp_prefix = p, rp_consumed = consumed, rp_version_ends = length (ends_of consumed),
    rp_types = type_lines counts, rp_metrics = metrics\<rparr>"
proof -
  let ?ms = "mutations_of consumed"
  have exact: "exact_delivery p n consumed"
    "map_of counts = (\<lambda>c. let k = type_count ?ms c in if k = 0 then None else Some k)"
    using verify_exact [OF wf_totals [OF assms(1)], of p n] assms(2) by (auto split: if_splits)
  have "map_of MUTATION_TYPE_NAMES code \<noteq> None" if "(code, k) \<in> set counts" for code k
  proof -
    have "map_of counts code \<noteq> None"
      using weak_map_of_SomeI [OF that] by auto
    then have "0 < type_count ?ms code"
      by (auto simp: exact(2) Let_def split: if_splits)
    then obtain m where "m \<in> set ?ms" "fst (native_parts m) = code"
      by (auto simp: type_count_def filter_empty_conv)
    moreover have "list_all (genuine p) ?ms"
      using exact(1) by (simp add: exact_delivery_def Let_def)
    ultimately show ?thesis
      using genuine_named by (auto simp: list_all_iff)
  qed
  then have "\<forall>(label, code, k) \<in> set (type_lines counts). label \<noteq> None"
    by (fastforce simp: type_lines_def)
  moreover have "map snd (type_lines counts) = sort_key fst counts"
    by (simp add: type_lines_def comp_def case_prod_unfold)
  ultimately show ?thesis
    using exact assms(3) by (simp add: report_ok_def map_of_sort_key)
qed

lemma demo_bridge_kept: "de_bridge d = Some b \<Longrightarrow> d\<lparr>de_bridge := Some b\<rparr> = d"
  by (cases d) simp

lemma wp_on_demo_bridge_gets:
  "wp (on_demo_bridge (self_gets g)) Q E s \<longleftrightarrow>
     (case de_bridge (fst s) of None \<Rightarrow> E AttributeError s | Some b \<Rightarrow> Q (g b) s)"
  by (cases s) (auto simp: on_demo_bridge_def wp_simps demo_bridge_kept split: option.split)

lemma wp_look_published:
  assumes "\<And>t b. de_bridge (fst t) = Some b \<Longrightarrow> Q (int (bridge_mutations_published b)) t" "\<And>t. E AttributeError t"
  shows "wp (look_published dc) Q E s"
proof -
  have "wp (on_demo_bridge (self_gets (\<lambda>b. int (bridge_mutations_published b)))) Q E t" for t
    using assms by (auto simp: wp_on_demo_bridge_gets split: option.split)
  then show ?thesis
    unfolding look_published_def wp_thn by (simp add: meanwhile_def wp_def)
qed

lemma verify_run_report:
  assumes "protobuf_runtime (en_pb (dc_env dc))"
  shows "wp (verify_run dc run_id servers timeout n fuel) (\<lambda>report _. report_ok n report) (\<lambda>_ _. True) s"
proof -
  let ?p = "run_prefix run_id"
  have stopped: "wp (thn (on_demo_bridge (stop (dc_env dc))) (ret report)) (\<lambda>report _. report_ok k report) (\<lambda>_ _. True) t"
    if "report_ok k report" for report k t
    unfolding wp_thn by (rule wp_all) (simp_all add: wp_ret that)
  let ?report = "\<lambda>consumed counts metrics. \<lparr>rp_prefix = ?p, rp_consumed = consumed,
    rp_version_ends = length (ends_of consumed), rp_types = type_lines counts, rp_metrics = metrics\<rparr>"
  have verified: "wp (bnd (liftE (verify_workload consumed ?p n)) (\<lambda>counts.
      bnd (on_demo_bridge (self_gets br_metrics)) (\<lambda>metrics.
      thn (on_demo_bridge (stop (dc_env dc))) (ret (?report consumed counts metrics)))))
      (\<lambda>report _. report_ok n report) (\<lambda>_ _. True) t"
    if "list_all wf_record consumed" "de_bridge (fst t) = Some b" "int (bridge_mutations_published b) = n" for consumed b t
    using that unfolding wp_bnd wp_liftE wp_on_demo_bridge_gets
    by (auto split: sum.split intro!: stopped verified_report simp: bridge_mutations_published_def)
  have checked: "wp (bnd (look_published dc) (\<lambda>published. if published \<noteq> n then raise AssertionError
      else bnd (liftE (verify_workload consumed ?p n)) (\<lambda>counts.
        bnd (on_demo_bridge (self_gets br_metrics)) (\<lambda>metrics.
        thn (on_demo_bridge (stop (dc_env dc))) (ret (?report consumed counts metrics))))))
      (\<lambda>report _. report_ok n report) (\<lambda>_ _. True) t" if "list_all wf_record consumed" for consumed t
    unfolding wp_bnd [of "look_published dc"]
    by (rule wp_look_published) (use that verified in \<open>auto simp: wp_raise\<close>)
  show ?thesis
    unfolding verify_run_def
    by (subst wp_bnd, rule wp_look_published, subst wp_bnd, subst wp_outside, rule wp_weaken [OF consumed_wf [OF assms]])
      (simp_all add: checked)
qed

lemma run_demo_report:
  assumes "protobuf_runtime (en_pb (dc_env dc))"
  shows "wp (run_demo dc servers timeout n fuel) (\<lambda>report _. report_ok n report) (\<lambda>_ _. True) s"
proof -
  have body: "wp (demo_body dc db run_id servers timeout n fuel) (\<lambda>report _. report_ok n report) (\<lambda>_ _. True) t" for db run_id t
    unfolding demo_body_def wp_thn wp_bnd
    by (rule wp_all [where m = "outside _"], rule wp_all [where m = "launch _ _ _"], rule wp_all [where m = "outside _"],
        rule wp_all [where m = "outside _"], rule wp_all [where m = "await_published _ _ _ _"],
        rule wp_all [where m = "finish_daemon _"], rule verify_run_report [OF assms]) simp_all
  have session: "wp (demo_session dc db run_id servers timeout n fuel) (\<lambda>report _. report_ok n report) (\<lambda>_ _. True) t" for db run_id t
    unfolding demo_session_def finally_do_def wp_bnd wp_trying wp_thn wp_liftE
    by (rule wp_weaken [OF body]) (auto intro!: wp_all)
  show ?thesis
    unfolding run_demo_def wp_thn wp_bnd wp_self_modify Let_def
    by (rule wp_all [where m = "outside _"], rule wp_all [where m = "on_demo_client _"],
        rule wp_all [where m = "on_demo_client _"], rule session) simp_all
qed

section \<open>A daemon that fails\<close>

text \<open>The thread seen only when it is over: \<open>run_bridge\<close> from the state it was left in.\<close>

definition daemon_run ::
  "('d, 'c, 'h, 'w) environment \<Rightarrow> nat \<Rightarrow> ('d, 'c, 'h, 'w) bridge \<Rightarrow> 'w \<Rightarrow> bool \<times> exn list \<times> ('d, 'c, 'h, 'w) bridge \<times> 'w"
where
  "daemon_run env fuel b w =
     (case run_bridge env fuel (b, w) of (r, (b, w)) \<Rightarrow> (False, (case r of Inl exc \<Rightarrow> [exc] | Inr errors \<Rightarrow> errors), b, w))"

text \<open>
  A run that raises before everything is published makes the wait of the main thread raise in its first round, with
  the exception kept in \<open>bridge_errors\<close>.
\<close>

lemma failed_daemon_is_reported:
  assumes "dc_daemon dc = daemon_run (dc_env dc) k" "de_bridge d = Some b" "de_alive d"
    and "run (dc_env dc) k (b, w) = (Inl e, (b', w'))" "e \<noteq> Diverges" "int (bridge_mutations_published b') < cnt"
  shows "await_published dc cnt deadline (Suc fuel) (d, w) =
    (Inl (RuntimeError ''Bridge daemon failed''),
     (d\<lparr>de_bridge := Some b', de_alive := False, de_errors := de_errors d @ [e]\<rparr>, w'))"
  using assms
  by (simp add: look_published_def look_errors_def meanwhile_def on_demo_bridge_def daemon_run_def run_bridge_def run_simps)

section \<open>A concrete run\<close>

text \<open>
  One mutation, with calls that succeed. The world is what the topic holds, and the daemon has published all of it
  and has ended when it is first looked at.
\<close>

definition one_id :: pystr where
  "one_id = replicate 10 48"

definition one_native :: "int \<times> bytes \<times> bytes" where
  "one_native = (0, run_prefix one_id @ octets ''set_'' @ index_bytes 0, octets ''val-'' @ decimal 0)"

definition one_records :: "pb_record list" where
  "one_records = [\<lparr>pr_stream_name = golden_stream, pr_bridge_timestamp = Some (timestamp golden_ts),
       pr_record = Some (MutationArm (mutation_message 0 (fst (snd one_native)) (snd (snd one_native)) 7 0))\<rparr>,
     version_end_message golden_stream golden_ts 7 1]"

definition one_natives :: "(message list, unit, unit) natives" where
  "one_natives = \<lparr>nt_installed = True, nt_get_api_version = ret 800, nt_api_version = (\<lambda>_. ret ()),
     nt_open = (\<lambda>_. ret ()), nt_register = (\<lambda>_ _ _ _. ret 1), nt_create = (\<lambda>_ _. ret ()),
     nt_resume = (\<lambda>_ _. ret ()), nt_remove = (\<lambda>_ _. ret ()), nt_list = (\<lambda>_. ret []),
     nt_cluster_read_version = (\<lambda>_. None), nt_transaction_read_version = (\<lambda>_. ret 9),
     nt_consume = (\<lambda>_. ret demo_reply), nt_acknowledge = (\<lambda>_. ret ()),
     nt_get_position = (\<lambda>_. ret PNone), nt_close = (\<lambda>_. ret ()),
     nt_closed_meanwhile = (\<lambda>_. False), nt_monotonic = ret 0, nt_sleep = (\<lambda>_. ret ()),
     nt_time_ns = ret golden_ts, nt_fuel = 10\<rparr>"

definition calm :: "'a \<Rightarrow> (message list, 'a) kafka_call" where
  "calm x w = (Inr x, [], w)"

definition one_rdkafka :: "(message list, unit) rdkafka" where
  "one_rdkafka = \<lparr>rk_new = (\<lambda>_. ret ()), rk_init_transactions = (\<lambda>_ _. calm ()),
     rk_begin_transaction = (\<lambda>_. calm ()), rk_commit_transaction = (\<lambda>_ _. calm ()),
     rk_abort_transaction = (\<lambda>_ _. calm ()), rk_produce = (\<lambda>_ _ _ _. calm ()),
     rk_poll = (\<lambda>_ _. calm ()), rk_flush = (\<lambda>_ _. calm 0), rk_purge = (\<lambda>_. calm ()),
     rk_len = (\<lambda>_. calm 0)\<rparr>"

definition one_os :: "message list os_calls" where
  "one_os = \<lparr>os_exists = (\<lambda>_ _. False), os_read_text = (\<lambda>_. ret []), os_create = (\<lambda>_. ret ()),
     os_write = (\<lambda>_ _. ret ()), os_fsync = (\<lambda>_. ret ()), os_close = (\<lambda>_. ret ()),
     os_replace = (\<lambda>_ _. ret ()), os_directory = (\<lambda>_. []), os_open_dir = (\<lambda>_. ret ()),
     os_fsync_dir = (\<lambda>_. ret ()), os_close_dir = (\<lambda>_. ret ())\<rparr>"

definition one_env :: "(unit, unit, unit, message list) environment" where
  "one_env = \<lparr>en_pb = proto3, en_natives = one_natives, en_rdkafka = one_rdkafka, en_os = one_os,
     en_native_cursor = None, en_wait = (\<lambda>_. ret ()), en_others = (\<lambda>w. (Nothing, w)),
     en_acquire = (\<lambda>_. ret (None, True))\<rparr>"

definition one_consumer :: "(message list, unit) consumer_calls" where
  "one_consumer = \<lparr>cs_new = ret (), cs_subscribe = (\<lambda>_. ret ()),
     cs_poll = (\<lambda>_ w. case w of [] \<Rightarrow> (Inr None, []) | m # ms \<Rightarrow> (Inr (Some m), ms)),
     cs_close = (\<lambda>_. ret ()), cs_monotonic = ret 0\<rparr>"

definition all_published :: metrics where
  "all_published = \<lparr>bm_mutations_published = 1, bm_records_published = 2, bm_batches_acked = 1, bm_errors_retried = 0\<rparr>"

definition one_calls :: "(unit, unit, unit, message list, unit) demo_calls" where
  "one_calls = \<lparr>dc_env = one_env, dc_consumer = (\<lambda>_ _. one_consumer), dc_uuid = ret (replicate 16 0),
     dc_commit = (\<lambda>_ _. ret ()), dc_clear = (\<lambda>_ _ _. ret ()), dc_thread_start = ret (), dc_join = (\<lambda>_. ret ()),
     dc_daemon = (\<lambda>b w. (False, [], b\<lparr>br_metrics := all_published\<rparr>, w)), dc_unlink = (\<lambda>_. raise (OSError 2))\<rparr>"

definition topic_messages :: "message list" where
  "topic_messages = map (\<lambda>r. \<lparr>msg_error = None, msg_value = Some (SerializeToString proto3 r)\<rparr>) one_records"

definition one_config :: bridge_config where
  "one_config = run_config one_id [120]"

lemma one_bytes: "run_prefix one_id = [100, 101, 109, 111, 47, 48, 48, 48, 48, 48, 48, 48, 48, 48, 48, 47]"
  "run_stream one_id = [100, 101, 109, 111, 45, 48, 48, 48, 48, 48, 48, 48, 48, 48, 48]"
  by (simp_all add: run_prefix_def run_stream_def one_id_def octets_def ascii_def numeral_eq_Suc)

lemma one_utf8: "utf8_encode (run_stream one_id) = Some [100, 101, 109, 111, 45, 48, 48, 48, 48, 48, 48, 48, 48, 48, 48]"
  by (simp add: one_bytes utf8_char_def)

lemma one_settings:
  "strinc (run_prefix one_id) = Inr (run_end one_id)"
  "from_dict (run_settings one_id (run_end one_id) [120]) = Inr one_config"
  by (simp_all add: strinc_run_prefix run_settings_accepted one_config_def x_not_blank)

definition one_bridge :: "(unit, unit, unit, message list) bridge" where
  "one_bridge = \<lparr>br_config = one_config, br_shutdown_requested = False, br_metrics = fresh_metrics,
     br_client = None, br_listener = None, br_producer = None,
     br_producer_factory = producer_from_config one_rdkafka one_config, br_pipeline = None, br_counted = None,
     br_shared = False, br_released = nothing_released\<rparr>"

definition one_listener :: "(unit, unit) listener" where
  "one_listener = \<lparr>li_client = (new_client None 800)\<lparr>fc_db := Some ()\<rparr>,
     li_raw_stream_name = the (utf8_encode (run_stream one_id)),
     li_stream_name = utf8_decode_replace (the (utf8_encode (run_stream one_id))),
     li_key_range = Some (PBytes (run_prefix one_id), PBytes (run_end one_id)), li_initial_cursor = None,
     li_max_record_bytes = 1000000, li_resume_timeout_seconds = Finite 10,
     li_resume_poll_interval_seconds = Finite (1 / 20), li_consumer = Some (), li_is_closed = False,
     li_awaiting_ack = False, li_delivery_failed = False\<rparr>"

definition one_pipeline :: pipeline where
  "one_pipeline = \<lparr>bp_topic = run_topic one_id, bp_partition_key = the (utf8_encode (run_stream one_id)), bp_ack_retries = 3,
     bp_ack_retry_delay_seconds = Finite (1 / 5), bp_commit_retries = 3,
     bp_commit_retry_delay_seconds = Finite (1 / 5), bp_flush_timeout_seconds = Finite 10,
     bp_pending_count = 0, bp_delivered_unacked = False, bp_checkpointed = False,
     bp_commit_outstanding = False\<rparr>"

definition one_producer :: "unit producer" where
  "one_producer = \<lparr>mp_user_error_cb = False, mp_producer = Some (), mp_delivery_errors = [],
     mp_transactional = False, mp_txn_initialized = False, mp_txn_open = False, mp_closed = False, mp_fatal = False\<rparr>"

definition one_started :: "(unit, unit, unit, message list) bridge" where
  "one_started = one_bridge\<lparr>br_client := Some ((new_client None 800)\<lparr>fc_db := Some ()\<rparr>), br_listener := Some one_listener,
     br_producer := Some one_producer, br_counted := Some [], br_pipeline := Some one_pipeline, br_shared := True\<rparr>"

lemma one_new: "new_bridge one_rdkafka one_config None None False None None = Inr one_bridge"
  by (simp add: new_bridge_def one_bridge_def)

lemma one_client_open:
  "client_open one_natives (new_client None 800, w) = (Inr (), ((new_client None 800)\<lparr>fc_db := Some ()\<rparr>, w))"
  by (simp add: client_open_def init_fdb_def run_simps one_natives_def new_client_def MINIMUM_CDC_API_VERSION_def)

lemma one_config_fields [simp]:
  "cf_fdb one_config = \<lparr>cf_api_version = 800, cf_cluster_file = None\<rparr>"
  "cf_cdc one_config = \<lparr>cf_stream_name = run_stream one_id, cf_begin_key = run_prefix one_id, cf_end_key = run_end one_id,
     cf_max_record_bytes = 1000000, cf_cursor_file = Some (run_cursor_file one_id)\<rparr>"
  "cf_shutdown_timeout_seconds (cf_pipeline one_config) = Finite 15"
  "cf_flush_timeout_seconds (cf_pipeline one_config) = Finite 10"
  "cf_transactional_id (cf_kafka one_config) = None" "cf_topic (cf_kafka one_config) = run_topic one_id"
  by (simp_all add: one_config_def run_config_def)

lemma one_env_fields [simp]:
  "en_pb one_env = proto3" "en_natives one_env = one_natives" "en_rdkafka one_env = one_rdkafka"
  "en_os one_env = one_os" "en_native_cursor one_env = None" "en_acquire one_env timeout = ret (None, True)" "en_others one_env w = (Nothing, w)"
  by (simp_all add: one_env_def)

lemma one_config_pipeline:
  "config_pipeline one_config (Some (PBytes raw)) name = Inr one_pipeline"
  by (simp add: config_pipeline_def one_utf8 one_pipeline_def
      new_pipeline_def resolve_partition_key_def require_delay_def py_zero_def
      DEFAULT_ACK_RETRIES_def DEFAULT_ACK_RETRY_DELAY_SECONDS_def
      DEFAULT_COMMIT_RETRIES_def DEFAULT_COMMIT_RETRY_DELAY_SECONDS_def)

lemma one_new_listener:
  "new_listener ((new_client None 800)\<lparr>fc_db := Some ()\<rparr>) (PStr (run_stream one_id))
     (Some (PBytes (run_prefix one_id), PBytes (run_end one_id))) None None (PInt 1000000)
     (PFloat (Finite 10)) (PFloat (Finite (1 / 20))) = Inr (one_listener\<lparr>li_consumer := None\<rparr>)"
  by (simp add: new_listener_def check_seconds_def py_zero_def one_listener_def one_utf8)

lemma one_listener_start:
  "listener_start one_natives (one_listener\<lparr>li_consumer := None\<rparr>, w) = (Inr (), (one_listener, w))"
proof -
  have "\<not> run_end one_id \<le> run_prefix one_id"
    using strinc_less [OF strinc_run_prefix] by (simp add: not_le)
  then show ?thesis
    by (simp add: listener_start_def on_client_def client_open_def create_cdc_consumer_def register_cdc_stream.simps translating_def
        run_simps one_listener_def new_client_def one_natives_def)
qed

lemma one_new_producer: "producer_from_config one_rdkafka one_config w = (Inr one_producer, w)"
  by (simp add: producer_from_config_def new_producer_def merged_config_def run_simps one_rdkafka_def
      one_producer_def calm_def)

lemma one_start: "bridge_start one_env (one_bridge, w) = (Inr (), (one_started, w))"
proof -
  have "run_stream one_id \<noteq> []" "run_cursor_file one_id \<noteq> []" "li_client one_listener = (new_client None 800)\<lparr>fc_db := Some ()\<rparr>"
    by (simp_all add: one_bytes run_cursor_file_def ascii_def one_listener_def)
  then show ?thesis
    by (simp add: bridge_start_def build_pipeline_def build_client_def build_listener_def build_producer_def
      assemble_pipeline_def one_config_pipeline on_bridge_producer_def on_bridge_listener_def run_simps one_client_open
      one_new_listener one_listener_start one_new_producer load_cursor_from_file_def one_os_def config_key_range_def
      run_keys_nonempty put_listener_def one_bridge_def one_started_def one_producer_def)
qed

lemma one_wf: "list_all wf_record one_records"
proof -
  have "wf_record (version_end_message golden_stream golden_ts 7 1)"
    using golden_envelope by (intro wf_version_end_record) (auto simp: valid_version_def limit_defs)
  moreover have "wf_mutation (mutation_message 0 p1 p2 7 0)" for p1 p2
    by (rule wf_mutation_message) (simp_all add: limit_defs)
  moreover have "wf_timestamp (timestamp golden_ts)"
    by (rule wf_timestamp_timestamp) (simp_all add: golden_ts_def limit_defs)
  ultimately show ?thesis
    by (simp add: one_records_def wf_record_def golden_utf8)
qed

lemma one_parse: "list_all (\<lambda>r. ParseFromString proto3 (SerializeToString proto3 r) = Some r) one_records"
proof -
  have native: "one_native = (0, [100, 101, 109, 111, 47, 48, 48, 48, 48, 48, 48, 48, 48, 48, 48, 47,
      0x73, 0x65, 0x74, 0x5F, 0x30, 0x30, 0x30, 0x30, 0x30, 0x30, 0x30, 0x30], [0x76, 0x61, 0x6C, 0x2D, 0x30])"
    by (simp add: one_native_def one_bytes octets_def index_bytes_def decimal_def digits.simps numeral_eq_Suc)
  have "list_all (\<lambda>r. length (SerializeToString proto3 r) < 2 ^ 31) one_records"
    unfolding one_records_def native by (simp add: proto3_eval golden_utf8 golden_ts_def)
  with one_wf show ?thesis
    using proto3.parse_serialize by (auto simp: list_all_iff)
qed

lemma one_verified: "\<exists>counts. verify_workload one_records (run_prefix one_id) 1 = Inr counts"
proof -
  have parts: "mutations_of one_records = group_mutations [(7, [one_native])]" "end_pairs one_records = [(7, 1)]"
    by (simp_all add: one_records_def mutations_of_def end_pairs_def ends_of_def version_end_message_def
        group_mutations_def one_native_def)
  have "case one_native of (c, p1, p2) \<Rightarrow> matches (expected_mutation (run_prefix one_id) 0) c p1 p2"
    using native.emitted_matches [of "run_prefix one_id" 0 _ "replicate 10 0"]
    by (simp add: write_operation_def one_native_def VERSIONSTAMP_LEN_def)
  then have "exact_delivery (run_prefix one_id) (int 1) one_records"
    by (intro groups_exact [where ws = "[]" and gs = "[(7, [one_native])]" and ids = "[0]"]) (simp_all add: parts)
  then show ?thesis
    using verify_exact [OF wf_totals [OF one_wf], of "run_prefix one_id" 1] by auto
qed

lemma one_consumed: "consume_records proto3 one_consumer 1 (Finite 60) 10 topic_messages = (Inr one_records, [])"
  using one_parse
  by (simp add: consume_records_def finally_do_def run_simps one_consumer_def topic_messages_def one_records_def
      take_message_def record_mutations_def version_end_message_def numeral_eq_Suc Let_def)

definition opened :: "unit fdb_client" where
  "opened = (new_client None 800)\<lparr>fc_db := Some ()\<rparr>"

text \<open>The locals after the launch, once the daemon was looked at, and after the shutdown request.\<close>

definition one_launched :: "(unit, unit, unit, message list) demo" where
  "one_launched = \<lparr>de_client = opened, de_bridge = Some one_started, de_thread = True, de_alive = True, de_errors = []\<rparr>"

definition one_streamed :: "bool \<Rightarrow> (unit, unit, unit, message list) demo" where
  "one_streamed requested = one_launched\<lparr>de_alive := False,
     de_bridge := Some (one_started\<lparr>br_metrics := all_published, br_shutdown_requested := requested\<rparr>)\<rparr>"

lemma one_calls_fields [simp]:
  "dc_env one_calls = one_env" "dc_consumer one_calls servers topic = one_consumer"
  "dc_uuid one_calls = ret (replicate 16 0)" "dc_commit one_calls db ops = ret ()" "dc_clear one_calls db first beyond = ret ()"
  "dc_thread_start one_calls = ret ()" "dc_join one_calls timeout = ret ()"
  "dc_daemon one_calls b w = (False, [], b\<lparr>br_metrics := all_published\<rparr>, w)"
  "dc_unlink one_calls path = raise (OSError 2)"
  by (simp_all add: one_calls_def)

lemma one_clock [simp]: "nt_monotonic one_natives = ret 0" "nt_sleep one_natives x = ret ()" "nt_remove one_natives db name = ret ()"
  by (simp_all add: one_natives_def)

lemma one_launch: "launch one_calls one_id [120] (fresh_demo\<lparr>de_client := opened\<rparr>, w) = (Inr (), (one_launched, w))"
  by (simp add: launch_def one_settings bnd_liftE one_new on_demo_bridge_def run_simps one_start fresh_demo_def one_launched_def)

lemma one_await: "await_published one_calls 1 deadline (Suc fuel) (one_launched, w) = (Inr (), (one_streamed False, w))"
  by (simp add: look_published_def meanwhile_def on_demo_bridge_def run_simps one_launched_def
      one_streamed_def bridge_mutations_published_def all_published_def one_started_def one_bridge_def)

lemma one_finish: "finish_daemon one_calls (one_streamed False, w) = (Inr (), (one_streamed True, w))"
  by (simp add: finish_daemon_def look_alive_def look_errors_def request_shutdown_def meanwhile_def on_demo_bridge_def run_simps
      one_streamed_def one_launched_def)

lemma one_stop: "\<exists>b. stop one_env (one_started\<lparr>br_metrics := all_published, br_shutdown_requested := True\<rparr>, w) = (Inr (), (b, w)) \<and>
    no_handles (Some b) \<and> br_config b = one_config"
  by (simp add: stop_def settle_def lock_for_stop_def acquire_step_lock_def others_def finish_outstanding_commit_def commit_pending_def numeral_2_eq_2
      request_shutdown_def close_handles_def handle_closes_def on_released_def put_client_def Let_def run_simps no_handles_def
      listener_close_def producer_close_def on_producer_def client_close_def one_pipeline_def
      one_started_def one_bridge_def one_listener_def one_producer_def one_natives_def one_rdkafka_def calm_def)

lemma one_verify_run: "\<exists>report b. verify_run one_calls one_id [120] (Finite 60) 1 10 (one_streamed True, topic_messages) =
    (Inr report, ((one_streamed True)\<lparr>de_bridge := Some b\<rparr>, [])) \<and> no_handles (Some b) \<and> br_config b = one_config"
proof -
  obtain b where b: "stop one_env (one_started\<lparr>br_metrics := all_published, br_shutdown_requested := True\<rparr>, []) = (Inr (), (b, []))"
    "no_handles (Some b)" "br_config b = one_config"
    using one_stop by blast
  obtain counts where "verify_workload one_records (run_prefix one_id) 1 = Inr counts"
    using one_verified by blast
  moreover have "bridge_mutations_published (one_started\<lparr>br_metrics := all_published, br_shutdown_requested := True\<rparr>) = 1"
    by (simp add: bridge_mutations_published_def all_published_def)
  ultimately show ?thesis
    using b one_consumed
    by (simp add: verify_run_def look_published_def meanwhile_def on_demo_bridge_def run_simps one_streamed_def one_launched_def)
qed

lemma one_cleanup:
  assumes "no_handles (Some b)" "br_config b = one_config"
  shows "\<exists>d. demo_cleanup one_calls () one_id ((one_streamed True)\<lparr>de_bridge := Some b\<rparr>, w) = (Inr (), (d, w))"
proof -
  have "\<exists>b'. stop one_env (b\<lparr>br_shutdown_requested := True\<rparr>, w) = (Inr (), (b', w))"
    using assms
    by (simp add: stop_def settle_def lock_for_stop_def acquire_step_lock_def others_def finish_outstanding_commit_def no_handles_def
      request_shutdown_def close_handles_def handle_closes_def Let_def run_simps)
  then obtain b' where b': "stop one_env (b\<lparr>br_shutdown_requested := True\<rparr>, w) = (Inr (), (b', w))"
    by blast
  show ?thesis
    by (simp add: demo_cleanup_def on_demo_bridge_def request_shutdown_def look_alive_def meanwhile_def run_simps
      stop_bridge_def b' ignoring_def on_demo_client_def remove_cdc_stream_def translating_def client_open_def
      client_close_def one_utf8 one_settings one_streamed_def one_launched_def opened_def)
qed

lemma one_session: "\<exists>report d. demo_session one_calls () one_id [120] (Finite 60) 1 10
    (fresh_demo\<lparr>de_client := opened\<rparr>, topic_messages) = (Inr report, (d, []))"
proof -
  obtain report b where run: "verify_run one_calls one_id [120] (Finite 60) 1 10 (one_streamed True, topic_messages) =
      (Inr report, ((one_streamed True)\<lparr>de_bridge := Some b\<rparr>, []))" "no_handles (Some b)" "br_config b = one_config"
    using one_verify_run by blast
  obtain d where d: "demo_cleanup one_calls () one_id ((one_streamed True)\<lparr>de_bridge := Some b\<rparr>, []) = (Inr (), (d, []))"
    using one_cleanup run(2,3) by blast
  have "commit_samples one_calls () (run_prefix one_id) 0 1 = ret ()"
    by (simp add: commit_samples.simps commit_chunk_def batch_size_def write_operation_def bnd_liftE fun_eq_iff run_simps)
  moreover have "seed_clear_targets (run_prefix one_id) 1 = []"
    by (simp add: seed_clear_targets_def slices_of.simps)
  ultimately have "demo_body one_calls () one_id [120] (Finite 60) 1 10 (fresh_demo\<lparr>de_client := opened\<rparr>, topic_messages) =
      (Inr report, ((one_streamed True)\<lparr>de_bridge := Some b\<rparr>, []))"
    by (simp add: demo_body_def run_simps one_launch one_await [of _ 9, simplified] one_finish run(1))
  then show ?thesis
    by (simp add: demo_session_def finally_do_def run_simps d)
qed

lemma one_run: "\<exists>report d. run_demo one_calls [120] (Finite 60) 1 10 (d0, topic_messages) = (Inr report, (d, []))"
proof -
  have "to_hex (replicate k 0) = replicate (2 * k) 48" for k
    by (induction k) (simp_all add: to_hex_def hex_digit_def)
  then have "take 10 (to_hex (replicate 16 0)) = one_id"
    by (simp add: one_id_def)
  moreover have "client_open one_natives (new_client None 800, w) = (Inr (), (opened, w))" for w
    by (simp add: one_client_open opened_def)
  moreover have "get_read_version one_natives (opened, w) = (Inr 9, (opened, w))" for w
    by (simp add: get_read_version_def client_open_def run_simps one_natives_def opened_def)
  ultimately show ?thesis
    using one_session
    by (simp add: run_demo_def run_simps on_demo_client_def fresh_demo_def)
qed

section \<open>Properties\<close>

text \<open>C28: The demonstration watches what it writes. Unless the bootstrap servers are blank, the configuration it
  builds is accepted, and the key range it sets up holds every key of every operation that it commits, for
  the seeds of the clear ranges as for the samples, whatever the run is called.\<close>

theorem demo_watches_its_writes:
  assumes "\<not> blank servers" "write_samples (run_prefix run_id) (int n) = Inr txs"
  shows "\<exists>end_key cfg. strinc (run_prefix run_id) = Inr end_key \<and>
    from_dict (run_settings run_id end_key servers) = Inr cfg \<and>
    config_key_range (cf_cdc cfg) = Some (PBytes (run_prefix run_id), PBytes end_key) \<and>
    (\<forall>op \<in> set (concat (seed_clear_targets (run_prefix run_id) (int n) @ txs)). \<forall>k \<in> set (operation_keys op).
       run_prefix run_id \<le> k \<and> k < end_key)"
proof -
  have "prefix (run_prefix run_id) k"
    if op: "op \<in> set (concat (seed_clear_targets (run_prefix run_id) (int n) @ txs))" and key: "k \<in> set (operation_keys op)" for op k
  proof -
    consider "op \<in> set (concat (seed_clear_targets (run_prefix run_id) (int n)))" | "op \<in> set (concat txs)"
      using op by auto
    then show ?thesis
      by cases (use key seeded_below_prefix samples_below_prefix [OF assms(2)] in metis)+
  qed
  then show ?thesis
    using assms(1) strinc_range [OF strinc_run_prefix]
    by (simp add: strinc_run_prefix run_settings_accepted run_config_def config_key_range_def run_keys_nonempty)
qed

theorem demo_watches_its_writes_witness:
  "\<exists>txs end_key. write_samples (run_prefix one_id) 1 = Inr txs \<and> strinc (run_prefix one_id) = Inr end_key \<and>
     run_prefix one_id @ octets ''set_'' @ index_bytes 0 < end_key"
proof -
  have txs: "write_samples (run_prefix one_id) (int 1) =
      Inr [[SetKey (run_prefix one_id @ octets ''set_'' @ index_bytes 0) (octets ''val-'' @ decimal 0)]]"
    by (simp add: write_samples_def write_from.simps commit_chunk_def batch_size_def write_operation_def)
  from demo_watches_its_writes [OF x_not_blank this] txs show ?thesis
    by auto
qed

text \<open>C12: A demonstration that ends without an exception has verified its run. The daemon counted as many mutations as
  were asked for; the records read from the topic are an exact delivery of the workload under the prefix of the
  run; the report counts their version ends and the mutations of each type, and has a name for every type.
  Whatever the database, the brokers, the clock and the daemon's thread do, every other end is an exception.\<close>

theorem demo_success_is_verified:
  assumes "protobuf_runtime (en_pb (dc_env dc))" "run_demo dc servers timeout n fuel s = (Inr report, t)"
  shows "report_ok n report"
  using run_demo_report [OF assms(1)] assms(2) by (rule wp_InrD)

theorem demo_success_is_verified_witness:
  "\<exists>report. fst (run_demo one_calls [120] (Finite 60) 1 10 (fresh_demo, topic_messages)) = Inr report \<and> report_ok 1 report"
proof -
  obtain report d where run: "run_demo one_calls [120] (Finite 60) 1 10 (fresh_demo, topic_messages) = (Inr report, (d, []))"
    using one_run by blast
  have "protobuf_runtime (en_pb (dc_env one_calls))"
    by (simp add: proto3.protobuf_runtime_axioms)
  from demo_success_is_verified [OF this run] run show ?thesis
    by simp
qed

text \<open>C27: The demonstration releases what it holds. However its \<open>try\<close> statement is left, by a return or by an
  \<open>Exception\<close> anywhere in it, the database client is closed, and the bridge, if there is one, refers to no producer,
  listener, client or pipeline any more, unless the daemon's thread still runs, which \<open>_stop_bridge\<close> leaves
  alone. The lock, the clock and \<open>join\<close> are taken to raise no \<open>Exception\<close>.\<close>

theorem demo_releases_everything:
  assumes "never_fails (nt_monotonic (en_natives (dc_env dc)))" "\<And>timeout. never_fails (en_acquire (dc_env dc) timeout)"
    and "\<And>timeout. never_fails (dc_join dc timeout)"
    and "demo_session dc db run_id servers timeout n fuel s = (r, t)" "\<And>e. r = Inl e \<Longrightarrow> is_Exception e"
  shows "released (fst t)"
proof -
  have "wp (demo_session dc db run_id servers timeout n fuel) (\<lambda>_ t. released (fst t)) (\<lambda>e t. is_Exception e \<longrightarrow> released (fst t)) s"
    unfolding demo_session_def finally_do_def wp_bnd wp_trying wp_thn wp_liftE
    by (rule wp_all [where m = "demo_body _ _ _ _ _ _ _"]; rule wp_weaken [OF cleanup_releases [OF assms(1,2,3)]]) auto
  with assms(4,5) show ?thesis
    by (cases r) (auto simp: wp_def)
qed

theorem demo_releases_everything_witness:
  "\<exists>d. snd (demo_session one_calls () one_id [120] (Finite 60) 1 10 (fresh_demo\<lparr>de_client := opened\<rparr>, topic_messages)) = (d, []) \<and>
     released d"
proof -
  obtain report d where run: "demo_session one_calls () one_id [120] (Finite 60) 1 10
      (fresh_demo\<lparr>de_client := opened\<rparr>, topic_messages) = (Inr report, (d, []))"
    using one_session by blast
  have "released (fst (d, [] :: message list))"
    by (rule demo_releases_everything [OF _ _ _ run]) (simp_all add: never_fails_ret)
  with run show ?thesis
    by simp
qed

end
