(* ===== verification/Scripts.thy ===== *)
theory Scripts
  imports Demo "HOL-Library.Finite_Map"
begin

text \<open>
  The scripts under \<open>src/scripts\<close>: the gate on skipped tests, the smoke test of the producer and the check of a
  cluster. The XML parser, the console consumer and the store are parameters; the store's laws are the
  locale \<open>key_value_store\<close>, interpreted on finite maps.
\<close>

section \<open>\<open>require_no_skips.py\<close>\<close>

text \<open>\<open>int(s)\<close> of an ASCII text: white space around, a sign, and digits with single underscores between them.\<close>

definition strip :: "pystr \<Rightarrow> pystr" where
  "strip s = rev (dropWhile is_space (rev (dropWhile is_space s)))"

fun digits_text :: "bool \<Rightarrow> pystr \<Rightarrow> nat list option" where
  "digits_text after_digit [] = (if after_digit then Some [] else None)"
| "digits_text after_digit (c # cs) =
     (if is_digit c then map_option ((#) c) (digits_text True cs)
      else if c = 95 \<and> after_digit then digits_text False cs
      else None)"

definition int_text :: "pystr \<Rightarrow> int option" where
  "int_text s =
     (case strip s of
        [] \<Rightarrow> None
      | c # cs \<Rightarrow>
          if c = 45 then map_option (\<lambda>ds. - int (digits_value ds)) (digits_text False cs)
          else if c = 43 then map_option (\<lambda>ds. int (digits_value ds)) (digits_text False cs)
          else map_option (\<lambda>ds. int (digits_value ds)) (digits_text False (c # cs)))"

text \<open>The report is the list of the attributes of its \<open>testsuite\<close> elements; a missing attribute is a \<open>KeyError\<close>.\<close>

definition int_attribute :: "(string \<times> pystr) list \<Rightarrow> string \<Rightarrow> exn + int" where
  "int_attribute attrib name =
     (case map_of attrib name of
        None \<Rightarrow> Inl (OtherError None)
      | Some s \<Rightarrow> (case int_text s of None \<Rightarrow> Inl ValueError | Some n \<Rightarrow> Inr n))"

datatype report_failure = NoTestsCollected | TestsSkipped int int

definition check_report :: "(string \<times> pystr) list list \<Rightarrow> exn + report_failure option" where
  "check_report suites =
     bindE (mapE (\<lambda>s. bindE (int_attribute s ''tests'') (\<lambda>tests.
                     bindE (int_attribute s ''skipped'') (\<lambda>skipped. Inr (tests, skipped)))) suites) (\<lambda>totals.
     let collected = sum_list (map fst totals); skipped = sum_list (map snd totals) in
     if collected = 0 then Inr (Some NoTestsCollected)
     else if skipped \<noteq> 0 then Inr (Some (TestsSkipped skipped collected))
     else Inr None)"

text \<open>The exit code; \<open>parse\<close> reads the file that is named.\<close>

definition no_skips_main :: "(pystr \<Rightarrow> exn + (string \<times> pystr) list list) \<Rightarrow> pystr list \<Rightarrow> exn + int" where
  "no_skips_main parse argv =
     (if length argv \<noteq> 2 then Inr 2
      else bindE (parse (argv ! 1)) (\<lambda>suites.
           bindE (check_report suites) (\<lambda>failure. Inr (if failure \<noteq> None then 1 else 0))))"

lemma mapE_list_all2: "mapE f xs = Inr ys \<longleftrightarrow> list_all2 (\<lambda>x y. f x = Inr y) xs ys"
  by (induction xs arbitrary: ys) (auto simp: result_simps list_all2_Cons1)

text \<open>Exit code 0: some test ran, and no suite skipped one, where every suite states counts that are not negative.\<close>

lemma no_skips_main_passes:
  assumes "no_skips_main parse argv = Inr 0"
    and "\<And>path suites s name n. parse path = Inr suites \<Longrightarrow> s \<in> set suites \<Longrightarrow> int_attribute s name = Inr n \<Longrightarrow> 0 \<le> n"
  shows "\<exists>suites. parse (argv ! 1) = Inr suites \<and> (\<forall>s \<in> set suites. int_attribute s ''skipped'' = Inr 0) \<and>
    (\<exists>s \<in> set suites. \<exists>n > 0. int_attribute s ''tests'' = Inr n)"
proof -
  let ?counts = "\<lambda>s. bindE (int_attribute s ''tests'') (\<lambda>tests. bindE (int_attribute s ''skipped'') (\<lambda>skipped. Inr (tests, skipped)))"
  obtain suites totals where run: "parse (argv ! 1) = Inr suites" "mapE ?counts suites = Inr totals"
    "sum_list (map fst totals) \<noteq> 0" "sum_list (map snd totals) = 0"
    using assms(1) by (auto simp: no_skips_main_def check_report_def result_simps Let_def split: if_splits)
  have all: "list_all2 (\<lambda>s t. int_attribute s ''tests'' = Inr (fst t) \<and> int_attribute s ''skipped'' = Inr (snd t)) suites totals"
    using run(2) unfolding mapE_list_all2 by (rule list.rel_mono_strong) (auto simp: result_simps)
  have stated: "\<exists>s \<in> set suites. int_attribute s ''tests'' = Inr (fst t) \<and> int_attribute s ''skipped'' = Inr (snd t)"
    if "t \<in> set totals" for t
    using all that by (induction rule: list_all2_induct) auto
  have counts: "0 \<le> fst t \<and> 0 \<le> snd t" if "t \<in> set totals" for t
    using stated [OF that] assms(2) [OF run(1)] by blast
  then have zero: "\<forall>t \<in> set totals. snd t = 0"
    using run(4) by (subst (asm) sum_list_nonneg_eq_0_iff) auto
  have "\<forall>s \<in> set suites. int_attribute s ''skipped'' = Inr 0"
    using all zero by (induction rule: list_all2_induct) auto
  moreover obtain t where "t \<in> set totals" "fst t \<noteq> 0"
    using run(3) sum_list_0 [of totals] by (metis (mono_tags) map_eq_conv sum_list_0)
  then have "\<exists>s \<in> set suites. \<exists>n > 0. int_attribute s ''tests'' = Inr n"
    using stated counts by (metis order_le_imp_less_or_eq)
  ultimately show ?thesis
    using run(1) by blast
qed

section \<open>\<open>kafka_producer_smoke.py\<close>\<close>

text \<open>\<open>bytes.find\<close>: the first place a text stands at, if it does.\<close>

fun find_bytes :: "bytes \<Rightarrow> bytes \<Rightarrow> nat option" where
  "find_bytes sub [] = (if sub = [] then Some 0 else None)"
| "find_bytes sub (b # bs) =
     (if take (length sub) (b # bs) = sub then Some 0 else map_option Suc (find_bytes sub bs))"

text \<open>The value in the consumer's output, sliced by the framing of the record.\<close>

definition read_console :: "bytes \<Rightarrow> bytes \<Rightarrow> exn + bytes" where
  "read_console key stdout =
     (let key_tab = key @ [9] in
      case find_bytes key_tab stdout of
        None \<Rightarrow> Inl (RuntimeError ''console consumer output lacks a record'')
      | Some start \<Rightarrow>
          if stdout = [] \<or> last stdout \<noteq> 10
          then Inl (RuntimeError ''console consumer output lacks a record'')
          else Inr (drop (start + length key_tab) (butlast stdout)))"

text \<open>\<open>console\<close> runs the console consumer on the topic and gives its output, or raises.\<close>

definition smoke_main ::
  "protobuf \<Rightarrow> ('w, 'h) rdkafka \<Rightarrow> (pystr \<Rightarrow> ('w, bytes) eff) \<Rightarrow> pystr \<Rightarrow> pystr \<Rightarrow> pyfloat \<Rightarrow> bytes \<Rightarrow>
     pb_record \<Rightarrow> ('w, int) eff" where
  "smoke_main pb rk console bootstrap_servers topic timeout key record =
     bnd (new_producer rk bootstrap_servers [] None) (\<lambda>producer.
     bnd (zoom (\<lambda>w. (producer, w)) (\<lambda>s _. snd s)
            (thn (produce pb rk topic record (Some key)) (flush rk timeout))) (\<lambda>remaining.
     if remaining \<noteq> 0 then raise (RuntimeError ''Kafka still has undelivered messages'')
     else
       bnd (console topic) (\<lambda>stdout.
       bnd (liftE (read_console key stdout)) (\<lambda>value_bytes.
       case ParseFromString pb value_bytes of
         None \<Rightarrow> raise (OtherError None)
       | Some parsed \<Rightarrow>
           if parsed \<noteq> record then raise (RuntimeError ''decoded Protobuf does not match the produced record'')
           else ret 0))))"

text \<open>Every value is read back whole, line feeds and tabs in it included.\<close>

lemma read_console_framed: "read_console key (key @ [9] @ value @ [10]) = Inr value"
proof -
  have "find_bytes (key @ [9]) (key @ [9] @ value @ [10]) = Some 0"
    by (cases "key @ [9] @ value @ [10]") (auto simp: append_eq_Cons_conv)
  then show ?thesis
    by (simp add: read_console_def Let_def butlast_append)
qed

text \<open>With a console that prints the framed record, the smoke test succeeds as soon as nothing is left to deliver.\<close>

lemma smoke_main_succeeds:
  assumes "protobuf_runtime pb" "wf_record record" "length (SerializeToString pb record) < 2 ^ 31"
    and "new_producer rk servers [] None w = (Inr producer, w1)"
    and "thn (produce pb rk topic record (Some key)) (flush rk timeout) (producer, w1) = (Inr 0, (producer2, w2))"
    and "console topic w2 = (Inr (key @ [9] @ SerializeToString pb record @ [10]), w3)"
  shows "smoke_main pb rk console servers topic timeout key record w = (Inr 0, w3)"
  using assms(4-6) protobuf_runtime.parse_serialize [OF assms(1,2,3)]
  by (simp add: smoke_main_def run_simps read_console_framed [simplified])

text \<open>And it does not succeed with another record, whatever the console prints.\<close>

lemma smoke_main_checks: "wp (smoke_main pb rk console servers topic timeout key record)
    (\<lambda>code _. code = 0 \<and> (\<exists>stdout value. read_console key stdout = Inr value \<and> ParseFromString pb value = Some record)) (\<lambda>_ _. True) w"
proof -
  let ?Q = "\<lambda>code (_ :: 'a). code = (0 :: int) \<and> (\<exists>stdout value. read_console key stdout = Inr value \<and> ParseFromString pb value = Some record)"
  let ?checks = "\<lambda>stdout. bnd (liftE (read_console key stdout)) (\<lambda>value_bytes.
       case ParseFromString pb value_bytes of
         None \<Rightarrow> raise (OtherError None)
       | Some parsed \<Rightarrow>
           if parsed \<noteq> record then raise (RuntimeError ''decoded Protobuf does not match the produced record'')
           else ret 0)"
  have checks: "wp (?checks stdout) ?Q (\<lambda>_ _. True) t" for stdout t
    by (auto simp: wp_simps split: option.split sum.split)
  have consumed: "wp (bnd (console topic) ?checks) ?Q (\<lambda>_ _. True) t" for t
    unfolding wp_bnd [of "console topic"] by (rule wp_all) (simp_all only: checks)
  show ?thesis
    unfolding smoke_main_def wp_bnd [of "new_producer _ _ _ _"] wp_bnd [of "zoom _ _ _"]
    by (rule wp_all, rule wp_all) (simp_all add: consumed wp_raise)
qed

section \<open>\<open>verify_fdb_cluster.py\<close>\<close>

definition test_key :: "nat \<Rightarrow> bytes" where
  "test_key i = octets ''test:'' @ replicate (4 - length (digits i)) 48 @ decimal i"

definition test_value :: "nat \<Rightarrow> bytes" where
  "test_value i = octets ''value_'' @ decimal i"

definition write_test_data :: "operation list" where
  "write_test_data =
     ClearRange (octets ''test:'' @ [0]) (octets ''test:'' @ [0xFF]) # map (\<lambda>i. SetKey (test_key i) (test_value i)) [0..<20]"

fun verify_items :: "nat \<Rightarrow> (bytes \<times> bytes) list \<Rightarrow> exn + unit" where
  "verify_items i [] = Inr ()"
| "verify_items i ((k, v) # items) =
     (if k \<noteq> test_key i then Inl AssertionError
      else if v \<noteq> test_value i then Inl AssertionError
      else verify_items (Suc i) items)"

definition read_and_verify_test_data :: "(bytes \<times> bytes) list \<Rightarrow> exn + nat" where
  "read_and_verify_test_data items = bindE (verify_items 0 items) (\<lambda>_. Inr (length items))"

text \<open>\<open>commit\<close> runs the operations in a transaction, \<open>range\<close> is \<open>get_range\<close>.\<close>

definition cluster_main ::
  "(operation list \<Rightarrow> 's \<Rightarrow> 's) \<Rightarrow> ('s \<Rightarrow> bytes \<Rightarrow> bytes \<Rightarrow> (bytes \<times> bytes) list) \<Rightarrow> 's \<Rightarrow> exn + unit" where
  "cluster_main commit get_range s =
     bindE (read_and_verify_test_data
       (get_range (commit write_test_data s) (octets ''test:'' @ [0]) (octets ''test:'' @ [0xFF]))) (\<lambda>cnt.
     if cnt \<noteq> 20 then Inl AssertionError else Inr ())"

definition test_pairs :: "(bytes \<times> bytes) list" where
  "test_pairs = map (\<lambda>i. (test_key i, test_value i)) [0..<20]"

lemma twenty_keys: "map test_key [0..<20] =
    map (\<lambda>(t, d). octets ''test:'' @ [48, 48, t, d]) (concat (map (\<lambda>t. map (\<lambda>d. (t, d)) [48, 49, 50, 51, 52, 53, 54, 55, 56, 57]) [48, 49]))"
  by code_simp

lemma verify_written: "verify_items j (map (\<lambda>i. (test_key i, test_value i)) [j..<n]) = Inr ()"
proof (induction "n - j" arbitrary: j)
  case (Suc k)
  then have "[j..<n] = j # [Suc j..<n]"
    by (simp add: upt_rec)
  with Suc show ?case
    by simp
qed simp

lemma foldl_updates: "foldl (\<lambda>m i. m(f i \<mapsto> g i)) m xs = m ++ map_of (rev (map (\<lambda>i. (f i, g i)) xs))"
  by (induction xs arbitrary: m) (auto simp: map_add_def fun_eq_iff split: option.split)

text \<open>What a store promises of the two operations the script uses, in terms of what it holds under a key.\<close>

locale key_value_store =
  fixes commit :: "operation list \<Rightarrow> 's \<Rightarrow> 's"
    and get_range :: "'s \<Rightarrow> bytes \<Rightarrow> bytes \<Rightarrow> (bytes \<times> bytes) list"
    and held :: "'s \<Rightarrow> bytes \<rightharpoonup> bytes"
  assumes commit_nil: "commit [] s = s"
    and commit_set: "held (commit (SetKey k v # ops) s) = held (commit ops (commit [SetKey k v] s))"
      "held (commit [SetKey k v] s) = (held s)(k \<mapsto> v)"
    and commit_clear: "held (commit (ClearRange b e # ops) s) = held (commit ops (commit [ClearRange b e] s))"
      "held (commit [ClearRange b e] s) = (\<lambda>k. if b \<le> k \<and> k < e then None else held s k)"
    and get_range_sorted: "sorted (map fst (get_range s b e))" "distinct (map fst (get_range s b e))"
    and get_range_holds: "set (get_range s b e) = {(k, v). held s k = Some v \<and> b \<le> k \<and> k < e}"
begin

lemma held_sets: "held (commit (map (\<lambda>i. SetKey (f i) (g i)) xs) s) = foldl (\<lambda>m i. m(f i \<mapsto> g i)) (held s) xs"
proof (induction xs arbitrary: s)
  case (Cons i xs)
  have "held (commit (map (\<lambda>i. SetKey (f i) (g i)) (i # xs)) s) =
      held (commit (map (\<lambda>i. SetKey (f i) (g i)) xs) (commit [SetKey (f i) (g i)] s))"
    unfolding list.map by (rule commit_set(1))
  also have "\<dots> = foldl (\<lambda>m i. m(f i \<mapsto> g i)) ((held s)(f i \<mapsto> g i)) xs"
    unfolding Cons.IH by (simp only: commit_set(2))
  finally show ?case
    by (simp only: foldl.simps)
qed (simp add: commit_nil)

lemma held_writes:
  "held (commit write_test_data s) = (\<lambda>k. if octets ''test:'' @ [0] \<le> k \<and> k < octets ''test:'' @ [0xFF] then None else held s k)
     ++ map_of (rev (map (\<lambda>i. (test_key i, test_value i)) [0..<20]))"
  unfolding write_test_data_def
  by (subst commit_clear(1), subst held_sets, subst commit_clear(2), rule foldl_updates)

text \<open>Whatever the store held, the script finds the twenty pairs it wrote, in order, and nothing else.\<close>

lemma cluster_main_passes: "cluster_main commit get_range s = Inr ()"
proof -
  let ?lo = "octets ''test:'' @ [0]" and ?hi = "octets ''test:'' @ [0xFF]"
  let ?items = "get_range (commit write_test_data s) ?lo ?hi"
  have keys: "distinct (map test_key [0..<20])" "sorted (map test_key [0..<20])"
    "list_all (\<lambda>k. ?lo \<le> k \<and> k < ?hi) (map test_key [0..<20])"
    by (simp_all add: twenty_keys octets_def)
  have dist: "distinct (map fst (rev test_pairs))"
    using keys(1) by (simp add: test_pairs_def rev_map [symmetric] comp_def)
  have "set ?items = set test_pairs"
  proof -
    have "?lo \<le> k \<and> k < ?hi" if "(k, v) \<in> set test_pairs" for k v
      using that keys(3) by (auto simp: test_pairs_def list_all_iff)
    then show ?thesis
      using dist by (auto simp: get_range_holds held_writes test_pairs_def [symmetric] map_add_Some_iff map_of_eq_Some_iff)
  qed
  moreover have "map fst ?items = map fst test_pairs"
  proof (rule sorted_distinct_set_unique)
    show "set (map fst ?items) = set (map fst test_pairs)"
      using \<open>set ?items = set test_pairs\<close> by simp
  qed (use keys get_range_sorted in \<open>simp_all add: test_pairs_def comp_def\<close>)
  ultimately have "?items = test_pairs"
    using dist by (intro map_inj_on [of fst]) (auto simp: distinct_map)
  then show ?thesis
    by (simp add: cluster_main_def read_and_verify_test_data_def test_pairs_def verify_written)
qed

end

text \<open>The store as a finite map, for the operations the script uses.\<close>

fun map_operation :: "operation \<Rightarrow> (bytes, bytes) fmap \<Rightarrow> (bytes, bytes) fmap" where
  "map_operation (SetKey k v) m = fmupd k v m"
| "map_operation (ClearRange b e) m = fmfilter (\<lambda>k. \<not> (b \<le> k \<and> k < e)) m"
| "map_operation _ m = m"

definition map_range :: "(bytes, bytes) fmap \<Rightarrow> bytes \<Rightarrow> bytes \<Rightarrow> (bytes \<times> bytes) list" where
  "map_range m b e = map (\<lambda>k. (k, the (fmlookup m k))) (filter (\<lambda>k. b \<le> k \<and> k < e) (sorted_list_of_fset (fmdom m)))"

interpretation finite_store: key_value_store "fold map_operation" map_range fmlookup
proof unfold_locales
  show "set (map_range m b e) = {(k, v). fmlookup m k = Some v \<and> b \<le> k \<and> k < e}" for m b e
    by (force simp: map_range_def fmdom'_alt_def [symmetric] fmlookup_dom'_iff)
qed (auto simp: map_range_def comp_def fun_eq_iff sorted_wrt_filter sorted_list_of_fset.rep_eq)

end
