(* ===== verification/Spec2Isabelle.thy ===== *)
theory Spec2Isabelle
  imports Record_Format Key_Range Kafka_Delivery Checkpoint_Safety Config Bridge_Delivery Demo_Run_Delivery Scripts
begin

text \<open>
  A model of the FoundationDB to Kafka bridge (\<open>src/src/fdb_kafka_bridge\<close>) and of its demonstration
  (\<open>src/demo\<close>), with the properties that make them correct.

  \<^bold>\<open>The program.\<close> A daemon (\<open>bridge/pipeline.py\<close>, \<open>Bridge\<close>) is built from a configuration
  (\<open>bridge/config.py\<close>). Its listener (\<open>cdc/listener.py\<close>, over \<open>cdc/client.py\<close>) polls a reply of FoundationDB's
  change data capture and turns its version groups into Protobuf records (\<open>serialization/\<close>); its pipeline
  (\<open>BridgePipeline\<close>) publishes the records through a Kafka producer (\<open>kafka/producer.py\<close>), transactional or not,
  saves the cursor in a file, and only then acknowledges the reply, so that a crash at any point repeats records but
  loses none. The demonstration writes a workload, consumes the topic and verifies every record.

  \<^bold>\<open>Conventions.\<close> Pure code is a function to \<open>exn + 'a\<close> (\<open>Inl\<close> a raised exception, \<open>Inr\<close> a returned value);
  stateful code is a computation \<open>('s, 'a) eff\<close> that also returns the state it leaves, so that changes made before
  a \<open>raise\<close> are kept (theory \<open>Effects\<close>, with a weakest-precondition calculus and its frame version \<open>preserves\<close>).
  Objects are records; a method is a computation over the object and the outside world. Integers are unbounded, as
  Python's; bytes are lists of \<open>8 word\<close>; a Python \<open>str\<close> is a list of code points; dynamically typed values are the
  datatype \<open>pyval\<close>. What is not under \<open>src/\<close> is a parameter: the Protobuf runtime (\<open>protobuf\<close>), the native binding
  (\<open>natives\<close>), librdkafka (\<open>rdkafka\<close>), the operating system (\<open>os_calls\<close>), Kafka's consumer (\<open>consumer_calls\<close>), with
  arbitrary results, exceptions and state changes. Their documented laws, where a property needs any, are locales
  interpreted on executable instances: \<open>protobuf_runtime\<close> on a proto3 codec, \<open>cdc_emission\<close> on the documented
  rewrites, \<open>key_value_store\<close> on finite maps, the crash-consistent file system of \<open>Disk\<close>.

  \<^bold>\<open>Serialization.\<close> \<open>Errors\<close>, \<open>Py_Values\<close>, \<open>Utf8\<close>: exceptions (\<open>serialization/errors.py\<close>, \<open>cdc/errors.py\<close>), values and
  text. \<open>Model\<close>: \<open>serialization/model.py\<close>. \<open>Proto\<close>, \<open>Proto3\<close>: the messages, the runtime and its instance. \<open>Checks\<close>,
  \<open>Wire\<close>, \<open>Serializer\<close>, \<open>Version_Group\<close>, \<open>Deserializer\<close>: the modules of the same names. \<open>Record_Format\<close>: round trips
  of every kind of record, the group of a version (complete, in order, within \<open>max_record_bytes\<close>, greedily sliced,
  rejected exactly when a mutation cannot fit), and the strictness of the deserializer.

  \<^bold>\<open>Change data capture.\<close> \<open>Cdc_Client\<close>, \<open>Key_Range\<close>, \<open>Listener\<close>: \<open>cdc/client.py\<close> and \<open>cdc/listener.py\<close>, with a close by
  another thread while a call blocks; a \<open>with\<close> block closes however it ends. \<open>Cdc_Delivery\<close>: the records of a reply are complete, one reply at a time is
  outstanding, a reply that cannot be serialized stops the listener for good, and the wait for a resumed cursor ends (its fuel
  \<open>nt_fuel\<close> is enough as soon as the clock advances by the poll interval at each check).

  \<^bold>\<open>Kafka.\<close> \<open>Kafka_Producer\<close>: \<open>kafka/producer.py\<close>; each librdkafka call may serve delivery callbacks. \<open>Kafka_Delivery\<close>:
  mandatory settings, the closed and fatal gate, delivery errors that stick from the first failed report that
  librdkafka serves (a log kept in the world says which ones it did), the transaction's life cycle.

  \<^bold>\<open>Pipeline.\<close> \<open>Pipeline\<close>: \<open>BridgePipeline\<close> over a record of its collaborators' operations (\<open>ports\<close>).
  \<open>Pipeline_Protocol\<close>: an abstract state machine of delivery, a log of events, and the refinement of every run of
  steps to a run of the machine. \<open>Reply_Source\<close> and \<open>Bridge_Core\<close>: the interface the pipeline needs of a listener
  and its interpretation on the modelled listener, producer and cursor file. \<open>Pipeline_Delivery\<close>: what is acknowledged
  was published and checkpointed before. \<open>Pipeline_Failures\<close>: a commit that keeps failing stays open, a dead one is
  given up.

  \<^bold>\<open>Cursor file.\<close> \<open>Json\<close>, \<open>Cursor_File\<close>: saving and loading with the JSON text. \<open>Disk\<close>, \<open>Checkpoint_Safety\<close>: a file
  system that may lose what was not synced; a save is atomic, a saved cursor survives, a foreign one is refused.

  \<^bold>\<open>Configuration.\<close> \<open>Config\<close>: \<open>from_dict\<close> and its checks. Floats are rationals with the infinities and NaN, so
  rounding is left out; an accepted configuration is in the documented domain, except for intervals that are given
  as NaN or infinity, and the two gaps of that check, in every accepted configuration.

  \<^bold>\<open>Daemon.\<close> \<open>Bridge\<close>: every method of \<open>Bridge\<close>. The run thread is modelled step by step; what other threads do while it
  does not hold the step lock (nothing, \<open>request_shutdown\<close>, a whole \<open>stop\<close>) is read from the environment
  at those points. While \<open>stop\<close> waits for the lock, the run thread may finish the round it is in: the environment
  says whether it is in one, the round is the modelled code (\<open>round_in_flight\<close>). The objects that \<open>stop\<close> closes
  stay visible in \<open>br_released\<close>. The run loop has fuel, and running out of it is the exception \<open>Diverges\<close>, not a return; the loop
  of \<open>_finish_outstanding_commit\<close> needs two rounds (\<open>finish_loop_fuel\<close>). \<open>Bridge_Safety\<close>: the invariant of
  the daemon and the effect of building and discarding. \<open>Bridge_Delivery\<close>: the state is sound after every sequence of
  calls, a rebuild is all or nothing, a commit that may complete is not cut off, what ends a run, what \<open>stop\<close> closes,
  and a reply that is lost for good.

  \<^bold>\<open>Demonstration.\<close> \<open>Workload\<close>, \<open>Workload_Spec\<close>: \<open>demo/workload.py\<close> and the equivalence of its verifier with a
  declarative specification. \<open>Demo\<close>, \<open>Demo_Delivery\<close>: the writes, the consumer and the teardown of
  \<open>demo/run_demo.py\<close>, and the composition: what is written, emitted by native CDC and serialized by the bridge
  passes the verifier. \<open>Demo_Run\<close>, \<open>Demo_Run_Delivery\<close>: \<open>run_demo\<close> with its configuration, the daemon's thread as a
  parameter that is looked at where the main thread looks, the wait for the daemon (with fuel, as the run loop has),
  the verification and the cleanup; a run that returns is verified, every way out releases the handles, and
  the key range holds what is written.

  \<^bold>\<open>Scripts.\<close> \<open>Scripts\<close>: \<open>require_no_skips.py\<close>, \<open>kafka_producer_smoke.py\<close> and \<open>verify_fdb_cluster.py\<close>, with the console
  consumer and the XML parser as parameters and a key-value store as a locale.

  \<^bold>\<open>Not modelled.\<close> Message texts (except those the code inspects) and log output; rounding of floats; package
  re-exports and generated code; threads that call \<open>stop\<close> without the lock at other points than the blocking calls
  and the lock itself; what a round of the run thread does that outlasts both waits of \<open>stop\<close>; command-line parsing, progress output and the durations printed with it;
  \<open>scripts/format_coverage.py\<close>, which copies three numbers from JSON files into a table.
\<close>

end
